(* ===== verification/Prelude.thy ===== *)
theory Prelude
  imports Main "HOL-Library.Multiset"
begin

text \<open>
  What every theory of the development shares: the error values of the Go code, the
  state-passing results of its functions, the string helpers of Go's \<open>strings\<close> package that
  the code uses, and the list lemmas that the table and counter arguments rest on.

  A Go function that touches a database, Redis or another effect is a function
  \<open>'w \<Rightarrow> 'a res \<times> 'w\<close>: it takes the world and returns its result (an error or a value) with
  the world after the call. A nil pointer is \<open>None\<close>; dereferencing nil is the error \<open>Panic\<close>,
  which unwinds the same way as a returned error, but which code that discards an error value
  (\<open>_ = f()\<close>) does not stop.
\<close>

named_theorems go_simps \<open>the equations of the result combinators\<close>
named_theorems go_frames \<open>which calls only read, and which cannot panic\<close>
named_theorems table_simps \<open>row counts after an update of a table\<close>

section \<open>Errors and results\<close>

record AppException =
  exc_Code :: string
  exc_Info :: string

datatype go_error =
    AppError AppException   \<comment> \<open>an error that is an \<open>*exception.AppException\<close>\<close>
  | OtherError string       \<comment> \<open>any other error value, by its message\<close>
  | Panic string            \<comment> \<open>a run-time panic that unwinds the call\<close>

type_synonym 'a res = "go_error + 'a"
type_synonym ('w, 'a) go = "'w \<Rightarrow> 'a res \<times> 'w"

text \<open>\<open>AsAppException\<close>: the type assertion \<open>err.(*AppException)\<close>.\<close>

fun AsAppException :: "go_error \<Rightarrow> AppException option" where
  "AsAppException (AppError e) = Some e"
| "AsAppException (OtherError _) = None"
| "AsAppException (Panic _) = None"

text \<open>\<open>AppException.Error\<close>: the message of the error.\<close>

definition AppException_Error :: "AppException \<Rightarrow> string" where
  "AppException_Error e = exc_Code e @ '': '' @ exc_Info e"

definition go_ret :: "'a \<Rightarrow> ('w, 'a) go" where
  "go_ret x w = (Inr x, w)"

definition go_err :: "go_error \<Rightarrow> ('w, 'a) go" where
  "go_err e w = (Inl e, w)"

text \<open>\<open>x, err := m(); if err != nil { return ..., err }\<close> and then \<open>k\<close>.\<close>

definition go_bind :: "('w, 'a) go \<Rightarrow> ('a \<Rightarrow> ('w, 'b) go) \<Rightarrow> ('w, 'b) go" where
  "go_bind m k w = (case m w of (Inl e, w') \<Rightarrow> (Inl e, w') | (Inr x, w') \<Rightarrow> k x w')"

text \<open>\<open>_ = m()\<close>: the error value is discarded, a panic is not.\<close>

definition go_ignore :: "('w, 'a) go \<Rightarrow> ('w, unit) go" where
  "go_ignore m w =
     (case m w of
        (Inl (Panic p), w') \<Rightarrow> (Inl (Panic p), w')
      | (_, w') \<Rightarrow> (Inr (), w'))"

lemma go_ret_apply [go_simps, simp]: "go_ret x w = (Inr x, w)"
  by (simp add: go_ret_def)

lemma go_err_apply [go_simps, simp]: "go_err e w = (Inl e, w)"
  by (simp add: go_err_def)

lemma go_bind_Inr [go_simps]: "m w = (Inr x, w') \<Longrightarrow> go_bind m k w = k x w'"
  by (simp add: go_bind_def)

lemma go_bind_Inl [go_simps]: "m w = (Inl e, w') \<Longrightarrow> go_bind m k w = (Inl e, w')"
  by (simp add: go_bind_def)

lemma go_bind_ret [go_simps, simp]: "go_bind (go_ret x) k w = k x w"
  by (simp add: go_bind_def)

lemma go_bind_err [go_simps, simp]: "go_bind (go_err e) k w = (Inl e, w)"
  by (simp add: go_bind_def)

lemma go_bind_cases:
  assumes "go_bind m k w = (r, w'')"
  obtains (fails) e where "m w = (Inl e, w'')" and "r = Inl e"
  | (goes_on) x w' where "m w = (Inr x, w')" and "k x w' = (r, w'')"
  using assms by (auto simp: go_bind_def split: prod.splits sum.splits)

lemma go_bind_Inr_cases:
  assumes "go_bind m k w = (Inr y, w'')"
  obtains x w' where "m w = (Inr x, w')" and "k x w' = (Inr y, w'')"
  using assms by (auto simp: go_bind_def split: prod.splits sum.splits)

text \<open>A call that only reads, and a call that cannot panic.\<close>

definition reads :: "('w, 'a) go \<Rightarrow> bool" where
  "reads m \<longleftrightarrow> (\<forall>w. snd (m w) = w)"

definition no_panic :: "('w, 'a) go \<Rightarrow> bool" where
  "no_panic m \<longleftrightarrow> (\<forall>w p. fst (m w) \<noteq> Inl (Panic p))"

lemma readsD: "reads m \<Longrightarrow> m w = (r, w') \<Longrightarrow> w' = w"
  unfolding reads_def by (metis snd_conv)

text \<open>A step that starts with a call that only reads fails, or goes on, where it stands.\<close>

lemma go_read_cases:
  assumes "go_bind m k w = (r, w'')" and "reads m"
  obtains (fails) e where "m w = (Inl e, w)" "r = Inl e" "w'' = w"
  | (goes_on) x where "m w = (Inr x, w)" "k x w = (r, w'')"
  using assms(1)
proof (cases rule: go_bind_cases)
  case (fails e)
  with readsD [OF assms(2) fails(1)] show ?thesis by (intro that(1)) simp_all
next
  case (goes_on x w1)
  with readsD [OF assms(2) goes_on(1)] show ?thesis by (intro that(2)) simp_all
qed

lemma no_panicD: "no_panic m \<Longrightarrow> m w = (Inl (Panic p), w') \<Longrightarrow> False"
  unfolding no_panic_def by (metis fst_conv)

lemma reads_ret [go_frames]: "reads (go_ret x)"
  by (simp add: reads_def)

lemma reads_err [go_frames]: "reads (go_err e)"
  by (simp add: reads_def)

lemma reads_bind [go_frames]:
  assumes "reads m" and "\<And>x. reads (k x)" shows "reads (go_bind m k)"
  unfolding reads_def
proof
  fix w
  obtain r w' where m: "m w = (r, w')" by force
  with readsD [OF assms(1)] have "w' = w" by blast
  with m assms(2) show "snd (go_bind m k w) = w"
    by (cases r) (simp_all add: go_bind_def reads_def)
qed

lemma no_panic_ret [go_frames]: "no_panic (go_ret x)"
  by (simp add: no_panic_def)

lemma no_panic_err [go_frames]: "(\<And>p. e \<noteq> Panic p) \<Longrightarrow> no_panic (go_err e)"
  by (simp add: no_panic_def)

lemma no_panic_bind [go_frames]:
  assumes "no_panic m" and "\<And>x. no_panic (k x)" shows "no_panic (go_bind m k)"
  unfolding no_panic_def
proof (intro allI)
  fix w p
  obtain r w' where m: "m w = (r, w')" by force
  show "fst (go_bind m k w) \<noteq> Inl (Panic p)"
  proof (cases r)
    case (Inl e)
    with m no_panicD [OF assms(1), of w p w'] show ?thesis by (auto simp: go_bind_def)
  next
    case (Inr x)
    with m assms(2) [of x] show ?thesis by (simp add: go_bind_def no_panic_def)
  qed
qed

section \<open>Strings\<close>

text \<open>Go's \<open>strings.Split\<close> with a one-byte separator: n separators give n + 1 parts.\<close>

fun splitOn :: "char \<Rightarrow> string \<Rightarrow> string list" where
  "splitOn c [] = [[]]"
| "splitOn c (x # xs) =
     (if x = c then [] # splitOn c xs
      else (case splitOn c xs of [] \<Rightarrow> [[x]] | p # ps \<Rightarrow> (x # p) # ps))"

text \<open>Go's \<open>strings.TrimSpace\<close> on the ASCII white space bytes.\<close>

definition isSpaceByte :: "char \<Rightarrow> bool" where
  "isSpaceByte c \<longleftrightarrow> c \<in> {CHR '' '', CHR 0x09, CHR 0x0A, CHR 0x0B, CHR 0x0C, CHR 0x0D}"

definition TrimSpace :: "string \<Rightarrow> string" where
  "TrimSpace s = rev (dropWhile isSpaceByte (rev (dropWhile isSpaceByte s)))"

lemma splitOn_nonempty [simp]: "splitOn c s \<noteq> []"
  by (induction s) (auto split: list.splits)

lemma splitOn_no_sep [simp]: "c \<notin> set s \<Longrightarrow> splitOn c s = [s]"
  by (induction s) auto

lemma splitOn_append:
  "c \<notin> set s \<Longrightarrow> splitOn c (s @ c # t) = s # splitOn c t"
  by (induction s) auto

lemma splitOn_parts_no_sep: "p \<in> set (splitOn c s) \<Longrightarrow> c \<notin> set p"
  by (induction s arbitrary: p) (auto split: if_splits list.splits)

lemma length_splitOn: "length (splitOn c s) = Suc (count_list s c)"
  by (induction s) (auto split: list.splits)

lemma TrimSpace_id: "\<forall>c \<in> set s. \<not> isSpaceByte c \<Longrightarrow> TrimSpace s = s"
proof -
  assume a: "\<forall>c \<in> set s. \<not> isSpaceByte c"
  have drop: "dropWhile isSpaceByte t = t" if "\<forall>c \<in> set t. \<not> isSpaceByte c" for t
    using that by (cases t) auto
  from a show ?thesis by (simp add: TrimSpace_def drop)
qed

section \<open>Numbers in decimal\<close>

text \<open>Go's \<open>%d\<close>: the decimal digits of a number, with a minus sign when it is negative.\<close>

definition digit :: "nat \<Rightarrow> char" where
  "digit d = ''0123456789'' ! (d mod 10)"

fun showNat :: "nat \<Rightarrow> string" where
  "showNat n = (if n < 10 then [digit n] else showNat (n div 10) @ [digit n])"

declare showNat.simps [simp del]

definition showInt :: "int \<Rightarrow> string" where
  "showInt i = (if i < 0 then ''-'' @ showNat (nat (- i)) else showNat (nat i))"

definition isDigit :: "char \<Rightarrow> bool" where
  "isDigit c \<longleftrightarrow> c \<in> set ''0123456789''"

lemma digit_isDigit [simp]: "isDigit (digit n)"
proof -
  have "n mod 10 < length ''0123456789''" by simp
  then show ?thesis unfolding isDigit_def digit_def by (rule nth_mem)
qed

lemma showNat_digits: "\<forall>c \<in> set (showNat n). isDigit c"
proof (induction n rule: showNat.induct)
  case (1 n)
  then show ?case by (cases "n < 10") (simp_all add: showNat.simps [of n])
qed

lemma showNat_nonempty [simp]: "showNat n \<noteq> []"
  by (simp add: showNat.simps [of n])

lemma isDigit_simps [simp]:
  "\<not> isDigit CHR ''_''" "\<not> isDigit CHR ''-''" "\<not> isDigit CHR '',''" "\<not> isDigit CHR ''r''"
  by (simp_all add: isDigit_def)

lemma digit_inject: "m < 10 \<Longrightarrow> n < 10 \<Longrightarrow> digit m = digit n \<Longrightarrow> m = n"
proof -
  assume mn: "m < 10" "n < 10" "digit m = digit n"
  have "distinct ''0123456789''" by simp
  moreover have "m < length ''0123456789''" "n < length ''0123456789''" using mn by simp_all
  ultimately show ?thesis using mn
    by (metis digit_def mod_less nth_eq_iff_index_eq)
qed

lemma showNat_inject: "showNat m = showNat n \<Longrightarrow> m = n"
proof (induction m arbitrary: n rule: showNat.induct)
  case (1 m)
  have single: "showNat k = [c] \<longleftrightarrow> k < 10 \<and> c = digit k" for k c
    by (auto simp: showNat.simps [of k])
  show ?case
  proof (cases "m < 10 \<or> n < 10")
    case True
    then have "m < 10 \<and> n < 10 \<and> digit m = digit n"
      using "1.prems" single [of m] single [of n] by (auto simp: showNat.simps [of m] showNat.simps [of n])
    then show ?thesis by (blast intro: digit_inject)
  next
    case False
    then have eqs: "showNat (m div 10) = showNat (n div 10)" "digit m = digit n"
      using "1.prems" by (simp_all add: showNat.simps [of m] showNat.simps [of n])
    have "m mod 10 = n mod 10"
      using digit_inject [of "m mod 10" "n mod 10"] eqs(2) by (simp add: digit_def)
    moreover have "m div 10 = n div 10" using "1.IH" [OF _ eqs(1)] False by simp
    ultimately show ?thesis by (metis div_mult_mod_eq)
  qed
qed

lemma showInt_inject: "showInt i = showInt j \<Longrightarrow> i = j"
proof -
  assume eq: "showInt i = showInt j"
  have hd: "showNat k \<noteq> CHR ''-'' # s" for k s
    using showNat_digits [of k] by auto
  show ?thesis
  proof (cases "i < 0"; cases "j < 0")
    assume "i < 0" "j < 0"
    with eq have "showNat (nat (- i)) = showNat (nat (- j))" by (simp add: showInt_def)
    then have "nat (- i) = nat (- j)" by (rule showNat_inject)
    with \<open>i < 0\<close> \<open>j < 0\<close> show ?thesis by simp
  next
    assume "\<not> i < 0" "\<not> j < 0"
    with eq have "showNat (nat i) = showNat (nat j)" by (simp add: showInt_def)
    then have "nat i = nat j" by (rule showNat_inject)
    with \<open>\<not> i < 0\<close> \<open>\<not> j < 0\<close> show ?thesis by simp
  qed (use eq hd in \<open>auto simp: showInt_def\<close>, metis hd)
qed

lemma showInt_chars: "c \<in> set (showInt i) \<Longrightarrow> isDigit c \<or> c = CHR ''-''"
  using showNat_digits by (auto simp: showInt_def split: if_splits)

section \<open>Counting and updating the rows of a table\<close>

definition cnt :: "('a \<Rightarrow> bool) \<Rightarrow> 'a list \<Rightarrow> nat" where
  "cnt P xs = length (filter P xs)"

definition upd_where :: "('a \<Rightarrow> bool) \<Rightarrow> ('a \<Rightarrow> 'a) \<Rightarrow> 'a list \<Rightarrow> 'a list" where
  "upd_where P f xs = map (\<lambda>r. if P r then f r else r) xs"

lemma cnt_Nil [table_simps, simp]: "cnt P [] = 0"
  by (simp add: cnt_def)

lemma cnt_Cons [table_simps, simp]: "cnt P (x # xs) = (if P x then Suc (cnt P xs) else cnt P xs)"
  by (simp add: cnt_def)

lemma cnt_append [table_simps, simp]: "cnt P (xs @ ys) = cnt P xs + cnt P ys"
  by (simp add: cnt_def)

lemma upd_where_Nil [table_simps, simp]: "upd_where P f [] = []"
  by (simp add: upd_where_def)

lemma upd_where_Cons [table_simps, simp]:
  "upd_where P f (x # xs) = (if P x then f x else x) # upd_where P f xs"
  by (simp add: upd_where_def)

lemma upd_where_append [table_simps, simp]:
  "upd_where P f (xs @ ys) = upd_where P f xs @ upd_where P f ys"
  by (simp add: upd_where_def)

lemma length_upd_where [simp]: "length (upd_where P f xs) = length xs"
  by (simp add: upd_where_def)

lemma cnt_cong: "(\<And>x. x \<in> set xs \<Longrightarrow> P x = Q x) \<Longrightarrow> cnt P xs = cnt Q xs"
  unfolding cnt_def by (rule arg_cong [where f = length]) (rule filter_cong, auto)

lemma cnt_upd_where: "cnt Q (upd_where P f xs) = cnt (\<lambda>r. if P r then Q (f r) else Q r) xs"
  by (induction xs) auto

lemma upd_where_none: "(\<And>x. x \<in> set xs \<Longrightarrow> \<not> P x) \<Longrightarrow> upd_where P f xs = xs"
  by (induction xs) auto

lemma cnt_mono: "(\<And>x. P x \<Longrightarrow> Q x) \<Longrightarrow> cnt P xs \<le> cnt Q xs"
  by (induction xs) auto

lemma cnt_0_iff: "cnt P xs = 0 \<longleftrightarrow> (\<forall>x \<in> set xs. \<not> P x)"
  by (induction xs) auto

lemma cnt_pos_iff: "0 < cnt P xs \<longleftrightarrow> (\<exists>x \<in> set xs. P x)"
  by (induction xs) auto

lemma cnt_without:
  "distinct (map k xs) \<Longrightarrow> x \<in> set xs \<Longrightarrow>
   cnt (\<lambda>y. Q y \<and> k y \<noteq> k x) xs + (if Q x then 1 else 0) = cnt Q xs"
proof (induction xs)
  case (Cons y ys)
  show ?case
  proof (cases "x = y")
    case True
    have "k z \<noteq> k x" if "z \<in> set ys" for z
      using Cons.prems(1) that True by (metis distinct.simps(2) image_eqI list.simps(9) set_map)
    then have "cnt (\<lambda>z. Q z \<and> k z \<noteq> k x) ys = cnt Q ys" by (intro cnt_cong) simp
    with True show ?thesis by simp
  next
    case False
    with Cons.prems have "k y \<noteq> k x" "x \<in> set ys" by auto
    with Cons show ?thesis by auto
  qed
qed simp

lemma map_upd_where_key [simp]: "(\<And>r. k (f r) = k r) \<Longrightarrow> map k (upd_where P f xs) = map k xs"
  by (induction xs) auto

text \<open>A statement that hits one row: the row, and the rows around it, which it leaves alone.\<close>

lemma cnt_oneE:
  assumes "cnt P xs = 1"
  obtains as r bs where "xs = as @ r # bs" and "P r"
    and "\<forall>x \<in> set as. \<not> P x" and "\<forall>x \<in> set bs. \<not> P x"
  using assms
proof (induction xs arbitrary: thesis)
  case Nil
  then show ?case by simp
next
  case (Cons y ys)
  show ?case
  proof (cases "P y")
    case True
    with Cons.prems(2) have "cnt P ys = 0" by simp
    then show ?thesis using Cons.prems(1) [of "[]" y ys] True by (auto simp: cnt_0_iff)
  next
    case False
    with Cons.prems(2) have "cnt P ys = 1" by simp
    then obtain as r bs where "ys = as @ r # bs" "P r"
      "\<forall>x \<in> set as. \<not> P x" "\<forall>x \<in> set bs. \<not> P x"
      by (rule Cons.IH [rotated]) blast
    with False show ?thesis using Cons.prems(1) [of "y # as" r bs] by auto
  qed
qed

text \<open>An update that hits one row changes a count by what it does to that row.\<close>

lemma cnt_upd_one:
  assumes "cnt P xs = 1"
  obtains r where "r \<in> set xs" and "P r"
    and "\<And>Q. int (cnt Q (upd_where P f xs)) =
              int (cnt Q xs) - (if Q r then 1 else 0) + (if Q (f r) then 1 else 0)"
proof -
  from assms obtain as r bs where xs: "xs = as @ r # bs" "P r"
    and "\<forall>x \<in> set as. \<not> P x" "\<forall>x \<in> set bs. \<not> P x"
    by (rule cnt_oneE)
  then have "upd_where P f as = as" "upd_where P f bs = bs"
    by (simp_all add: upd_where_none)
  with xs show ?thesis by (intro that [of r]) auto
qed

lemma set_upd_whereE:
  assumes "y \<in> set (upd_where P f xs)"
  obtains (hit) x where "x \<in> set xs" "P x" "y = f x"
  | (miss) "y \<in> set xs" "\<not> P y"
  using assms by (auto simp: upd_where_def split: if_splits)

lemma filter_key_unique:
  assumes "distinct (map k xs)" and "x \<in> set xs" and "y \<in> set xs" and "k x = k y"
  shows "x = y"
  using assms by (simp add: distinct_map inj_on_def)

lemma cnt_key_le_1: "distinct (map k xs) \<Longrightarrow> cnt (\<lambda>r. k r = a) xs \<le> 1"
proof (induction xs)
  case (Cons x xs)
  have "cnt (\<lambda>r. k r = a) xs = 0" if "k x = a"
    using Cons.prems that by (auto simp: cnt_0_iff image_iff)
  with Cons show ?case by auto
qed simp

section \<open>A table over time\<close>

text \<open>
  A table whose rows only change by \<open>R\<close>, none is removed, and what is added satisfies \<open>new\<close>.
\<close>

definition rows_adv :: "('r \<Rightarrow> 'r \<Rightarrow> bool) \<Rightarrow> ('r \<Rightarrow> bool) \<Rightarrow> 'r list \<Rightarrow> 'r list \<Rightarrow> bool" where
  "rows_adv R new xs ys \<longleftrightarrow> (\<exists>ms ns. ys = ms @ ns \<and> list_all2 R xs ms \<and> list_all new ns)"

lemma rows_adv_append:
  assumes "\<And>x. R x x" and "list_all new ns"
  shows "rows_adv R new xs (xs @ ns)"
  unfolding rows_adv_def using assms by (intro exI [of _ xs] exI [of _ ns]) (simp add: list_all2_refl)

lemma rows_adv_refl: "(\<And>x. R x x) \<Longrightarrow> rows_adv R new xs xs"
  using rows_adv_append [of R new "[]" xs] by simp

lemma rows_adv_upd:
  assumes "\<And>x. R x x" and "\<And>x. x \<in> set xs \<Longrightarrow> P x \<Longrightarrow> R x (f x)"
  shows "rows_adv R new xs (upd_where P f xs)"
proof -
  have "list_all2 R xs (upd_where P f xs)"
    using assms by (simp add: upd_where_def list_all2_conv_all_nth)
  then show ?thesis unfolding rows_adv_def by (intro exI [of _ "upd_where P f xs"] exI [of _ "[]"]) simp
qed

lemma rows_adv_trans:
  assumes "rows_adv R new xs ys" and "rows_adv R new ys zs"
    and trans: "\<And>x y z. R x y \<Longrightarrow> R y z \<Longrightarrow> R x z" and new: "\<And>x y. new x \<Longrightarrow> R x y \<Longrightarrow> new y"
  shows "rows_adv R new xs zs"
proof -
  from assms(1) obtain ms ns where ms: "ys = ms @ ns" "list_all2 R xs ms" "list_all new ns"
    unfolding rows_adv_def by blast
  from assms(2) obtain ks js where ks: "zs = ks @ js" "list_all2 R ys ks" "list_all new js"
    unfolding rows_adv_def by blast
  from ks(2) ms(1) obtain k1 k2 where k: "ks = k1 @ k2" "list_all2 R ms k1" "list_all2 R ns k2"
    by (auto simp: list_all2_append1)
  have "list_all2 R xs k1" using list_all2_trans [of R R R] trans ms(2) k(2) by blast
  moreover have "list_all new k2"
    using k(3) ms(3) new by (auto simp: list_all2_conv_all_nth list_all_length)
  ultimately show ?thesis
    unfolding rows_adv_def using ks(1,3) k(1) by (intro exI [of _ k1] exI [of _ "k2 @ js"]) simp
qed

lemma rows_adv_row:
  assumes "rows_adv R new xs ys" and "x \<in> set xs"
  obtains y where "y \<in> set ys" "R x y"
proof -
  from assms(1) obtain ms ns where "ys = ms @ ns" "list_all2 R xs ms" unfolding rows_adv_def by blast
  moreover from assms(2) obtain i where "i < length xs" "xs ! i = x" by (metis in_set_conv_nth)
  ultimately show ?thesis by (intro that [of "ms ! i"]) (auto simp: list_all2_conv_all_nth)
qed

lemma rows_adv_new: "rows_adv R new [] ys \<Longrightarrow> y \<in> set ys \<Longrightarrow> new y"
  by (auto simp: rows_adv_def list_all_iff)

end
