(* ===== verification/Response_Codes.thy ===== *)
theory Response_Codes
  imports Prelude
begin

text \<open>
  The response codes of \<open>internal/types/enums/response_code.go\<close>, the construction of business
  errors from them (\<open>internal/types/exception\<close>) and the response envelope of
  \<open>internal/api/response\<close>. The \<open>Info\<close> texts are the UTF-8 bytes of the source's literals.
\<close>

record ResponseCode =
  rsc_Code :: string
  rsc_Info :: string

definition SUCCESS :: ResponseCode where
  "SUCCESS = \<lparr>rsc_Code = ''0000'', rsc_Info =
    [CHR 0xE6, CHR 0x88, CHR 0x90, CHR 0xE5, CHR 0x8A, CHR 0x9F]\<rparr>"

definition UN_ERROR :: ResponseCode where
  "UN_ERROR = \<lparr>rsc_Code = ''0001'', rsc_Info =
    [CHR 0xE6, CHR 0x9C, CHR 0xAA, CHR 0xE7, CHR 0x9F, CHR 0xA5, CHR 0xE5, CHR 0xA4, CHR 0xB1,
    CHR 0xE8, CHR 0xB4, CHR 0xA5]\<rparr>"

definition ILLEGAL_PARAMETER :: ResponseCode where
  "ILLEGAL_PARAMETER = \<lparr>rsc_Code = ''0002'', rsc_Info =
    [CHR 0xE9, CHR 0x9D, CHR 0x9E, CHR 0xE6, CHR 0xB3, CHR 0x95, CHR 0xE5, CHR 0x8F, CHR 0x82,
    CHR 0xE6, CHR 0x95, CHR 0xB0]\<rparr>"

definition INDEX_EXCEPTION :: ResponseCode where
  "INDEX_EXCEPTION = \<lparr>rsc_Code = ''0003'', rsc_Info =
    [CHR 0xE5, CHR 0x94, CHR 0xAF, CHR 0xE4, CHR 0xB8, CHR 0x80, CHR 0xE7, CHR 0xB4, CHR 0xA2,
    CHR 0xE5, CHR 0xBC, CHR 0x95, CHR 0xE5, CHR 0x86, CHR 0xB2, CHR 0xE7, CHR 0xAA, CHR 0x81]\<rparr>"

definition UPDATE_ZERO :: ResponseCode where
  "UPDATE_ZERO = \<lparr>rsc_Code = ''0004'', rsc_Info =
    [CHR 0xE6, CHR 0x9B, CHR 0xB4, CHR 0xE6, CHR 0x96, CHR 0xB0, CHR 0xE8, CHR 0xAE, CHR 0xB0,
    CHR 0xE5, CHR 0xBD, CHR 0x95, CHR 0xE4, CHR 0xB8, CHR 0xBA] @ ''0''\<rparr>"

definition HTTP_EXCEPTION :: ResponseCode where
  "HTTP_EXCEPTION = \<lparr>rsc_Code = ''0005'', rsc_Info =
    ''HTTP'' @ [CHR 0xE6, CHR 0x8E, CHR 0xA5, CHR 0xE5, CHR 0x8F, CHR 0xA3, CHR 0xE8, CHR 0xB0,
    CHR 0x83, CHR 0xE7, CHR 0x94, CHR 0xA8, CHR 0xE5, CHR 0xBC, CHR 0x82, CHR 0xE5, CHR 0xB8,
    CHR 0xB8]\<rparr>"

definition RATE_LIMITER :: ResponseCode where
  "RATE_LIMITER = \<lparr>rsc_Code = ''0006'', rsc_Info =
    [CHR 0xE6, CHR 0x8E, CHR 0xA5, CHR 0xE5, CHR 0x8F, CHR 0xA3, CHR 0xE9, CHR 0x99, CHR 0x90,
    CHR 0xE6, CHR 0xB5, CHR 0x81]\<rparr>"

definition E0001 :: ResponseCode where
  "E0001 = \<lparr>rsc_Code = ''E0001'', rsc_Info =
    [CHR 0xE4, CHR 0xB8, CHR 0x8D, CHR 0xE5, CHR 0xAD, CHR 0x98, CHR 0xE5, CHR 0x9C, CHR 0xA8,
    CHR 0xE5, CHR 0xAF, CHR 0xB9, CHR 0xE5, CHR 0xBA, CHR 0x94, CHR 0xE7, CHR 0x9A, CHR 0x84,
    CHR 0xE6, CHR 0x8A, CHR 0x98, CHR 0xE6, CHR 0x89, CHR 0xA3, CHR 0xE8, CHR 0xAE, CHR 0xA1,
    CHR 0xE7, CHR 0xAE, CHR 0x97, CHR 0xE6, CHR 0x9C, CHR 0x8D, CHR 0xE5, CHR 0x8A, CHR 0xA1]\<rparr>"

definition E0002 :: ResponseCode where
  "E0002 = \<lparr>rsc_Code = ''E0002'', rsc_Info =
    [CHR 0xE6, CHR 0x97, CHR 0xA0, CHR 0xE6, CHR 0x8B, CHR 0xBC, CHR 0xE5, CHR 0x9B, CHR 0xA2,
    CHR 0xE8, CHR 0x90, CHR 0xA5, CHR 0xE9, CHR 0x94, CHR 0x80, CHR 0xE9, CHR 0x85, CHR 0x8D,
    CHR 0xE7, CHR 0xBD, CHR 0xAE]\<rparr>"

definition E0003 :: ResponseCode where
  "E0003 = \<lparr>rsc_Code = ''E0003'', rsc_Info =
    [CHR 0xE6, CHR 0x8B, CHR 0xBC, CHR 0xE5, CHR 0x9B, CHR 0xA2, CHR 0xE6, CHR 0xB4, CHR 0xBB,
    CHR 0xE5, CHR 0x8A, CHR 0xA8, CHR 0xE9, CHR 0x99, CHR 0x8D, CHR 0xE7, CHR 0xBA, CHR 0xA7,
    CHR 0xE6, CHR 0x8B, CHR 0xA6, CHR 0xE6, CHR 0x88, CHR 0xAA]\<rparr>"

definition E0004 :: ResponseCode where
  "E0004 = \<lparr>rsc_Code = ''E0004'', rsc_Info =
    [CHR 0xE6, CHR 0x8B, CHR 0xBC, CHR 0xE5, CHR 0x9B, CHR 0xA2, CHR 0xE6, CHR 0xB4, CHR 0xBB,
    CHR 0xE5, CHR 0x8A, CHR 0xA8, CHR 0xE5, CHR 0x88, CHR 0x87, CHR 0xE9, CHR 0x87, CHR 0x8F,
    CHR 0xE6, CHR 0x8B, CHR 0xA6, CHR 0xE6, CHR 0x88, CHR 0xAA]\<rparr>"

definition E0005 :: ResponseCode where
  "E0005 = \<lparr>rsc_Code = ''E0005'', rsc_Info =
    [CHR 0xE6, CHR 0x8B, CHR 0xBC, CHR 0xE5, CHR 0x9B, CHR 0xA2, CHR 0xE7, CHR 0xBB, CHR 0x84,
    CHR 0xE9, CHR 0x98, CHR 0x9F, CHR 0xE5, CHR 0xA4, CHR 0xB1, CHR 0xE8, CHR 0xB4, CHR 0xA5,
    CHR 0xEF, CHR 0xBC, CHR 0x8C, CHR 0xE8, CHR 0xAE, CHR 0xB0, CHR 0xE5, CHR 0xBD, CHR 0x95,
    CHR 0xE6, CHR 0x9B, CHR 0xB4, CHR 0xE6, CHR 0x96, CHR 0xB0, CHR 0xE4, CHR 0xB8, CHR 0xBA] @
    ''0''\<rparr>"

definition E0006 :: ResponseCode where
  "E0006 = \<lparr>rsc_Code = ''E0006'', rsc_Info =
    [CHR 0xE6, CHR 0x8B, CHR 0xBC, CHR 0xE5, CHR 0x9B, CHR 0xA2, CHR 0xE7, CHR 0xBB, CHR 0x84,
    CHR 0xE9, CHR 0x98, CHR 0x9F, CHR 0xE5, CHR 0xAE, CHR 0x8C, CHR 0xE7, CHR 0xBB, CHR 0x93,
    CHR 0xEF, CHR 0xBC, CHR 0x8C, CHR 0xE9, CHR 0x94, CHR 0x81, CHR 0xE5, CHR 0x8D, CHR 0x95,
    CHR 0xE9, CHR 0x87, CHR 0x8F, CHR 0xE5, CHR 0xB7, CHR 0xB2, CHR 0xE8, CHR 0xBE, CHR 0xBE,
    CHR 0xE6, CHR 0x88, CHR 0x90]\<rparr>"

definition E0007 :: ResponseCode where
  "E0007 = \<lparr>rsc_Code = ''E0007'', rsc_Info =
    [CHR 0xE6, CHR 0x8B, CHR 0xBC, CHR 0xE5, CHR 0x9B, CHR 0xA2, CHR 0xE4, CHR 0xBA, CHR 0xBA,
    CHR 0xE7, CHR 0xBE, CHR 0xA4, CHR 0xE9, CHR 0x99, CHR 0x90, CHR 0xE5, CHR 0xAE, CHR 0x9A,
    CHR 0xEF, CHR 0xBC, CHR 0x8C, CHR 0xE4, CHR 0xB8, CHR 0x8D, CHR 0xE5, CHR 0x8F, CHR 0xAF,
    CHR 0xE5, CHR 0x8F, CHR 0x82, CHR 0xE4, CHR 0xB8, CHR 0x8E]\<rparr>"

definition E0008 :: ResponseCode where
  "E0008 = \<lparr>rsc_Code = ''E0008'', rsc_Info =
    [CHR 0xE6, CHR 0x8B, CHR 0xBC, CHR 0xE5, CHR 0x9B, CHR 0xA2, CHR 0xE7, CHR 0xBB, CHR 0x84,
    CHR 0xE9, CHR 0x98, CHR 0x9F, CHR 0xE5, CHR 0xA4, CHR 0xB1, CHR 0xE8, CHR 0xB4, CHR 0xA5,
    CHR 0xEF, CHR 0xBC, CHR 0x8C, CHR 0xE7, CHR 0xBC, CHR 0x93, CHR 0xE5, CHR 0xAD, CHR 0x98,
    CHR 0xE5, CHR 0xBA, CHR 0x93, CHR 0xE5, CHR 0xAD, CHR 0x98, CHR 0xE4, CHR 0xB8, CHR 0x8D,
    CHR 0xE8, CHR 0xB6, CHR 0xB3]\<rparr>"

definition E0101 :: ResponseCode where
  "E0101 = \<lparr>rsc_Code = ''E0101'', rsc_Info =
    [CHR 0xE6, CHR 0x8B, CHR 0xBC, CHR 0xE5, CHR 0x9B, CHR 0xA2, CHR 0xE6, CHR 0xB4, CHR 0xBB,
    CHR 0xE5, CHR 0x8A, CHR 0xA8, CHR 0xE6, CHR 0x9C, CHR 0xAA, CHR 0xE7, CHR 0x94, CHR 0x9F,
    CHR 0xE6, CHR 0x95, CHR 0x88]\<rparr>"

definition E0102 :: ResponseCode where
  "E0102 = \<lparr>rsc_Code = ''E0102'', rsc_Info =
    [CHR 0xE4, CHR 0xB8, CHR 0x8D, CHR 0xE5, CHR 0x9C, CHR 0xA8, CHR 0xE6, CHR 0x8B, CHR 0xBC,
    CHR 0xE5, CHR 0x9B, CHR 0xA2, CHR 0xE6, CHR 0xB4, CHR 0xBB, CHR 0xE5, CHR 0x8A, CHR 0xA8,
    CHR 0xE6, CHR 0x9C, CHR 0x89, CHR 0xE6, CHR 0x95, CHR 0x88, CHR 0xE6, CHR 0x97, CHR 0xB6,
    CHR 0xE9, CHR 0x97, CHR 0xB4, CHR 0xE5, CHR 0x86, CHR 0x85]\<rparr>"

definition E0103 :: ResponseCode where
  "E0103 = \<lparr>rsc_Code = ''E0103'', rsc_Info =
    [CHR 0xE5, CHR 0xBD, CHR 0x93, CHR 0xE5, CHR 0x89, CHR 0x8D, CHR 0xE7, CHR 0x94, CHR 0xA8,
    CHR 0xE6, CHR 0x88, CHR 0xB7, CHR 0xE5, CHR 0x8F, CHR 0x82, CHR 0xE4, CHR 0xB8, CHR 0x8E,
    CHR 0xE6, CHR 0xAD, CHR 0xA4, CHR 0xE6, CHR 0x8B, CHR 0xBC, CHR 0xE5, CHR 0x9B, CHR 0xA2,
    CHR 0xE6, CHR 0xAC, CHR 0xA1, CHR 0xE6, CHR 0x95, CHR 0xB0, CHR 0xE5, CHR 0xB7, CHR 0xB2,
    CHR 0xE8, CHR 0xBE, CHR 0xBE, CHR 0xE4, CHR 0xB8, CHR 0x8A, CHR 0xE9, CHR 0x99, CHR 0x90]\<rparr>"

definition E0104 :: ResponseCode where
  "E0104 = \<lparr>rsc_Code = ''E0104'', rsc_Info =
    [CHR 0xE4, CHR 0xB8, CHR 0x8D, CHR 0xE5, CHR 0xAD, CHR 0x98, CHR 0xE5, CHR 0x9C, CHR 0xA8,
    CHR 0xE7, CHR 0x9A, CHR 0x84, CHR 0xE5, CHR 0xA4, CHR 0x96, CHR 0xE9, CHR 0x83, CHR 0xA8,
    CHR 0xE4, CHR 0xBA, CHR 0xA4, CHR 0xE6, CHR 0x98, CHR 0x93, CHR 0xE5, CHR 0x8D, CHR 0x95,
    CHR 0xE5, CHR 0x8F, CHR 0xB7, CHR 0xE6, CHR 0x88, CHR 0x96, CHR 0xE7, CHR 0x94, CHR 0xA8,
    CHR 0xE6, CHR 0x88, CHR 0xB7, CHR 0xE5, CHR 0xB7, CHR 0xB2, CHR 0xE9, CHR 0x80, CHR 0x80,
    CHR 0xE5, CHR 0x8D, CHR 0x95]\<rparr>"

definition E0105 :: ResponseCode where
  "E0105 = \<lparr>rsc_Code = ''E0105'', rsc_Info =
    ''SC'' @ [CHR 0xE6, CHR 0xB8, CHR 0xA0, CHR 0xE9, CHR 0x81, CHR 0x93, CHR 0xE9, CHR 0xBB,
    CHR 0x91, CHR 0xE5, CHR 0x90, CHR 0x8D, CHR 0xE5, CHR 0x8D, CHR 0x95, CHR 0xE6, CHR 0x8B,
    CHR 0xA6, CHR 0xE6, CHR 0x88, CHR 0xAA]\<rparr>"

definition E0106 :: ResponseCode where
  "E0106 = \<lparr>rsc_Code = ''E0106'', rsc_Info =
    [CHR 0xE8, CHR 0xAE, CHR 0xA2, CHR 0xE5, CHR 0x8D, CHR 0x95, CHR 0xE4, CHR 0xBA, CHR 0xA4,
    CHR 0xE6, CHR 0x98, CHR 0x93, CHR 0xE6, CHR 0x97, CHR 0xB6, CHR 0xE9, CHR 0x97, CHR 0xB4,
    CHR 0xE4, CHR 0xB8, CHR 0x8D, CHR 0xE5, CHR 0x9C, CHR 0xA8, CHR 0xE6, CHR 0x8B, CHR 0xBC,
    CHR 0xE5, CHR 0x9B, CHR 0xA2, CHR 0xE6, CHR 0x9C, CHR 0x89, CHR 0xE6, CHR 0x95, CHR 0x88,
    CHR 0xE6, CHR 0x97, CHR 0xB6, CHR 0xE9, CHR 0x97, CHR 0xB4, CHR 0xE8, CHR 0x8C, CHR 0x83,
    CHR 0xE5, CHR 0x9B, CHR 0xB4, CHR 0xE5, CHR 0x86, CHR 0x85]\<rparr>"

definition NewAppException :: "ResponseCode \<Rightarrow> go_error" where
  "NewAppException rc = AppError \<lparr>exc_Code = rsc_Code rc, exc_Info = rsc_Info rc\<rparr>"

definition NewAppExceptionMsg :: "string \<Rightarrow> string \<Rightarrow> go_error" where
  "NewAppExceptionMsg code info = AppError \<lparr>exc_Code = code, exc_Info = info\<rparr>"

section \<open>The response envelope\<close>

record 'a Response =
  rsp_Code :: string
  rsp_Info :: string
  rsp_Data :: 'a

definition Success :: "'a \<Rightarrow> 'a Response" where
  "Success d = \<lparr>rsp_Code = ''0000'', rsp_Info =
    [CHR 0xE6, CHR 0x88, CHR 0x90, CHR 0xE5, CHR 0x8A, CHR 0x9F],
     rsp_Data = d\<rparr>"

text \<open>\<open>Fail[T]\<close> leaves \<open>Data\<close> at the zero value of \<open>T\<close>, which the caller's type fixes.\<close>

definition FailR :: "'a \<Rightarrow> string \<Rightarrow> string \<Rightarrow> 'a Response" where
  "FailR zero code info = \<lparr>rsp_Code = code, rsp_Info = info, rsp_Data = zero\<rparr>"

section \<open>Telling codes apart\<close>

text \<open>The code of an error, the one field two business errors are told apart by.\<close>

fun errCode :: "go_error \<Rightarrow> string option" where
  "errCode (AppError e) = Some (exc_Code e)"
| "errCode (OtherError _) = None"
| "errCode (Panic _) = None"

lemma errCode_NewAppException [simp]: "errCode (NewAppException rc) = Some (rsc_Code rc)"
  by (simp add: NewAppException_def)

lemma NewAppException_not_other [simp]:
  "NewAppException rc \<noteq> OtherError m" "NewAppException rc \<noteq> Panic m"
  "OtherError m \<noteq> NewAppException rc" "Panic m \<noteq> NewAppException rc"
  by (simp_all add: NewAppException_def)

lemma AsAppException_NewAppException [simp]:
  "AsAppException (NewAppException rc) = Some \<lparr>exc_Code = rsc_Code rc, exc_Info = rsc_Info rc\<rparr>"
  by (simp add: NewAppException_def)

lemma NewAppException_code_neq [simp]:
  "rsc_Code a \<noteq> rsc_Code b \<Longrightarrow> NewAppException a \<noteq> NewAppException b"
  by (simp add: NewAppException_def)

lemma rsc_Code_simps [simp]:
  "rsc_Code SUCCESS = ''0000''"
  "rsc_Code UN_ERROR = ''0001''"
  "rsc_Code ILLEGAL_PARAMETER = ''0002''"
  "rsc_Code INDEX_EXCEPTION = ''0003''"
  "rsc_Code UPDATE_ZERO = ''0004''"
  "rsc_Code HTTP_EXCEPTION = ''0005''"
  "rsc_Code RATE_LIMITER = ''0006''"
  "rsc_Code E0001 = ''E0001''"
  "rsc_Code E0002 = ''E0002''"
  "rsc_Code E0003 = ''E0003''"
  "rsc_Code E0004 = ''E0004''"
  "rsc_Code E0005 = ''E0005''"
  "rsc_Code E0006 = ''E0006''"
  "rsc_Code E0007 = ''E0007''"
  "rsc_Code E0008 = ''E0008''"
  "rsc_Code E0101 = ''E0101''"
  "rsc_Code E0102 = ''E0102''"
  "rsc_Code E0103 = ''E0103''"
  "rsc_Code E0104 = ''E0104''"
  "rsc_Code E0105 = ''E0105''"
  "rsc_Code E0106 = ''E0106''"
  by (simp_all add: SUCCESS_def UN_ERROR_def ILLEGAL_PARAMETER_def INDEX_EXCEPTION_def UPDATE_ZERO_def
    HTTP_EXCEPTION_def RATE_LIMITER_def E0001_def E0002_def E0003_def E0004_def E0005_def
    E0006_def E0007_def E0008_def E0101_def E0102_def E0103_def E0104_def E0105_def E0106_def)

lemmas response_code_defs =
  SUCCESS_def UN_ERROR_def ILLEGAL_PARAMETER_def INDEX_EXCEPTION_def UPDATE_ZERO_def
  HTTP_EXCEPTION_def RATE_LIMITER_def E0001_def E0002_def E0003_def E0004_def E0005_def
  E0006_def E0007_def E0008_def E0101_def E0102_def E0103_def E0104_def E0105_def E0106_def

end
