(* ===== verification/Trade_Model.thy ===== *)
theory Trade_Model
  imports Response_Codes "HOL-Library.Word"
begin

text \<open>
  The value objects, entities and aggregates of the trade context
  (\<open>internal/domain/trade/model\<close>), with the enumerations of \<open>internal/types/enums\<close> and the
  constants of \<open>internal/types/common\<close> they use.

  Times are nanoseconds counted from the zero \<open>time.Time\<close>, kept exact (the database's \<open>datetime\<close>
  columns round them); a duration is assumed not to overflow \<open>time.Duration\<close>; a Go \<open>int64\<close> identifier is a 64-bit word; a Go \<open>int\<close> used as a count or a
  status is an \<open>int\<close> (a status read from the database may be any number, as the code's casts
  allow); a pointer that may be nil is an \<open>option\<close>. A \<open>decimal.Decimal\<close> is the pair its
  documentation gives, \<open>coef * 10 ^ exp\<close>. The JSON text of a task is represented by the document
  it denotes.
\<close>

type_synonym time = int
type_synonym int64 = "64 word"

definition minute :: time where [simp]: "minute = 60000000000"

datatype decimal = Decimal (d_coef: int) (d_exp: int)

datatype json = JNull | JStr string | JNum int | JArr "json list" | JObj "(string \<times> json) list"

section \<open>Enumerations and constants\<close>

type_synonym GroupBuyOrderStatus = int

definition GroupBuyProgress :: GroupBuyOrderStatus where [simp]: "GroupBuyProgress = 0"
definition GroupBuyComplete :: GroupBuyOrderStatus where [simp]: "GroupBuyComplete = 1"
definition GroupBuyFail :: GroupBuyOrderStatus where [simp]: "GroupBuyFail = 2"
definition GroupBuyCompleteFail :: GroupBuyOrderStatus where [simp]: "GroupBuyCompleteFail = 3"

type_synonym ActivityStatus = int

definition ActivityCreate :: ActivityStatus where [simp]: "ActivityCreate = 0"
definition ActivityEffective :: ActivityStatus where [simp]: "ActivityEffective = 1"
definition ActivityExpire :: ActivityStatus where [simp]: "ActivityExpire = 2"
definition ActivityAbandon :: ActivityStatus where [simp]: "ActivityAbandon = 3"

type_synonym TradeOrderStatus = int

definition TradeOrderCreate :: TradeOrderStatus where [simp]: "TradeOrderCreate = 0"
definition TradeOrderComplete :: TradeOrderStatus where [simp]: "TradeOrderComplete = 1"
definition TradeOrderClose :: TradeOrderStatus where [simp]: "TradeOrderClose = 2"

type_synonym NotifyTaskStatus = int
type_synonym NotifyType = string

definition NotifyHTTP :: NotifyType where "NotifyHTTP = ''HTTP''"
definition NotifyMQ :: NotifyType where "NotifyMQ = ''MQ''"

definition TaskTradeSettlement :: string where
  "TaskTradeSettlement = ''trade_settlement''"
definition TaskTradeUnpaid2Refund :: string where
  "TaskTradeUnpaid2Refund = ''trade_unpaid2refund''"
definition TaskTradePaid2Refund :: string where
  "TaskTradePaid2Refund = ''trade_paid2refund''"
definition TaskTradePaidTeam2Refund :: string where
  "TaskTradePaidTeam2Refund = ''trade_paid_team2refund''"

definition NotifyTaskHTTPSuccess :: string where "NotifyTaskHTTPSuccess = ''success''"
definition NotifyTaskHTTPError :: string where "NotifyTaskHTTPError = ''error''"
definition NotifyTaskHTTPNull :: string where "NotifyTaskHTTPNull = ''null''"

definition Split :: char where "Split = CHR '',''"
definition Underline :: string where "Underline = ''_''"
definition TeamStockKeyPrefix :: string where
  "TeamStockKeyPrefix = ''group_buy_market_team_stock_key_''"
definition TopicTeamSuccess :: string where "TopicTeamSuccess = ''topic.team_success''"
definition TopicTeamRefund :: string where "TopicTeamRefund = ''topic.team_refund''"

lemma notify_type_neq [simp]: "NotifyHTTP \<noteq> NotifyMQ" "NotifyMQ \<noteq> NotifyHTTP"
  by (simp_all add: NotifyHTTP_def NotifyMQ_def)

lemma notify_answer_neq [simp]:
  "NotifyTaskHTTPSuccess \<noteq> NotifyTaskHTTPError" "NotifyTaskHTTPError \<noteq> NotifyTaskHTTPSuccess"
  "NotifyTaskHTTPSuccess \<noteq> NotifyTaskHTTPNull" "NotifyTaskHTTPNull \<noteq> NotifyTaskHTTPSuccess"
  "NotifyTaskHTTPError \<noteq> NotifyTaskHTTPNull" "NotifyTaskHTTPNull \<noteq> NotifyTaskHTTPError"
  by (simp_all add: NotifyTaskHTTPSuccess_def NotifyTaskHTTPError_def NotifyTaskHTTPNull_def)

section \<open>Value objects\<close>

record NotifyConfigVO =
  nc_NotifyType :: NotifyType
  nc_NotifyMQ :: string
  nc_NotifyUrl :: string

record GroupBuyProgressVO =
  gp_TargetCount :: int
  gp_CompleteCount :: int
  gp_LockCount :: int

record TeamRefundSuccess =
  trs_Type :: string
  trs_UserID :: string
  trs_TeamID :: string
  trs_OrderID :: string
  trs_OutTradeNo :: string
  trs_ActivityID :: int64

record RefundType =
  rt_Code :: string
  rt_Strategy :: string
  rt_Info :: string

definition RefundUnpaidUnlock :: RefundType where
  "RefundUnpaidUnlock =
     \<lparr>rt_Code = ''unpaid_unlock'', rt_Strategy = ''unpaid2RefundStrategy'', rt_Info =
      [CHR 0xE6, CHR 0x9C, CHR 0xAA, CHR 0xE6, CHR 0x94, CHR 0xAF, CHR 0xE4, CHR 0xBB, CHR
      0x98, CHR 0xEF, CHR 0xBC, CHR 0x8C, CHR 0xE6, CHR 0x9C, CHR 0xAA, CHR 0xE6, CHR 0x88, CHR
      0x90, CHR 0xE5, CHR 0x9B, CHR 0xA2]\<rparr>"

definition RefundPaidUnformed :: RefundType where
  "RefundPaidUnformed =
     \<lparr>rt_Code = ''paid_unformed'', rt_Strategy = ''paid2RefundStrategy'', rt_Info =
      [CHR 0xE5, CHR 0xB7, CHR 0xB2, CHR 0xE6, CHR 0x94, CHR 0xAF, CHR 0xE4, CHR 0xBB, CHR
      0x98, CHR 0xEF, CHR 0xBC, CHR 0x8C, CHR 0xE6, CHR 0x9C, CHR 0xAA, CHR 0xE6, CHR 0x88, CHR
      0x90, CHR 0xE5, CHR 0x9B, CHR 0xA2]\<rparr>"

definition RefundPaidFormed :: RefundType where
  "RefundPaidFormed =
     \<lparr>rt_Code = ''paid_formed'', rt_Strategy = ''paidTeam2RefundStrategy'', rt_Info =
      [CHR 0xE5, CHR 0xB7, CHR 0xB2, CHR 0xE6, CHR 0x94, CHR 0xAF, CHR 0xE4, CHR 0xBB, CHR
      0x98, CHR 0xEF, CHR 0xBC, CHR 0x8C, CHR 0xE5, CHR 0xB7, CHR 0xB2, CHR 0xE6, CHR 0x88, CHR
      0x90, CHR 0xE5, CHR 0x9B, CHR 0xA2]\<rparr>"

definition GetRefundStrategy :: "GroupBuyOrderStatus \<Rightarrow> TradeOrderStatus \<Rightarrow> RefundType res" where
  "GetRefundStrategy teamStatus orderStatus =
     (if teamStatus = GroupBuyProgress \<and> orderStatus = TradeOrderCreate then
        Inr RefundUnpaidUnlock
      else if teamStatus = GroupBuyProgress \<and> orderStatus = TradeOrderComplete then
        Inr RefundPaidUnformed
      else if (teamStatus = GroupBuyComplete \<or> teamStatus = GroupBuyCompleteFail) \<and>
              orderStatus = TradeOrderComplete then
        Inr RefundPaidFormed
      else Inl (OtherError (
          [CHR 0xE4, CHR 0xB8, CHR 0x8D, CHR 0xE6, CHR 0x94, CHR 0xAF, CHR 0xE6, CHR 0x8C, CHR
          0x81, CHR 0xE7, CHR 0x9A, CHR 0x84, CHR 0xE9, CHR 0x80, CHR 0x80, CHR 0xE6, CHR 0xAC,
          CHR 0xBE, CHR 0xE7, CHR 0x8A, CHR 0xB6, CHR 0xE6, CHR 0x80, CHR 0x81, CHR 0xE7, CHR
          0xBB, CHR 0x84, CHR 0xE5, CHR 0x90, CHR 0x88] @ '': team='' @
          showInt teamStatus @ '' order='' @ showInt orderStatus)))"

definition GetRefundTypeByCode :: "string \<Rightarrow> RefundType res" where
  "GetRefundTypeByCode code =
     (if code = ''unpaid_unlock'' then Inr RefundUnpaidUnlock
      else if code = ''paid_unformed'' then Inr RefundPaidUnformed
      else if code = ''paid_formed'' then Inr RefundPaidFormed
      else Inl (OtherError (
          [CHR 0xE9, CHR 0x80, CHR 0x80, CHR 0xE5, CHR 0x8D, CHR 0x95, CHR 0xE7, CHR 0xB1, CHR
          0xBB, CHR 0xE5, CHR 0x9E, CHR 0x8B, CHR 0xE6, CHR 0x9E, CHR 0x9A, CHR 0xE4, CHR 0xB8,
          CHR 0xBE, CHR 0xE5, CHR 0x80, CHR 0xBC, CHR 0xE4, CHR 0xB8, CHR 0x8D, CHR 0xE5, CHR
          0xAD, CHR 0x98, CHR 0xE5, CHR 0x9C, CHR 0xA8] @ '': '' @
          code)))"

lemma refund_type_simps [simp]:
  "rt_Code RefundUnpaidUnlock = ''unpaid_unlock''"
  "rt_Code RefundPaidUnformed = ''paid_unformed''"
  "rt_Code RefundPaidFormed = ''paid_formed''"
  "rt_Strategy RefundUnpaidUnlock = ''unpaid2RefundStrategy''"
  "rt_Strategy RefundPaidUnformed = ''paid2RefundStrategy''"
  "rt_Strategy RefundPaidFormed = ''paidTeam2RefundStrategy''"
  by (simp_all add: RefundUnpaidUnlock_def RefundPaidUnformed_def RefundPaidFormed_def)

text \<open>The code a refund message carries finds the strategy that made it.\<close>

lemma GetRefundTypeByCode_rt_Code:
  "GetRefundStrategy ts os = Inr rt \<Longrightarrow> GetRefundTypeByCode (rt_Code rt) = Inr rt"
  by (auto simp: GetRefundStrategy_def GetRefundTypeByCode_def split: if_splits)

section \<open>Entities\<close>

record UserEntity =
  ue_UserID :: string

record PayActivityEntity =
  pa_TeamID :: string
  pa_ActivityID :: int64
  pa_ActivityName :: string
  pa_StartTime :: time
  pa_EndTime :: time
  pa_ValidTime :: int
  pa_TargetCount :: int

record PayDiscountEntity =
  pd_Source :: string
  pd_Channel :: string
  pd_GoodsID :: string
  pd_GoodsName :: string
  pd_OriginalPrice :: decimal
  pd_DeductionPrice :: decimal
  pd_PayPrice :: decimal
  pd_OutTradeNo :: string
  pd_NotifyConfig :: "NotifyConfigVO option"

record MarketPayOrderEntity =
  mo_TeamID :: string
  mo_OrderID :: string
  mo_OriginalPrice :: decimal
  mo_DeductionPrice :: decimal
  mo_PayPrice :: decimal
  mo_TradeOrderStatus :: TradeOrderStatus

record GroupBuyActivityEntity =
  ga_ActivityID :: int64
  ga_ActivityName :: string
  ga_DiscountID :: string
  ga_GroupType :: int
  ga_TakeLimitCount :: int
  ga_Target :: int
  ga_ValidTime :: int
  ga_Status :: ActivityStatus
  ga_StartTime :: time
  ga_EndTime :: time
  ga_TagID :: string
  ga_TagScope :: string

record GroupBuyTeamEntity =
  gt_TeamID :: string
  gt_ActivityID :: int64
  gt_TargetCount :: int
  gt_CompleteCount :: int
  gt_LockCount :: int
  gt_Status :: GroupBuyOrderStatus
  gt_ValidStartTime :: time
  gt_ValidEndTime :: time
  gt_NotifyConfig :: "NotifyConfigVO option"

record NotifyTaskEntity =
  nt_TeamID :: string
  nt_NotifyType :: string
  nt_NotifyMQ :: string
  nt_NotifyUrl :: string
  nt_NotifyCount :: int
  nt_Status :: NotifyTaskStatus
  nt_ParameterJSON :: json
  nt_UUID :: string
  nt_ActivityID :: int64

definition LockKey :: "NotifyTaskEntity \<Rightarrow> string" where
  "LockKey n = ''notify_job_lock_key_'' @ nt_UUID n"

record TradeLockRuleCommandEntity =
  lc_UserID :: string
  lc_ActivityID :: int64
  lc_TeamID :: string

record TradeLockRuleFilterBackEntity =
  lb_UserTakeOrderCount :: int
  lb_RecoveryTeamStockKey :: string

record TradePaySuccessEntity =
  ps_Source :: string
  ps_Channel :: string
  ps_UserID :: string
  ps_OutTradeNo :: string
  ps_OutTradeTime :: time

record TradePaySettlementEntity =
  pst_Source :: string
  pst_Channel :: string
  pst_UserID :: string
  pst_TeamID :: string
  pst_ActivityID :: int64
  pst_OutTradeNo :: string

record TradeSettlementRuleCommandEntity =
  sc_Source :: string
  sc_Channel :: string
  sc_UserID :: string
  sc_OutTradeNo :: string
  sc_OutTradeTime :: time

record TradeSettlementRuleFilterBackEntity =
  sb_TeamID :: string
  sb_ActivityID :: int64
  sb_TargetCount :: int
  sb_CompleteCount :: int
  sb_LockCount :: int
  sb_Status :: GroupBuyOrderStatus
  sb_ValidStartTime :: time
  sb_ValidEndTime :: time
  sb_NotifyConfig :: "NotifyConfigVO option"

record TradeRefundCommandEntity =
  rcmd_UserID :: string
  rcmd_OutTradeNo :: string
  rcmd_Source :: string
  rcmd_Channel :: string

record TradeRefundOrderEntity =
  ro_UserID :: string
  ro_OrderID :: string
  ro_TeamID :: string
  ro_ActivityID :: int64
  ro_OutTradeNo :: string

type_synonym TradeRefundBehavior = int

definition RefundBehaviorSuccess :: TradeRefundBehavior where "RefundBehaviorSuccess = 1"
definition RefundBehaviorRepeat :: TradeRefundBehavior where "RefundBehaviorRepeat = 2"

definition Behavior_Code :: "TradeRefundBehavior \<Rightarrow> string" where
  "Behavior_Code b =
     (if b = RefundBehaviorSuccess then ''success''
      else if b = RefundBehaviorRepeat then ''repeat''
      else ''unknown'')"

definition Behavior_Info :: "TradeRefundBehavior \<Rightarrow> string" where
  "Behavior_Info b =
     (if b = RefundBehaviorSuccess then
        [CHR 0xE9, CHR 0x80, CHR 0x80, CHR 0xE5, CHR 0x8D, CHR 0x95, CHR 0xE6, CHR 0x88, CHR
        0x90, CHR 0xE5, CHR 0x8A, CHR 0x9F]
      else if b = RefundBehaviorRepeat then
        [CHR 0xE9, CHR 0x87, CHR 0x8D, CHR 0xE5, CHR 0xA4, CHR 0x8D, CHR 0xE9, CHR 0x80, CHR
        0x80, CHR 0xE5, CHR 0x8D, CHR 0x95]
      else
        [CHR 0xE6, CHR 0x9C, CHR 0xAA, CHR 0xE7, CHR 0x9F, CHR 0xA5])"

record TradeRefundBehaviorEntity =
  rb_UserID :: string
  rb_OrderID :: string
  rb_TeamID :: string
  rb_Behavior :: TradeRefundBehavior

record TimeoutUnpaidOrderEntity =
  tu_UserID :: string
  tu_TeamID :: string
  tu_ActivityID :: int64
  tu_TargetCount :: int
  tu_CompleteCount :: int
  tu_LockCount :: int
  tu_ValidStartTime :: time
  tu_ValidEndTime :: time
  tu_OutTradeNo :: string
  tu_Source :: string
  tu_Channel :: string

section \<open>Aggregates\<close>

record GroupBuyOrderAggregate =
  agl_UserEntity :: UserEntity
  agl_PayActivityEntity :: PayActivityEntity
  agl_PayDiscountEntity :: PayDiscountEntity
  agl_UserTakeOrderCount :: int

record GroupBuyTeamSettlementAggregate =
  ags_UserEntity :: UserEntity
  ags_GroupBuyTeamEntity :: GroupBuyTeamEntity
  ags_TradePaySuccessEntity :: TradePaySuccessEntity

record GroupBuyRefundAggregate =
  agr_TradeRefundOrderEntity :: TradeRefundOrderEntity
  agr_GroupBuyProgress :: GroupBuyProgressVO

definition BuildUnpaid2RefundAggregate ::
    "TradeRefundOrderEntity \<Rightarrow> int \<Rightarrow> GroupBuyRefundAggregate" where
  "BuildUnpaid2RefundAggregate order lockDelta =
     \<lparr>agr_TradeRefundOrderEntity = order,
      agr_GroupBuyProgress =
        \<lparr>gp_TargetCount = 0, gp_CompleteCount = 0, gp_LockCount = lockDelta\<rparr>\<rparr>"

definition BuildPaid2RefundAggregate ::
    "TradeRefundOrderEntity \<Rightarrow> int \<Rightarrow> int \<Rightarrow> GroupBuyRefundAggregate" where
  "BuildPaid2RefundAggregate order lockDelta completeDelta =
     \<lparr>agr_TradeRefundOrderEntity = order,
      agr_GroupBuyProgress =
        \<lparr>gp_TargetCount = 0, gp_CompleteCount = completeDelta, gp_LockCount = lockDelta\<rparr>\<rparr>"

definition BuildPaidTeam2RefundAggregate ::
    "TradeRefundOrderEntity \<Rightarrow> int \<Rightarrow> int \<Rightarrow> GroupBuyRefundAggregate" where
  "BuildPaidTeam2RefundAggregate order lockDelta completeDelta =
     BuildPaid2RefundAggregate order lockDelta completeDelta"

end
