(* ===== verification/Dcc.thy ===== *)
theory Dcc
  imports Trade_Model
begin

text \<open>
  \<open>internal/infrastructure/dcc/dcc_service.go\<close>: the dynamic configuration. One instance is a record
  of its four settings; \<open>Update\<close> changes the local settings and broadcasts the change, the
  subscription handler applies a change that arrives. A broadcast payload is represented by the
  JSON document it encodes, \<open>None\<close> standing for text that is not JSON.

  The cluster at the end is the instances, what each has applied but not yet published, the log
  of the channel and how much of it each instance has consumed: Redis delivers the messages of
  a channel to every subscriber in one order. Lost connections are not modelled.
\<close>

section \<open>The service\<close>

record dcc =
  dcc_downgradeSwitch :: string
  dcc_cutRange :: string
  dcc_scBlacklist :: string
  dcc_cacheSwitch :: string
  dcc_publisher :: bool
  dcc_channel :: string
  dcc_instanceID :: string

definition DefaultChannel :: string where
  "DefaultChannel = ''group_buy_market_dcc_topic''"

definition dcc_New :: "string \<Rightarrow> string \<Rightarrow> string \<Rightarrow> string \<Rightarrow> dcc" where
  "dcc_New downgrade cutRange scBlacklist cacheSwitch =
     \<lparr>dcc_downgradeSwitch = downgrade, dcc_cutRange = cutRange, dcc_scBlacklist = scBlacklist,
      dcc_cacheSwitch = cacheSwitch, dcc_publisher = False, dcc_channel = DefaultChannel,
      dcc_instanceID = ''local''\<rparr>"

text \<open>The part of \<open>EnableBroadcast\<close> before the subscription is started.\<close>

definition EnableBroadcast :: "bool \<Rightarrow> string \<Rightarrow> string \<Rightarrow> dcc \<Rightarrow> dcc" where
  "EnableBroadcast pub channel instanceID s =
     (let s = (if channel \<noteq> '''' then s\<lparr>dcc_channel := channel\<rparr> else s);
          s = (if instanceID \<noteq> '''' then s\<lparr>dcc_instanceID := instanceID\<rparr> else s)
      in s\<lparr>dcc_publisher := pub\<rparr>)"

definition IsDowngradeSwitch :: "dcc \<Rightarrow> bool" where
  "IsDowngradeSwitch s \<longleftrightarrow> dcc_downgradeSwitch s = ''1''"

definition IsCacheOpenSwitch :: "dcc \<Rightarrow> bool" where
  "IsCacheOpenSwitch s \<longleftrightarrow> dcc_cacheSwitch s = ''0''"

text \<open>\<open>fnv.New32a\<close>.\<close>

unbundle bit_operations_syntax

definition fnv32a_step :: "32 word \<Rightarrow> char \<Rightarrow> 32 word" where
  "fnv32a_step h c = (h XOR of_nat (of_char c)) * 16777619"

definition fnv32a :: "string \<Rightarrow> 32 word" where
  "fnv32a s = foldl fnv32a_step 2166136261 s"

text \<open>The digits of the setting, read in a 64-bit \<open>int\<close> that wraps around.\<close>

definition rangeN_step :: "64 word \<Rightarrow> char \<Rightarrow> 64 word" where
  "rangeN_step n c =
     (if isDigit c then n * 10 + of_int (of_char c - 48) else n)"

definition IsCutRange :: "dcc \<Rightarrow> string \<Rightarrow> bool" where
  "IsCutRange s userID =
     (let cut = dcc_cutRange s in
      if cut = '''' then True
      else let rangeN = foldl rangeN_step 0 cut;
               lastTwo = int (unat (fnv32a userID)) mod 100
           in lastTwo \<le> sint rangeN)"

definition IsSCBlackIntercept :: "dcc \<Rightarrow> string \<Rightarrow> string \<Rightarrow> bool" where
  "IsSCBlackIntercept s source channel =
     (let bl = dcc_scBlacklist s in
      if bl = '''' then False
      else let key = source @ channel
           in list_ex (\<lambda>item. TrimSpace item = key) (splitOn Split bl))"

definition applyLocal :: "string \<Rightarrow> string \<Rightarrow> dcc \<Rightarrow> dcc" where
  "applyLocal key val s =
     (if key = ''downgradeSwitch'' then s\<lparr>dcc_downgradeSwitch := val\<rparr>
      else if key = ''cutRange'' then s\<lparr>dcc_cutRange := val\<rparr>
      else if key = ''scBlacklist'' then s\<lparr>dcc_scBlacklist := val\<rparr>
      else if key = ''cacheSwitch'' then s\<lparr>dcc_cacheSwitch := val\<rparr>
      else s)"

definition broadcast :: "string \<Rightarrow> string \<Rightarrow> dcc \<Rightarrow> (string \<times> json) option" where
  "broadcast key val s =
     (if \<not> dcc_publisher s then None
      else Some (dcc_channel s,
             JObj [(''key'', JStr key), (''origin'', JStr (dcc_instanceID s)), (''value'', JStr val)]))"

text \<open>\<open>Update\<close>: the instance after it, and what it hands to the publisher.\<close>

definition Update :: "string \<Rightarrow> string \<Rightarrow> dcc \<Rightarrow> dcc \<times> (string \<times> json) option" where
  "Update key val s = (let s' = applyLocal key val s in (s', broadcast key val s'))"

definition Snapshot :: "dcc \<Rightarrow> string \<rightharpoonup> string" where
  "Snapshot s = [''downgradeSwitch'' \<mapsto> dcc_downgradeSwitch s, ''cutRange'' \<mapsto> dcc_cutRange s,
     ''scBlacklist'' \<mapsto> dcc_scBlacklist s, ''cacheSwitch'' \<mapsto> dcc_cacheSwitch s]"

section \<open>The subscription handler\<close>

text \<open>
  \<open>json.Unmarshal\<close> into a struct of strings: a member goes to the field of its name, whatever its
  case; a null leaves the field; a member of another type makes the decoding fail; members of
  other names are skipped.
\<close>

definition lower :: "char \<Rightarrow> char" where
  "lower c = (if c \<in> set ''ABCDEFGHIJKLMNOPQRSTUVWXYZ'' then char_of (of_char c + 32 :: nat) else c)"

fun json_fields :: "string set \<Rightarrow> (string \<times> json) list \<Rightarrow> (string \<Rightarrow> string) \<Rightarrow> (string \<Rightarrow> string) option" where
  "json_fields F [] env = Some env"
| "json_fields F ((k, v) # ms) env =
     (let f = map lower k in
      if f \<notin> F then json_fields F ms env
      else case v of
          JStr s \<Rightarrow> json_fields F ms (env(f := s))
        | JNull \<Rightarrow> json_fields F ms env
        | _ \<Rightarrow> None)"

definition json_strings :: "string set \<Rightarrow> json option \<Rightarrow> (string \<Rightarrow> string) option" where
  "json_strings F payload =
     (case payload of
        Some (JObj ms) \<Rightarrow> json_fields F ms (\<lambda>_. '''')
      | Some JNull \<Rightarrow> Some (\<lambda>_. '''')
      | _ \<Rightarrow> None)"

definition dcc_handler :: "json option \<Rightarrow> dcc \<Rightarrow> dcc" where
  "dcc_handler payload s =
     (case json_strings {''key'', ''value'', ''origin''} payload of
        Some msg \<Rightarrow> applyLocal (msg ''key'') (msg ''value'') s
      | None \<Rightarrow>
          (case json_strings {''key'', ''value''} payload of
             Some attr \<Rightarrow> applyLocal (attr ''key'') (attr ''value'') s
           | None \<Rightarrow> s))"

section \<open>The settings as a store\<close>

definition dcc_get :: "dcc \<Rightarrow> string \<Rightarrow> string" where
  "dcc_get s k = (case Snapshot s k of Some v \<Rightarrow> v | None \<Rightarrow> '''')"

definition dcc_known :: "string \<Rightarrow> bool" where
  "dcc_known k \<longleftrightarrow> k \<in> {''downgradeSwitch'', ''cutRange'', ''scBlacklist'', ''cacheSwitch''}"

text \<open>What a client of a settings store relies on, and what follows for a run of changes.\<close>

fun last_write :: "('k \<times> 'v) list \<Rightarrow> 'k \<Rightarrow> 'v option" where
  "last_write [] k = None"
| "last_write ((k', v) # ms) k =
     (case last_write ms k of Some w \<Rightarrow> Some w | None \<Rightarrow> if k' = k then Some v else None)"

lemma last_write_append:
  "last_write (xs @ ys) k = (case last_write ys k of Some w \<Rightarrow> Some w | None \<Rightarrow> last_write xs k)"
  by (induction xs k rule: last_write.induct) (auto split: option.splits)

lemma last_write_None_iff: "last_write ms k = None \<longleftrightarrow> k \<notin> fst ` set ms"
  by (induction ms k rule: last_write.induct) (auto split: option.splits)

locale settings_store =
  fixes get :: "'s \<Rightarrow> 'k \<Rightarrow> 'v"
    and app :: "'k \<Rightarrow> 'v \<Rightarrow> 's \<Rightarrow> 's"
    and known :: "'k \<Rightarrow> bool"
  assumes get_app_same: "known k \<Longrightarrow> get (app k v s) k = v"
    and get_app_other: "k \<noteq> k' \<Longrightarrow> get (app k' v s) k = get s k"
    and app_unknown: "\<not> known k \<Longrightarrow> app k v s = s"
begin

definition run :: "('k \<times> 'v) list \<Rightarrow> 's \<Rightarrow> 's" where
  "run ms s = foldl (\<lambda>s (k, v). app k v s) s ms"

lemma get_run:
  "known k \<Longrightarrow> get (run ms s) k = (case last_write ms k of Some v \<Rightarrow> v | None \<Rightarrow> get s k)"
proof (induction ms arbitrary: s)
  case (Cons m ms)
  obtain k' v where m: "m = (k', v)" by force
  have "run (m # ms) s = run ms (app k' v s)" by (simp add: run_def m)
  with Cons m show ?case
    by (auto simp: get_app_same get_app_other split: option.splits)
qed (simp add: run_def)

lemma run_agree:
  assumes "\<And>k. known k \<Longrightarrow> get s k = get t k" and "known k"
  shows "get (run ms s) k = get (run ms t) k"
  using assms by (simp add: get_run split: option.splits)

lemma app_twice: "known k \<Longrightarrow> get (app k v (app k v s)) k' = get (app k v s) k'"
  by (cases "k' = k") (simp_all add: get_app_same get_app_other)

end

lemma dcc_get_applyLocal_same: "dcc_known k \<Longrightarrow> dcc_get (applyLocal k v s) k = v"
  by (auto simp: dcc_known_def dcc_get_def Snapshot_def applyLocal_def)

lemma dcc_get_applyLocal_other: "k \<noteq> k' \<Longrightarrow> dcc_get (applyLocal k' v s) k = dcc_get s k"
  by (auto simp: dcc_get_def Snapshot_def applyLocal_def)

lemma applyLocal_unknown: "\<not> dcc_known k \<Longrightarrow> applyLocal k v s = s"
  by (auto simp: dcc_known_def applyLocal_def)

interpretation dccs: settings_store dcc_get applyLocal dcc_known
  by unfold_locales (simp_all add: dcc_get_applyLocal_same dcc_get_applyLocal_other applyLocal_unknown)

lemma applyLocal_fields [simp]:
  "dcc_publisher (applyLocal k v s) = dcc_publisher s"
  "dcc_channel (applyLocal k v s) = dcc_channel s"
  "dcc_instanceID (applyLocal k v s) = dcc_instanceID s"
  by (simp_all add: applyLocal_def)

text \<open>What one instance broadcasts, the handler of another applies.\<close>

lemma lower_names [simp]:
  "map lower ''key'' = ''key''" "map lower ''value'' = ''value''" "map lower ''origin'' = ''origin''"
  by (simp_all add: lower_def)

lemma handler_broadcast:
  "broadcast k v s = Some (ch, doc) \<Longrightarrow> dcc_handler (Some doc) t = applyLocal k v t"
  by (auto simp: broadcast_def dcc_handler_def json_strings_def Let_def simp del: list.map
      split: if_splits)

section \<open>The cluster\<close>

record cluster =
  cl_inst :: "nat \<Rightarrow> dcc"
  cl_pend :: "nat \<Rightarrow> (string \<times> json) list"
  cl_log :: "(string \<times> json) list"
  cl_seen :: "nat \<Rightarrow> nat"

text \<open>
  The two halves of \<open>Update\<close> are separate steps, since nothing holds the instance's lock between
  them: other requests may update, and publish, in any order in between.
\<close>

inductive dcc_step :: "nat \<Rightarrow> cluster \<Rightarrow> cluster \<Rightarrow> bool" for n where
  update: "i < n \<Longrightarrow> Update k v (cl_inst s i) = (d, Some m) \<Longrightarrow>
     dcc_step n s (s\<lparr>cl_inst := (cl_inst s)(i := d), cl_pend := (cl_pend s)(i := cl_pend s i @ [m])\<rparr>)"
| publish: "i < n \<Longrightarrow> cl_pend s i = as @ m # bs \<Longrightarrow>
     dcc_step n s (s\<lparr>cl_pend := (cl_pend s)(i := as @ bs), cl_log := cl_log s @ [m]\<rparr>)"
| deliver: "i < n \<Longrightarrow> cl_seen s i < length (cl_log s) \<Longrightarrow>
     dcc_step n s
       (s\<lparr>cl_inst := (cl_inst s)(i := dcc_handler (Some (snd (cl_log s ! cl_seen s i))) (cl_inst s i)),
          cl_seen := (cl_seen s)(i := Suc (cl_seen s i))\<rparr>)"

definition cluster_start :: "(nat \<Rightarrow> dcc) \<Rightarrow> cluster" where
  "cluster_start inst = \<lparr>cl_inst = inst, cl_pend = (\<lambda>_. []), cl_log = [], cl_seen = (\<lambda>_. 0)\<rparr>"

definition cluster_quiet :: "nat \<Rightarrow> cluster \<Rightarrow> bool" where
  "cluster_quiet n s \<longleftrightarrow> (\<forall>i < n. cl_pend s i = [] \<and> cl_seen s i = length (cl_log s))"

text \<open>The change a payload makes.\<close>

definition doc_write :: "string \<times> json \<Rightarrow> string \<times> string" where
  "doc_write m =
     (case json_strings {''key'', ''value'', ''origin''} (Some (snd m)) of
        Some msg \<Rightarrow> (msg ''key'', msg ''value'')
      | None \<Rightarrow> ([], []))"

definition doc_ok :: "string \<times> json \<Rightarrow> bool" where
  "doc_ok m \<longleftrightarrow> json_strings {''key'', ''value'', ''origin''} (Some (snd m)) \<noteq> None"

lemma Update_doc:
  assumes "Update k v d = (d', Some m)"
  shows "d' = applyLocal k v d" and "doc_write m = (k, v)" and "doc_ok m"
  using assms
  by (auto simp: Update_def broadcast_def doc_write_def doc_ok_def json_strings_def Let_def
      simp del: list.map split: if_splits)

lemma handler_doc:
  "doc_ok m \<Longrightarrow> dcc_handler (Some (snd m)) d = applyLocal (fst (doc_write m)) (snd (doc_write m)) d"
  by (auto simp: doc_ok_def doc_write_def dcc_handler_def)

abbreviation doc_keys :: "(string \<times> json) list \<Rightarrow> string set" where
  "doc_keys ms \<equiv> fst ` doc_write ` set ms"

text \<open>
  An instance holds the last change it has consumed for a key, unless a change of that key is
  still on its way to it.
\<close>

definition inst_inv :: "dcc \<Rightarrow> dcc \<Rightarrow> (string \<times> json) list \<Rightarrow> (string \<times> json) list \<Rightarrow> nat \<Rightarrow> bool" where
  "inst_inv d0 d pend log seen \<longleftrightarrow>
     seen \<le> length log \<and> (\<forall>m \<in> set log \<union> set pend. doc_ok m) \<and>
     (\<forall>k. dcc_known k \<longrightarrow> k \<in> doc_keys (drop seen log) \<or> k \<in> doc_keys pend \<or>
        dcc_get d k =
          (case last_write (map doc_write (take seen log)) k of Some v \<Rightarrow> v | None \<Rightarrow> dcc_get d0 k))"

lemma inst_inv_update:
  assumes "inst_inv d0 d pend log seen" and "Update k v d = (d', Some m)"
  shows "inst_inv d0 d' (pend @ [m]) log seen"
proof -
  note u = Update_doc [OF assms(2)]
  have "dcc_get d' k' = dcc_get d k'" if "k' \<noteq> k" for k'
    using that u(1) by (simp add: dcc_get_applyLocal_other)
  then show ?thesis
    using assms(1) u(2,3) unfolding inst_inv_def by (auto simp: image_iff)
qed

lemma inst_inv_log:
  assumes "inst_inv d0 d pend log seen" and "doc_ok m"
  shows "inst_inv d0 d pend (log @ [m]) seen"
  using assms unfolding inst_inv_def by auto

lemma inst_inv_publish:
  assumes "inst_inv d0 d (as @ m # bs) log seen"
  shows "inst_inv d0 d (as @ bs) (log @ [m]) seen"
  using assms unfolding inst_inv_def by auto

lemma inst_inv_deliver:
  assumes "inst_inv d0 d pend log seen" and "seen < length log"
  shows "inst_inv d0 (dcc_handler (Some (snd (log ! seen))) d) pend log (Suc seen)"
proof -
  let ?m = "log ! seen"
  have m: "doc_ok ?m" using assms unfolding inst_inv_def by auto
  have drop: "drop seen log = ?m # drop (Suc seen) log"
    and take: "take (Suc seen) log = take seen log @ [?m]"
    using assms(2) by (simp_all add: Cons_nth_drop_Suc take_Suc_conv_app_nth)
  obtain k v where kv: "doc_write ?m = (k, v)" by force
  have get: "dcc_get (dcc_handler (Some (snd ?m)) d) k' = (if k' = k then v else dcc_get d k')"
    if "dcc_known k'" for k'
    using that handler_doc [OF m, of d] kv
    by (auto simp: dcc_get_applyLocal_same dcc_get_applyLocal_other)
  have "k' \<in> doc_keys (drop (Suc seen) log) \<or> k' \<in> doc_keys pend \<or>
      dcc_get (dcc_handler (Some (snd ?m)) d) k' =
        (case last_write (map doc_write (take (Suc seen) log)) k' of Some w \<Rightarrow> w | None \<Rightarrow> dcc_get d0 k')"
    if known: "dcc_known k'" for k'
  proof (cases "k' = k")
    case True
    with known get [OF known] show ?thesis by (simp add: take kv last_write_append)
  next
    case False
    with known get [OF known] assms(1) show ?thesis
      unfolding inst_inv_def drop by (auto simp: take kv last_write_append)
  qed
  with assms show ?thesis unfolding inst_inv_def by auto
qed

definition cluster_inv :: "nat \<Rightarrow> (nat \<Rightarrow> dcc) \<Rightarrow> cluster \<Rightarrow> bool" where
  "cluster_inv n d0 s \<longleftrightarrow>
     (\<forall>i < n. inst_inv (d0 i) (cl_inst s i) (cl_pend s i) (cl_log s) (cl_seen s i))"

lemma cluster_inv_step:
  assumes "dcc_step n s s'" and "cluster_inv n d0 s"
  shows "cluster_inv n d0 s'"
  using assms
proof cases
  case (update i k v d m)
  then show ?thesis using assms(2) inst_inv_update [OF _ update(3)] unfolding cluster_inv_def by simp
next
  case (publish i as m bs)
  then have "doc_ok m" using assms(2) unfolding cluster_inv_def inst_inv_def by auto
  with publish show ?thesis
    using assms(2) inst_inv_log [OF _ \<open>doc_ok m\<close>]
      inst_inv_publish [of "d0 i" "cl_inst s i" as m bs "cl_log s" "cl_seen s i"]
    unfolding cluster_inv_def by (simp; metis)
next
  case (deliver i)
  then show ?thesis using assms(2) inst_inv_deliver [OF _ deliver(3)] unfolding cluster_inv_def by simp
qed

lemma cluster_inv_reach:
  assumes "(dcc_step n)\<^sup>*\<^sup>* (cluster_start d0) s"
  shows "cluster_inv n d0 s"
  using assms
proof (induction rule: rtranclp_induct)
  case base
  show ?case by (simp add: cluster_inv_def inst_inv_def cluster_start_def)
next
  case (step y z)
  then show ?case by (blast intro: cluster_inv_step)
qed

end
