(* ===== verification/Keys.thy ===== *)
theory Keys
  imports Trade_Model
begin

text \<open>
  \<open>internal/domain/trade/service/lock/factory/lock_context.go\<close>: the context of the lock rules and
  the Redis keys of a team's stock. \<open>itoa\<close> is the loop of the source on a 64-bit number; a
  negative number is negated first, which leaves the smallest one negative.
\<close>

record LockContext =
  dc_GroupBuyActivity :: "GroupBuyActivityEntity option"
  dc_UserTakeOrderCount :: int

lemma div10_less: "0 < sint (v :: int64) \<Longrightarrow> unat (v div 10) < unat v"
proof -
  assume "0 < sint v"
  then have "v \<noteq> 0" by auto
  then have "0 < unat v" by (simp add: unat_gt_0)
  then show ?thesis by (simp add: unat_div)
qed

function itoa_loop :: "int64 \<Rightarrow> string \<Rightarrow> string" where
  "itoa_loop v buf =
     (if 0 < sint v then itoa_loop (v div 10) (digit (unat (v mod 10)) # buf) else buf)"
  by pat_completeness auto

termination by (relation "measure (\<lambda>(v, _). unat v)") (simp_all add: div10_less)

definition itoa :: "int64 \<Rightarrow> string" where
  "itoa v =
     (if v = 0 then ''0''
      else let neg = sint v < 0;
               v = (if neg then - v else v);
               buf = itoa_loop v []
           in if neg then CHR ''-'' # buf else buf)"

definition GenerateTeamStockKey :: "int64 \<Rightarrow> string \<Rightarrow> string" where
  "GenerateTeamStockKey activityID teamID =
     TeamStockKeyPrefix @ itoa activityID @ Underline @ teamID"

definition GenerateRecoveryTeamStockKey :: "int64 \<Rightarrow> string \<Rightarrow> string" where
  "GenerateRecoveryTeamStockKey activityID teamID =
     TeamStockKeyPrefix @ itoa activityID @ Underline @ teamID @ ''_recovery''"

definition dc_GenerateTeamStockKey :: "LockContext \<Rightarrow> string \<Rightarrow> string" where
  "dc_GenerateTeamStockKey dc teamID =
     (case dc_GroupBuyActivity dc of
        None \<Rightarrow> ''''
      | Some act \<Rightarrow> if teamID = '''' then '''' else GenerateTeamStockKey (ga_ActivityID act) teamID)"

definition dc_GenerateRecoveryTeamStockKey :: "LockContext \<Rightarrow> string \<Rightarrow> string" where
  "dc_GenerateRecoveryTeamStockKey dc teamID =
     (case dc_GroupBuyActivity dc of
        None \<Rightarrow> ''''
      | Some act \<Rightarrow> if teamID = '''' then '''' else GenerateRecoveryTeamStockKey (ga_ActivityID act) teamID)"

declare itoa_loop.simps [simp del]

section \<open>Signed and unsigned reading of a 64-bit number\<close>

lemma sint_small: "uint (w :: 64 word) < 2 ^ 63 \<Longrightarrow> sint w = uint w"
  unfolding sint_uint by (rule signed_take_bit_int_eq_self) (simp_all add: order_trans [of _ 0])

lemma sint_big: "\<not> uint (w :: 64 word) < 2 ^ 63 \<Longrightarrow> sint w = uint w - 2 ^ 64"
proof -
  assume a: "\<not> uint w < 2 ^ 63"
  have e: "(word_of_int (uint w - 2 ^ 64) :: 64 word) = w" by simp
  have "sint w = signed_take_bit (LENGTH(64) - 1) (uint w - 2 ^ 64)"
    using sint_sbintrunc' [where 'a = 64, of "uint w - 2 ^ 64"] by (simp only: e)
  also have "\<dots> = uint w - 2 ^ 64"
    by (rule signed_take_bit_int_eq_self) (use a uint_lt2p[of w] in simp_all)
  finally show ?thesis .
qed

lemma unat_less_uint: "unat (w :: 64 word) < 2 ^ 63 \<longleftrightarrow> uint w < 2 ^ 63"
  using of_nat_less_iff [where 'a = int, of "unat w" "2 ^ 63"] by (simp del: of_nat_less_iff)

lemma sint_pos: "0 \<le> sint (w :: 64 word) \<Longrightarrow> sint w = int (unat w) \<and> unat w < 2 ^ 63"
proof -
  assume a: "0 \<le> sint w"
  have u: "uint w < 2 ^ 63"
  proof (rule ccontr)
    assume "\<not> uint w < 2 ^ 63"
    from sint_big [OF this] a uint_lt2p [of w] show False by simp
  qed
  then show ?thesis using sint_small [OF u] by (simp only: unat_less_uint of_nat_unat simp_thms)
qed

lemma sint_unat: "unat (w :: 64 word) < 2 ^ 63 \<Longrightarrow> sint w = int (unat w)"
  unfolding unat_less_uint using sint_small [of w] by simp

lemma uint_neg: "(v :: int64) \<noteq> 0 \<Longrightarrow> uint (- v) = 2 ^ 64 - uint v"
proof -
  assume "v \<noteq> 0"
  then have "0 < uint v" using uint_0_iff [of v] by (simp add: order_less_le)
  then have "(- uint v) mod 2 ^ 64 = 2 ^ 64 - uint v"
    using uint_lt2p [of v] by (simp add: zmod_zminus1_eq_if)
  then show ?thesis by (simp add: uint_word_ariths)
qed

section \<open>The digits\<close>

lemma itoa_loop_showNat:
  "0 < sint v \<Longrightarrow> itoa_loop v buf = showNat (unat v) @ buf"
proof (induction v buf rule: itoa_loop.induct)
  case (1 v buf)
  have loop: "itoa_loop v buf = itoa_loop (v div 10) (digit (unat (v mod 10)) # buf)"
    using "1.prems" by (simp add: itoa_loop.simps [of v])
  have dig: "digit (unat (v mod 10)) = digit (unat v)" by (simp add: digit_def unat_mod)
  show ?case
  proof (cases "unat v < 10")
    case True
    then have "v div 10 = 0" by (simp add: word_unat_eq_iff unat_div)
    then show ?thesis using loop dig True by (simp add: itoa_loop.simps [of 0] showNat.simps [of "unat v"])
  next
    case False
    have "unat v < 2 ^ 63" using sint_pos [of v] "1.prems" by simp
    then have "unat (v div 10) < 2 ^ 63" by (simp add: unat_div)
    from sint_unat [OF this] have "sint (v div 10) = int (unat v div 10)"
      by (simp only: unat_div) simp
    with False have pos: "0 < sint (v div 10)" by simp
    from "1.IH" [OF "1.prems" pos] loop dig False show ?thesis
      by (simp add: showNat.simps [of "unat v"] unat_div)
  qed
qed

definition int64_min :: int64 where "int64_min = - (2 ^ 63)"

lemma sint_int64_min: "sint int64_min = - (2 ^ 63)"
  by (simp add: int64_min_def)

lemma itoa_min: "itoa int64_min = ''-''"
  by (simp add: itoa_def int64_min_def Let_def itoa_loop.simps)

lemma itoa_showInt:
  assumes "v \<noteq> int64_min"
  shows "itoa v = showInt (sint v)"
proof -
  consider "v = 0" | "0 < sint v" | "sint v < 0"
    by (metis linorder_neqE_linordered_idom signed_eq_0_iff)
  then show ?thesis
  proof cases
    case 1
    then show ?thesis by (simp add: itoa_def showInt_def showNat.simps digit_def)
  next
    case 2
    then have "v \<noteq> 0" "sint v = int (unat v)" using sint_pos [of v] by auto
    with 2 show ?thesis by (simp add: itoa_def Let_def itoa_loop_showNat showInt_def)
  next
    case 3
    then have v: "v \<noteq> 0" "\<not> uint v < 2 ^ 63" using sint_small [of v] by auto
    have "uint v \<noteq> 2 ^ 63"
    proof
      assume "uint v = 2 ^ 63"
      then have "v = int64_min" by (simp add: word_uint_eq_iff int64_min_def)
      with assms show False by simp
    qed
    then have small: "uint (- v) < 2 ^ 63" using v uint_neg [of v] by simp
    have pos: "sint (- v) = - sint v" using sint_small [OF small] sint_big [OF v(2)] uint_neg [OF v(1)] by simp
    then have "int (unat (- v)) = - sint v" using sint_pos [of "- v"] 3 by simp
    then have "unat (- v) = nat (- sint v)" by linarith
    with 3 pos v(1) show ?thesis by (simp add: itoa_def Let_def itoa_loop_showNat showInt_def)
  qed
qed

lemma showInt_neq_minus: "showInt i \<noteq> ''-''"
  using showNat_digits [of "nat i"] by (auto simp: showInt_def)

lemma itoa_inject: "itoa v = itoa w \<Longrightarrow> v = w"
proof -
  assume eq: "itoa v = itoa w"
  show ?thesis
  proof (cases "v = int64_min \<or> w = int64_min")
    case True
    with eq show ?thesis using itoa_min itoa_showInt showInt_neq_minus by metis
  next
    case False
    with eq have "sint v = sint w" using itoa_showInt showInt_inject by metis
    then show ?thesis by (rule signed_word_eqI)
  qed
qed

lemma itoa_no_underline: "CHR ''_'' \<notin> set (itoa v)"
proof (cases "v = int64_min")
  case False
  then show ?thesis using itoa_showInt showInt_chars isDigit_simps(1) by fastforce
qed (simp add: itoa_min)

section \<open>The keys\<close>

lemma append_sep_inject:
  "c \<notin> set xs \<Longrightarrow> c \<notin> set ys \<Longrightarrow> xs @ c # as = ys @ c # bs \<Longrightarrow> xs = ys \<and> as = bs"
  by (induction xs arbitrary: ys) (auto simp: Cons_eq_append_conv append_eq_Cons_conv)

lemma stock_key_inject:
  "GenerateTeamStockKey a t = GenerateTeamStockKey b u \<longleftrightarrow> a = b \<and> t = u"
  using append_sep_inject [OF itoa_no_underline itoa_no_underline, of a t b u] itoa_inject
  by (auto simp: GenerateTeamStockKey_def Underline_def)

lemma recovery_key_eq: "GenerateRecoveryTeamStockKey a t = GenerateTeamStockKey a (t @ ''_recovery'')"
  by (simp add: GenerateRecoveryTeamStockKey_def GenerateTeamStockKey_def)

definition slot_key :: "int64 \<Rightarrow> string \<Rightarrow> int \<Rightarrow> string" where
  "slot_key a t n = GenerateTeamStockKey a t @ ''_'' @ showInt n"

lemma slot_key_eq: "slot_key a t n = GenerateTeamStockKey a (t @ ''_'' @ showInt n)"
  by (simp add: slot_key_def GenerateTeamStockKey_def)

text \<open>An id without an underscore, as the generated ones, which are eight digits.\<close>

definition plain_id :: "string \<Rightarrow> bool" where
  "plain_id t \<longleftrightarrow> CHR ''_'' \<notin> set t"

definition team_id :: "string \<Rightarrow> bool" where
  "team_id t \<longleftrightarrow> t \<noteq> '''' \<and> plain_id t"

lemma recovery_not_number: "''recovery'' \<noteq> showInt n"
proof
  assume eq: "''recovery'' = showInt n"
  have "CHR ''r'' \<in> set (showInt n)" unfolding eq [symmetric] by simp
  from showInt_chars [OF this] show False by simp
qed

text \<open>
  The Redis keys of two teams never meet: for team ids without an underscore (the generated ones are
  eight digits), the stock key, the recovery key and the key of any slot determine the activity, the
  team, which of the three they are and the slot, whatever the 64-bit activity id.
\<close>

lemma team_keys_never_collide:
  assumes "plain_id t" and "plain_id u"
  shows "(GenerateTeamStockKey a t = GenerateTeamStockKey b u \<longleftrightarrow> a = b \<and> t = u) \<and>
    (GenerateRecoveryTeamStockKey a t = GenerateRecoveryTeamStockKey b u \<longleftrightarrow> a = b \<and> t = u) \<and>
    (slot_key a t n = slot_key b u m \<longleftrightarrow> a = b \<and> t = u \<and> n = m) \<and>
    GenerateTeamStockKey a t \<noteq> GenerateRecoveryTeamStockKey b u \<and>
    GenerateTeamStockKey a t \<noteq> slot_key b u n \<and>
    GenerateRecoveryTeamStockKey a t \<noteq> slot_key b u n"
proof -
  have no: "CHR ''_'' \<notin> set t" "CHR ''_'' \<notin> set u" using assms by (simp_all add: plain_id_def)
  have rec: "t @ CHR ''_'' # x = u @ CHR ''_'' # y \<longleftrightarrow> t = u \<and> x = y" for x y
    using append_sep_inject [OF no] by auto
  have "t \<noteq> u @ CHR ''_'' # x" for x using no(1) by auto
  then show ?thesis
    using rec recovery_not_number showInt_inject
    by (simp add: recovery_key_eq slot_key_eq stock_key_inject) metis
qed

end
