(* ===== verification/Settings.thy ===== *)
theory Settings
  imports Dcc Keys
begin

text \<open>
  What the settings of the instances (\<open>internal/infrastructure/dcc\<close>) come to: all instances agree once
  every change has arrived, the share of users let in is the one the setting says, and the decimal loop
  of the Redis keys is the decimal notation.
\<close>

section \<open>The number in a setting\<close>

lemma rangeN_step_digit: "rangeN_step m (digit n) = m * 10 + of_nat (n mod 10)"
proof -
  have "n mod 10 = 0 \<or> n mod 10 = 1 \<or> n mod 10 = 2 \<or> n mod 10 = 3 \<or> n mod 10 = 4 \<or>
      n mod 10 = 5 \<or> n mod 10 = 6 \<or> n mod 10 = 7 \<or> n mod 10 = 8 \<or> n mod 10 = 9"
    by presburger
  then show ?thesis by (elim disjE) (simp_all add: rangeN_step_def digit_def isDigit_def)
qed

lemma rangeN_showNat: "foldl rangeN_step 0 (showNat n) = of_nat n"
proof (induction n rule: showNat.induct)
  case (1 n)
  show ?case
  proof (cases "n < 10")
    case True
    then show ?thesis by (simp add: showNat.simps [of n] rangeN_step_digit)
  next
    case False
    have "n = n div 10 * 10 + n mod 10" by simp
    then have "(of_nat n :: 64 word) = of_nat (n div 10) * 10 + of_nat (n mod 10)"
      by (metis of_nat_add of_nat_mult of_nat_numeral)
    with 1 False show ?thesis by (simp add: showNat.simps [of n] rangeN_step_digit)
  qed
qed

section \<open>Properties\<close>

text \<open>
  C27. With the setting \<open>n\<close>, written in decimal, a user is let in exactly when its hash modulo 100
  is at most \<open>n\<close>: the setting 0 still lets in the users that hash to 0, and 99 lets in all.
\<close>

theorem cut_range_is_share_of_users:
  assumes "n < 2 ^ 63" and "dcc_cutRange s = showNat n"
  shows "IsCutRange s userID \<longleftrightarrow> unat (fnv32a userID) mod 100 \<le> n"
proof -
  have "sint (of_nat n :: 64 word) = int n"
    using assms(1) by (simp add: signed_of_nat signed_take_bit_int_eq_self)
  then have "IsCutRange s userID \<longleftrightarrow> int (unat (fnv32a userID)) mod 100 \<le> int n"
    unfolding IsCutRange_def Let_def assms(2) rangeN_showNat by simp
  also have "int (unat (fnv32a userID)) mod 100 = int (unat (fnv32a userID) mod 100)" by (simp add: zmod_int)
  finally show ?thesis by simp
qed

lemma cut_range_witness:
  "IsCutRange (dcc_New ''0'' ''99'' '''' ''0'') ''u1''"
proof -
  have "showNat 99 = ''99''" by (simp add: showNat.simps digit_def)
  then show ?thesis
    using cut_range_is_share_of_users [of 99 "dcc_New ''0'' ''99'' '''' ''0''" "''u1''"]
    by (simp add: dcc_New_def less_Suc_eq_le [symmetric])
qed

text \<open>
  The decimal loop that builds the Redis keys gives the decimal notation of every 64-bit number,
  but for the least one, of which it gives the sign alone.
\<close>

lemma itoa_is_decimal: "itoa v = (if v = int64_min then ''-'' else showInt (sint v))"
  using itoa_min itoa_showInt by simp

text \<open>
  C28. When every change has been broadcast and delivered, whatever the order of updates, broadcasts
  and deliveries, two instances hold the same value of a setting that was changed, or that they
  started with alike.
\<close>

theorem instances_agree_when_quiet:
  assumes reach: "(dcc_step n)\<^sup>*\<^sup>* (cluster_start d0) s" and quiet: "cluster_quiet n s"
    and ij: "i < n" "j < n" and k: "dcc_known k"
    and start: "dcc_get (d0 i) k = dcc_get (d0 j) k \<or> k \<in> doc_keys (cl_log s)"
  shows "dcc_get (cl_inst s i) k = dcc_get (cl_inst s j) k"
proof -
  have get: "dcc_get (cl_inst s m) k =
      (case last_write (map doc_write (cl_log s)) k of Some v \<Rightarrow> v | None \<Rightarrow> dcc_get (d0 m) k)" if "m < n" for m
  proof -
    have "inst_inv (d0 m) (cl_inst s m) (cl_pend s m) (cl_log s) (cl_seen s m)"
      using cluster_inv_reach [OF reach] that by (simp add: cluster_inv_def)
    moreover have "cl_pend s m = []" "cl_seen s m = length (cl_log s)"
      using quiet that by (simp_all add: cluster_quiet_def)
    ultimately show ?thesis using k by (simp add: inst_inv_def)
  qed
  show ?thesis
  proof (cases "last_write (map doc_write (cl_log s)) k")
    case None
    then have "k \<notin> doc_keys (cl_log s)" by (simp add: last_write_None_iff)
    with start have "dcc_get (d0 i) k = dcc_get (d0 j) k" by blast
    then show ?thesis using get [OF ij(1)] get [OF ij(2)] None by simp
  next
    case (Some v)
    then show ?thesis using get [OF ij(1)] get [OF ij(2)] by simp
  qed
qed

text \<open>One of two instances changes the share of users; the change is broadcast and reaches both.\<close>

definition ex_inst :: "nat \<Rightarrow> dcc" where
  "ex_inst i = EnableBroadcast True '''' '''' (dcc_New ''0'' ''100'' '''' ''0'')"

lemma ex_update:
  "\<exists>d m. Update ''cutRange'' ''50'' (ex_inst 0) = (d, Some m)"
  by (simp add: Update_def broadcast_def ex_inst_def EnableBroadcast_def dcc_New_def applyLocal_def Let_def DefaultChannel_def)

lemma instances_agree_witness:
  "\<exists>s. (dcc_step 2)\<^sup>*\<^sup>* (cluster_start ex_inst) s \<and> length (cl_log s) = 1 \<and>
     dcc_get (cl_inst s 0) ''cutRange'' = dcc_get (cl_inst s 1) ''cutRange''"
proof -
  from ex_update obtain d m where u: "Update ''cutRange'' ''50'' (ex_inst 0) = (d, Some m)" by blast
  let ?s0 = "cluster_start ex_inst"
  let ?s1 = "?s0\<lparr>cl_inst := (cl_inst ?s0)(0 := d), cl_pend := (cl_pend ?s0)(0 := cl_pend ?s0 0 @ [m])\<rparr>"
  let ?s2 = "?s1\<lparr>cl_pend := (cl_pend ?s1)(0 := [] @ []), cl_log := cl_log ?s1 @ [m]\<rparr>"
  let ?go = "\<lambda>i s. s\<lparr>cl_inst := (cl_inst s)(i := dcc_handler (Some (snd (cl_log s ! cl_seen s i))) (cl_inst s i)),
          cl_seen := (cl_seen s)(i := Suc (cl_seen s i))\<rparr>"
  have "dcc_step 2 ?s0 ?s1" by (rule dcc_step.update) (use u in \<open>simp_all add: cluster_start_def\<close>)
  moreover have "dcc_step 2 ?s1 ?s2" by (rule dcc_step.publish) (simp_all add: cluster_start_def)
  moreover have "dcc_step 2 ?s2 (?go 0 ?s2)" by (rule dcc_step.deliver) (simp_all add: cluster_start_def)
  moreover have "dcc_step 2 (?go 0 ?s2) (?go 1 (?go 0 ?s2))" by (rule dcc_step.deliver) (simp_all add: cluster_start_def)
  ultimately have reach: "(dcc_step 2)\<^sup>*\<^sup>* ?s0 (?go 1 (?go 0 ?s2))"
    by (meson converse_rtranclp_into_rtranclp r_into_rtranclp)
  have quiet: "cluster_quiet 2 (?go 1 (?go 0 ?s2))"
    by (auto simp: cluster_quiet_def cluster_start_def less_2_cases_iff)
  have len: "length (cl_log (?go 1 (?go 0 ?s2))) = 1" by (simp add: cluster_start_def)
  have "dcc_get (cl_inst (?go 1 (?go 0 ?s2)) 0) ''cutRange'' = dcc_get (cl_inst (?go 1 (?go 0 ?s2)) 1) ''cutRange''"
    by (rule instances_agree_when_quiet [OF reach quiet]) (simp_all add: dcc_known_def ex_inst_def)
  with reach len show ?thesis by blast
qed

end
