(* ===== verification/Design.thy ===== *)
theory Design
  imports Prelude
begin

text \<open>
  \<open>internal/design\<close>: the chain of responsibility the rule filters are built on, and the router of
  the strategy tree.

  A handler is its \<open>Apply\<close>, given what \<open>Next\<close> does; the container wires the handlers through
  their \<open>next\<close> pointers (a partial function on handler numbers, \<open>SetNext\<close> an update of it), and
  \<open>Apply\<close> starts at the head. Following the pointers round a cycle never ends in Go; here a depth
  bound ends it with a panic, and \<open>chain_Apply_foldr\<close> shows that the wiring of distinct handlers
  needs no more than their number. The dynamic context is passed forward, as the code uses it.
\<close>

section \<open>The chain\<close>

type_synonym ('q, 'c, 'w, 'r) applier = "'q \<Rightarrow> 'c \<Rightarrow> ('w, 'r) go"
type_synonym ('q, 'c, 'w, 'r) handler = "('q, 'c, 'w, 'r) applier \<Rightarrow> ('q, 'c, 'w, 'r) applier"

definition SetNext :: "nat \<Rightarrow> nat \<Rightarrow> (nat \<rightharpoonup> nat) \<Rightarrow> (nat \<rightharpoonup> nat)" where
  "SetNext h nxt next = next(h \<mapsto> nxt)"

text \<open>The zero result of \<open>Next\<close> and of an empty list.\<close>

definition zero_apply :: "'r \<Rightarrow> ('q, 'c, 'w, 'r) applier" where
  "zero_apply z q c = go_ret z"

fun handler_Apply ::
    "nat \<Rightarrow> (nat \<Rightarrow> ('q, 'c, 'w, 'r) handler) \<Rightarrow> (nat \<rightharpoonup> nat) \<Rightarrow> 'r \<Rightarrow> nat \<Rightarrow> ('q, 'c, 'w, 'r) applier" where
  "handler_Apply 0 H next z h = (\<lambda>q c. go_err (Panic ''stack overflow''))"
| "handler_Apply (Suc n) H next z h =
     H h (case next h of None \<Rightarrow> zero_apply z | Some h' \<Rightarrow> handler_Apply n H next z h')"

fun link :: "nat list \<Rightarrow> (nat \<rightharpoonup> nat) \<Rightarrow> (nat \<rightharpoonup> nat)" where
  "link (h # h' # hs) next = link (h' # hs) (SetNext h h' next)"
| "link _ next = next"

record LinkedList =
  ll_head :: "nat option"
  ll_next :: "nat \<rightharpoonup> nat"
  ll_name :: string

definition NewLinkedList :: "string \<Rightarrow> nat list \<Rightarrow> LinkedList" where
  "NewLinkedList name handlers =
     (if length handlers = 0 then \<lparr>ll_head = None, ll_next = Map.empty, ll_name = name\<rparr>
      else \<lparr>ll_head = Some (handlers ! 0), ll_next = link handlers Map.empty, ll_name = name\<rparr>)"

definition LinkedList_Apply ::
    "nat \<Rightarrow> (nat \<Rightarrow> ('q, 'c, 'w, 'r) handler) \<Rightarrow> 'r \<Rightarrow> LinkedList \<Rightarrow> ('q, 'c, 'w, 'r) applier" where
  "LinkedList_Apply depth H z l =
     (case ll_head l of None \<Rightarrow> zero_apply z | Some h \<Rightarrow> handler_Apply depth H (ll_next l) z h)"

definition LinkedList_Name :: "LinkedList \<Rightarrow> string" where
  "LinkedList_Name l = ll_name l"

text \<open>A chain of fresh handlers, as the rule filters build theirs: \<open>&F1{}, &F2{}, ...\<close>.\<close>

definition chain_of :: "string \<Rightarrow> 'r \<Rightarrow> ('q, 'c, 'w, 'r) handler list \<Rightarrow> ('q, 'c, 'w, 'r) applier" where
  "chain_of name z handlers =
     LinkedList_Apply (length handlers) (\<lambda>i. handlers ! i) z (NewLinkedList name [0..<length handlers])"

section \<open>The wiring is the order of the list\<close>

lemma link_outside: "k \<notin> set hs \<Longrightarrow> link hs next k = next k"
  by (induction hs "next" rule: link.induct) (auto simp: SetNext_def)

lemma link_last: "hs \<noteq> [] \<Longrightarrow> distinct hs \<Longrightarrow> link hs next (last hs) = next (last hs)"
  by (induction hs "next" rule: link.induct) (auto simp: SetNext_def)

lemma handler_Apply_link:
  assumes "distinct (h # hs)" and "length (h # hs) \<le> n" and "\<And>k. k \<in> set (h # hs) \<Longrightarrow> next k = None"
  shows "handler_Apply n H (link (h # hs) next) z h = foldr (\<lambda>k. H k) (h # hs) (zero_apply z)"
  using assms
proof (induction hs arbitrary: h n "next")
  case Nil
  then obtain m where "n = Suc m" by (cases n) auto
  with Nil show ?case by simp
next
  case (Cons h' hs)
  then obtain m where n: "n = Suc m" by (cases n) auto
  have "link (h' # hs) (SetNext h h' next) h = Some h'"
    using Cons.prems(1) by (simp add: link_outside SetNext_def)
  moreover have "handler_Apply m H (link (h' # hs) (SetNext h h' next)) z h' =
      foldr (\<lambda>k. H k) (h' # hs) (zero_apply z)"
    by (rule Cons.IH) (use Cons.prems n in \<open>auto simp: SetNext_def\<close>)
  ultimately show ?case using n by simp
qed

lemma chain_Apply_foldr:
  assumes "distinct handlers" and "length handlers \<le> depth"
  shows "LinkedList_Apply depth H z (NewLinkedList name handlers) =
    foldr (\<lambda>h. H h) handlers (zero_apply z)"
proof (cases handlers)
  case Nil
  then show ?thesis by (simp add: LinkedList_Apply_def NewLinkedList_def)
next
  case (Cons h hs)
  with assms handler_Apply_link [of h hs depth Map.empty H z] show ?thesis
    by (simp add: LinkedList_Apply_def NewLinkedList_def)
qed

lemma foldr_nth: "foldr (\<lambda>i. xs ! i) [0..<length xs] z = foldr (\<lambda>f. f) xs z"
proof (induction xs)
  case (Cons x xs)
  have "foldr (\<lambda>i. (x # xs) ! i) [0..<length (x # xs)] z
      = x (foldr (\<lambda>i. (x # xs) ! i) (map Suc [0..<length xs]) z)"
    by (simp add: upt_conv_Cons map_Suc_upt del: upt_Suc)
  also have "foldr (\<lambda>i. (x # xs) ! i) (map Suc [0..<length xs]) z = foldr (\<lambda>i. xs ! i) [0..<length xs] z"
    by (simp add: foldr_map comp_def)
  finally show ?case by (simp add: Cons.IH)
qed simp

lemma chain_of_foldr: "chain_of name z handlers = foldr (\<lambda>f. f) handlers (zero_apply z)"
  unfolding chain_of_def by (subst chain_Apply_foldr) (simp_all add: foldr_nth)

section \<open>The strategy tree\<close>

record ('q, 'c, 'w, 'r) router =
  rt_DoApply :: "('q, 'c, 'w, 'r) applier"
  rt_GetNext :: "'q \<Rightarrow> 'c \<Rightarrow> ('w, ('q, 'c, 'w, 'r) applier option) go"
  rt_MultiThread :: "('q \<Rightarrow> 'c \<Rightarrow> ('w, 'c) go) option"

definition router_Apply :: "('q, 'c, 'w, 'r) router \<Rightarrow> ('q, 'c, 'w, 'r) applier" where
  "router_Apply r q c =
     (case rt_MultiThread r of
        None \<Rightarrow> rt_DoApply r q c
      | Some load \<Rightarrow> go_bind (load q c) (\<lambda>c. rt_DoApply r q c))"

definition router_Router :: "'r \<Rightarrow> ('q, 'c, 'w, 'r) router \<Rightarrow> ('q, 'c, 'w, 'r) applier" where
  "router_Router z r q c =
     go_bind (rt_GetNext r q c) (\<lambda>next. case next of None \<Rightarrow> go_ret z | Some h \<Rightarrow> h q c)"

definition DefaultNilHandler :: "'r \<Rightarrow> ('q, 'c, 'w, 'r) applier" where
  "DefaultNilHandler z q c = go_ret z"

section \<open>Properties\<close>

text \<open>
  A chain built from distinct handlers runs them in the order they were given, each with the
  rest of the list as its \<open>Next\<close>, and ends in the zero result; a depth of the number of handlers
  is enough.
\<close>

lemma linked_list_is_composition:
  assumes "distinct handlers" and "length handlers \<le> depth"
  shows "LinkedList_Apply depth H z (NewLinkedList name handlers) q c w =
    foldr (\<lambda>h. H h) handlers (zero_apply z) q c w"
  by (simp add: chain_Apply_foldr [OF assms])

lemma linked_list_witness:
  "LinkedList_Apply 2 (\<lambda>h next q c w. next (q + h) (h # c) w) (0::nat)
     (NewLinkedList ''c'' [7, 3]) (1::nat) ([]::nat list) () = (Inr 0, ())"
  using linked_list_is_composition [of "[7, 3]" 2
      "\<lambda>h next q c w. next (q + h) (h # c) w" "0::nat" "''c''" "1::nat" "[]::nat list" "()"]
  by (simp add: zero_apply_def)

end
