(* ===== verification/Tables.thy ===== *)
theory Tables
  imports Trade_Model
begin

text \<open>
  The rows of \<open>internal/infrastructure/dao/po/models.go\<close>, one record per table of
  \<open>scripts/sql/group_buy_market.sql\<close>, and the database as its tables. A table is the list of its
  rows in the order of their primary key. A nullable column is an \<open>option\<close>.
\<close>

record GroupBuyActivity =
  a_ID :: nat
  a_ActivityID :: int64
  a_ActivityName :: string
  a_DiscountID :: string
  a_GroupType :: int
  a_TakeLimitCount :: int
  a_Target :: int
  a_ValidTime :: int
  a_Status :: int
  a_StartTime :: time
  a_EndTime :: time
  a_TagID :: string
  a_TagScope :: string
  a_CreateTime :: time
  a_UpdateTime :: time

record GroupBuyDiscountRow =
  dr_ID :: nat
  dr_DiscountID :: string
  dr_DiscountName :: string
  dr_DiscountDesc :: string
  dr_DiscountType :: int
  dr_MarketPlan :: string
  dr_MarketExpr :: string
  dr_TagID :: string
  dr_CreateTime :: time
  dr_UpdateTime :: time

record Sku =
  sku_ID :: nat
  sku_Source :: string
  sku_Channel :: string
  sku_GoodsID :: string
  sku_GoodsName :: string
  sku_OriginalPrice :: decimal
  sku_CreateTime :: time
  sku_UpdateTime :: time

record SCSkuActivity =
  sca_ID :: nat
  sca_Source :: string
  sca_Channel :: string
  sca_ActivityID :: int64
  sca_GoodsID :: string
  sca_CreateTime :: time
  sca_UpdateTime :: time

record GroupBuyOrder =
  o_ID :: nat
  o_TeamID :: string
  o_ActivityID :: int64
  o_Source :: string
  o_Channel :: string
  o_OriginalPrice :: decimal
  o_DeductionPrice :: decimal
  o_PayPrice :: decimal
  o_TargetCount :: int
  o_CompleteCount :: int
  o_LockCount :: int
  o_Status :: int
  o_ValidStartTime :: time
  o_ValidEndTime :: time
  o_NotifyType :: string
  o_NotifyURL :: "string option"
  o_CreateTime :: time
  o_UpdateTime :: time

record GroupBuyOrderList =
  l_ID :: nat
  l_UserID :: string
  l_TeamID :: string
  l_OrderID :: string
  l_ActivityID :: int64
  l_StartTime :: time
  l_EndTime :: time
  l_GoodsID :: string
  l_Source :: string
  l_Channel :: string
  l_OriginalPrice :: decimal
  l_DeductionPrice :: decimal
  l_PayPrice :: decimal
  l_Status :: int
  l_OutTradeNo :: string
  l_OutTradeTime :: "time option"
  l_BizID :: string
  l_CreateTime :: time
  l_UpdateTime :: time

record NotifyTask =
  t_ID :: nat
  t_ActivityID :: int64
  t_TeamID :: string
  t_NotifyCategory :: "string option"
  t_NotifyType :: string
  t_NotifyMQ :: "string option"
  t_NotifyURL :: "string option"
  t_NotifyCount :: int
  t_NotifyStatus :: int
  t_ParameterJSON :: json
  t_UUID :: string
  t_CreateTime :: time
  t_UpdateTime :: time

record CrowdTags =
  ct_ID :: nat
  ct_TagID :: string
  ct_TagName :: string
  ct_TagDesc :: string
  ct_Statistics :: int
  ct_CreateTime :: time
  ct_UpdateTime :: time

record CrowdTagsDetail =
  cd_ID :: nat
  cd_TagID :: string
  cd_UserID :: string
  cd_CreateTime :: time
  cd_UpdateTime :: time

record CrowdTagsJob =
  cj_ID :: nat
  cj_TagID :: string
  cj_BatchID :: string
  cj_TagType :: int
  cj_TagRule :: string
  cj_StatStartTime :: time
  cj_StatEndTime :: time
  cj_Status :: int
  cj_CreateTime :: time
  cj_UpdateTime :: time

record db =
  db_activities :: "GroupBuyActivity list"
  db_discounts :: "GroupBuyDiscountRow list"
  db_skus :: "Sku list"
  db_scskus :: "SCSkuActivity list"
  db_orders :: "GroupBuyOrder list"
  db_lists :: "GroupBuyOrderList list"
  db_tasks :: "NotifyTask list"
  db_ctags :: "CrowdTags list"
  db_cdetails :: "CrowdTagsDetail list"
  db_cjobs :: "CrowdTagsJob list"

end
