(* ===== verification/Mysql.thy ===== *)
theory Mysql
  imports Tables
begin

text \<open>
  The database access the repositories are written against (gorm over MySQL). Neither is part of
  the repository, so the calls the code makes are parameters: a record with one operation per gorm
  call, for each table, taking the \<open>WHERE\<close> condition of the source as a predicate on rows and its
  \<open>SET\<close> list as a function on rows. What the code relies on is stated in \<open>gorm_ok\<close>, \<open>txn_ok\<close> and
  \<open>mysql_ok\<close>: a statement that reports success did what its documentation says, a transaction
  whose closure fails is rolled back. \<open>mysql_up\<close> says besides that no call fails for a reason of
  its own. String columns are compared by the collation, whose key of a string is \<open>my_ck\<close>.

  \<open>refMySQL\<close> is a concrete database that meets both, for closed instances of the theorems.
\<close>

section \<open>The calls\<close>

datatype gorm_err = ErrRecordNotFound | DbError string

datatype row_order = Unordered | IdAsc | IdDesc

record 'row gorm_table =
  g_Create :: "'row \<Rightarrow> 'row list \<Rightarrow> string + 'row list"
  g_Updates :: "('row \<Rightarrow> bool) \<Rightarrow> ('row \<Rightarrow> 'row) \<Rightarrow> 'row list \<Rightarrow> string + ('row list \<times> int)"
  g_First :: "('row \<Rightarrow> bool) \<Rightarrow> 'row list \<Rightarrow> gorm_err + 'row"
  g_Find :: "('row \<Rightarrow> bool) \<Rightarrow> row_order \<Rightarrow> nat option \<Rightarrow> 'row list \<Rightarrow> string + 'row list"
  g_Count :: "('row \<Rightarrow> bool) \<Rightarrow> 'row list \<Rightarrow> string + nat"

type_synonym 'a txn = "(db, 'a) go \<Rightarrow> (db, 'a) go"

record mysql =
  my_ck :: "string \<Rightarrow> string"
  my_activities :: "GroupBuyActivity gorm_table"
  my_discounts :: "GroupBuyDiscountRow gorm_table"
  my_skus :: "Sku gorm_table"
  my_scskus :: "SCSkuActivity gorm_table"
  my_orders :: "GroupBuyOrder gorm_table"
  my_lists :: "GroupBuyOrderList gorm_table"
  my_tasks :: "NotifyTask gorm_table"
  my_ctags :: "CrowdTags gorm_table"
  my_cdetails :: "CrowdTagsDetail gorm_table"
  my_cjobs :: "CrowdTagsJob gorm_table"
  my_txOrder :: "MarketPayOrderEntity txn"
  my_txTask :: "NotifyTaskEntity option txn"

definition sqlEq :: "mysql \<Rightarrow> string \<Rightarrow> string \<Rightarrow> bool" where
  "sqlEq M a b \<longleftrightarrow> my_ck M a = my_ck M b"

lemma sqlEq_refl [simp]: "sqlEq M a a"
  by (simp add: sqlEq_def)

lemma sqlEq_sym: "sqlEq M a b = sqlEq M b a"
  by (auto simp: sqlEq_def)

lemma sqlEq_trans: "sqlEq M a b \<Longrightarrow> sqlEq M b c \<Longrightarrow> sqlEq M a c"
  by (simp add: sqlEq_def)

section \<open>What the code relies on\<close>

text \<open>
  \<open>clash r x\<close>: a unique key of the table forbids the row \<open>r\<close> beside \<open>x\<close>. \<open>RowsAffected\<close> of MySQL
  counts the rows a statement changed.
\<close>

definition find_ok :: "('row \<Rightarrow> bool) \<Rightarrow> row_order \<Rightarrow> nat option \<Rightarrow> 'row list \<Rightarrow> 'row list \<Rightarrow> bool" where
  "find_ok P ord lim t rs \<longleftrightarrow>
     (case ord of
        IdAsc \<Rightarrow> rs = (case lim of None \<Rightarrow> filter P t | Some n \<Rightarrow> take n (filter P t))
      | IdDesc \<Rightarrow> rs = (case lim of None \<Rightarrow> rev (filter P t) | Some n \<Rightarrow> take n (rev (filter P t)))
      | Unordered \<Rightarrow>
          mset rs \<subseteq># mset (filter P t) \<and>
          length rs = (case lim of None \<Rightarrow> cnt P t | Some n \<Rightarrow> min n (cnt P t)))"

definition gorm_ok ::
    "('row \<Rightarrow> nat) \<Rightarrow> (nat \<Rightarrow> 'row \<Rightarrow> 'row) \<Rightarrow> ('row \<Rightarrow> 'row \<Rightarrow> bool) \<Rightarrow> 'row gorm_table \<Rightarrow> bool" where
  "gorm_ok ident setid clash G \<longleftrightarrow>
     (\<forall>r t t'. g_Create G r t = Inr t' \<longrightarrow>
        (\<exists>i. (\<forall>x \<in> set t. ident x < i) \<and> t' = t @ [setid i r]) \<and> (\<forall>x \<in> set t. \<not> clash r x)) \<and>
     (\<forall>P f t t' n. g_Updates G P f t = Inr (t', n) \<longrightarrow>
        t' = upd_where P f t \<and> n = int (cnt (\<lambda>r. P r \<and> f r \<noteq> r) t)) \<and>
     (\<forall>P t r. g_First G P t = Inr r \<longrightarrow> find P t = Some r) \<and>
     (\<forall>P t. g_First G P t = Inl ErrRecordNotFound \<longrightarrow> find P t = None) \<and>
     (\<forall>P ord lim t rs. g_Find G P ord lim t = Inr rs \<longrightarrow> find_ok P ord lim t rs) \<and>
     (\<forall>P t n. g_Count G P t = Inr n \<longrightarrow> n = cnt P t)"

definition gorm_up :: "('row \<Rightarrow> 'row \<Rightarrow> bool) \<Rightarrow> 'row gorm_table \<Rightarrow> bool" where
  "gorm_up clash G \<longleftrightarrow>
     (\<forall>r t. (\<forall>x \<in> set t. \<not> clash r x) \<longrightarrow> (\<exists>t'. g_Create G r t = Inr t')) \<and>
     (\<forall>P f t. \<exists>x. g_Updates G P f t = Inr x) \<and>
     (\<forall>P t m. g_First G P t \<noteq> Inl (DbError m)) \<and>
     (\<forall>P ord lim t. \<exists>rs. g_Find G P ord lim t = Inr rs) \<and>
     (\<forall>P t. \<exists>n. g_Count G P t = Inr n)"

definition txn_ok :: "'a txn \<Rightarrow> bool" where
  "txn_ok TX \<longleftrightarrow>
     (\<forall>body d.
        (\<forall>e d'. body d = (Inl e, d') \<longrightarrow> TX body d = (Inl e, d)) \<and>
        (\<forall>x d'. body d = (Inr x, d') \<longrightarrow>
           TX body d = (Inr x, d') \<or> (\<exists>m. TX body d = (Inl (OtherError m), d))))"

definition txn_up :: "'a txn \<Rightarrow> bool" where
  "txn_up TX \<longleftrightarrow> (\<forall>body d x d'. body d = (Inr x, d') \<longrightarrow> TX body d = (Inr x, d'))"

text \<open>The unique keys of \<open>scripts/sql/group_buy_market.sql\<close>.\<close>

definition order_clash :: "mysql \<Rightarrow> GroupBuyOrder \<Rightarrow> GroupBuyOrder \<Rightarrow> bool" where
  "order_clash M r x \<longleftrightarrow> sqlEq M (o_TeamID r) (o_TeamID x)"

definition list_clash :: "mysql \<Rightarrow> GroupBuyOrderList \<Rightarrow> GroupBuyOrderList \<Rightarrow> bool" where
  "list_clash M r x \<longleftrightarrow> sqlEq M (l_OrderID r) (l_OrderID x) \<or> sqlEq M (l_BizID r) (l_BizID x)"

definition cdetail_clash :: "mysql \<Rightarrow> CrowdTagsDetail \<Rightarrow> CrowdTagsDetail \<Rightarrow> bool" where
  "cdetail_clash M r x \<longleftrightarrow> sqlEq M (cd_TagID r) (cd_TagID x) \<and> sqlEq M (cd_UserID r) (cd_UserID x)"

definition no_clash :: "'row \<Rightarrow> 'row \<Rightarrow> bool" where
  "no_clash r x \<longleftrightarrow> False"

definition mysql_ok :: "mysql \<Rightarrow> bool" where
  "mysql_ok M \<longleftrightarrow>
     gorm_ok o_ID (\<lambda>i. o_ID_update (\<lambda>_. i)) (order_clash M) (my_orders M) \<and>
     gorm_ok l_ID (\<lambda>i. l_ID_update (\<lambda>_. i)) (list_clash M) (my_lists M) \<and>
     gorm_ok t_ID (\<lambda>i. t_ID_update (\<lambda>_. i)) no_clash (my_tasks M) \<and>
     gorm_ok a_ID (\<lambda>i. a_ID_update (\<lambda>_. i))
       (\<lambda>r x. a_ActivityID r = a_ActivityID x) (my_activities M) \<and>
     gorm_ok dr_ID (\<lambda>i. dr_ID_update (\<lambda>_. i))
       (\<lambda>r x. sqlEq M (dr_DiscountID r) (dr_DiscountID x)) (my_discounts M) \<and>
     gorm_ok sku_ID (\<lambda>i. sku_ID_update (\<lambda>_. i))
       (\<lambda>r x. sqlEq M (sku_GoodsID r) (sku_GoodsID x)) (my_skus M) \<and>
     gorm_ok sca_ID (\<lambda>i. sca_ID_update (\<lambda>_. i))
       (\<lambda>r x. sqlEq M (sca_Source r) (sca_Source x) \<and> sqlEq M (sca_Channel r) (sca_Channel x) \<and>
              sqlEq M (sca_GoodsID r) (sca_GoodsID x)) (my_scskus M) \<and>
     gorm_ok ct_ID (\<lambda>i. ct_ID_update (\<lambda>_. i))
       (\<lambda>r x. sqlEq M (ct_TagID r) (ct_TagID x)) (my_ctags M) \<and>
     gorm_ok cd_ID (\<lambda>i. cd_ID_update (\<lambda>_. i)) (cdetail_clash M) (my_cdetails M) \<and>
     gorm_ok cj_ID (\<lambda>i. cj_ID_update (\<lambda>_. i))
       (\<lambda>r x. sqlEq M (cj_BatchID r) (cj_BatchID x)) (my_cjobs M) \<and>
     txn_ok (my_txOrder M) \<and> txn_ok (my_txTask M)"

definition mysql_up :: "mysql \<Rightarrow> bool" where
  "mysql_up M \<longleftrightarrow>
     gorm_up (order_clash M) (my_orders M) \<and> gorm_up (list_clash M) (my_lists M) \<and>
     gorm_up no_clash (my_tasks M) \<and>
     gorm_up (\<lambda>r x. a_ActivityID r = a_ActivityID x) (my_activities M) \<and>
     gorm_up (\<lambda>r x. sqlEq M (dr_DiscountID r) (dr_DiscountID x)) (my_discounts M) \<and>
     gorm_up (\<lambda>r x. sqlEq M (sku_GoodsID r) (sku_GoodsID x)) (my_skus M) \<and>
     gorm_up (\<lambda>r x. sqlEq M (sca_Source r) (sca_Source x) \<and> sqlEq M (sca_Channel r) (sca_Channel x) \<and>
              sqlEq M (sca_GoodsID r) (sca_GoodsID x)) (my_scskus M) \<and>
     gorm_up (\<lambda>r x. sqlEq M (ct_TagID r) (ct_TagID x)) (my_ctags M) \<and>
     gorm_up (cdetail_clash M) (my_cdetails M) \<and>
     gorm_up (\<lambda>r x. sqlEq M (cj_BatchID r) (cj_BatchID x)) (my_cjobs M) \<and>
     txn_up (my_txOrder M) \<and> txn_up (my_txTask M)"

section \<open>Statements as effects on the database\<close>

text \<open>
  \<open>First\<close> with the code's two tests after it: \<open>errors.Is(err, gorm.ErrRecordNotFound)\<close> gives nil,
  any other error is returned.
\<close>

definition dbFirst ::
    "(db \<Rightarrow> 'row list) \<Rightarrow> 'row gorm_table \<Rightarrow> ('row \<Rightarrow> bool) \<Rightarrow> (db, 'row option) go" where
  "dbFirst tab G P d =
     (case g_First G P (tab d) of
        Inr r \<Rightarrow> (Inr (Some r), d)
      | Inl ErrRecordNotFound \<Rightarrow> (Inr None, d)
      | Inl (DbError m) \<Rightarrow> (Inl (OtherError m), d))"

definition dbFind ::
    "(db \<Rightarrow> 'row list) \<Rightarrow> 'row gorm_table \<Rightarrow> ('row \<Rightarrow> bool) \<Rightarrow> row_order \<Rightarrow> nat option \<Rightarrow>
     (db, 'row list) go" where
  "dbFind tab G P ord lim d =
     (case g_Find G P ord lim (tab d) of Inr rs \<Rightarrow> (Inr rs, d) | Inl m \<Rightarrow> (Inl (OtherError m), d))"

definition dbCount ::
    "(db \<Rightarrow> 'row list) \<Rightarrow> 'row gorm_table \<Rightarrow> ('row \<Rightarrow> bool) \<Rightarrow> (db, nat) go" where
  "dbCount tab G P d =
     (case g_Count G P (tab d) of Inr n \<Rightarrow> (Inr n, d) | Inl m \<Rightarrow> (Inl (OtherError m), d))"

definition dbUpdates ::
    "(db \<Rightarrow> 'row list) \<Rightarrow> ('row list \<Rightarrow> db \<Rightarrow> db) \<Rightarrow> 'row gorm_table \<Rightarrow>
     ('row \<Rightarrow> bool) \<Rightarrow> ('row \<Rightarrow> 'row) \<Rightarrow> (db, int) go" where
  "dbUpdates tab put G P f d =
     (case g_Updates G P f (tab d) of
        Inr (t, n) \<Rightarrow> (Inr n, put t d)
      | Inl m \<Rightarrow> (Inl (OtherError m), d))"

definition dbCreate ::
    "(db \<Rightarrow> 'row list) \<Rightarrow> ('row list \<Rightarrow> db \<Rightarrow> db) \<Rightarrow> 'row gorm_table \<Rightarrow> 'row \<Rightarrow> (db, unit) go" where
  "dbCreate tab put G r d =
     (case g_Create G r (tab d) of
        Inr t \<Rightarrow> (Inr (), put t d)
      | Inl m \<Rightarrow> (Inl (OtherError m), d))"

abbreviation put_orders :: "GroupBuyOrder list \<Rightarrow> db \<Rightarrow> db" where
  "put_orders t d \<equiv> d\<lparr>db_orders := t\<rparr>"

abbreviation put_lists :: "GroupBuyOrderList list \<Rightarrow> db \<Rightarrow> db" where
  "put_lists t d \<equiv> d\<lparr>db_lists := t\<rparr>"

abbreviation put_tasks :: "NotifyTask list \<Rightarrow> db \<Rightarrow> db" where
  "put_tasks t d \<equiv> d\<lparr>db_tasks := t\<rparr>"

lemma dbFirst_frame [go_frames]: "reads (dbFirst tab G P)" "no_panic (dbFirst tab G P)"
  by (auto simp: reads_def no_panic_def dbFirst_def split: sum.splits gorm_err.splits)

lemma dbFind_frame [go_frames]: "reads (dbFind tab G P ord lim)" "no_panic (dbFind tab G P ord lim)"
  by (auto simp: reads_def no_panic_def dbFind_def split: sum.splits)

lemma dbCount_frame [go_frames]: "reads (dbCount tab G P)" "no_panic (dbCount tab G P)"
  by (auto simp: reads_def no_panic_def dbCount_def split: sum.splits)

lemma dbUpdates_no_panic [go_frames]: "no_panic (dbUpdates tab put G P f)"
  by (auto simp: no_panic_def dbUpdates_def split: sum.splits)

lemma dbCreate_no_panic [go_frames]: "no_panic (dbCreate tab put G x)"
  by (auto simp: no_panic_def dbCreate_def split: sum.splits)

section \<open>Using the hypotheses\<close>

lemma gorm_Create:
  assumes "gorm_ok ident setid clash G" and "g_Create G r t = Inr t'"
  obtains i where "\<forall>x \<in> set t. ident x < i" "t' = t @ [setid i r]" "\<forall>x \<in> set t. \<not> clash r x"
proof -
  from assms have "(\<exists>i. (\<forall>x \<in> set t. ident x < i) \<and> t' = t @ [setid i r]) \<and> (\<forall>x \<in> set t. \<not> clash r x)"
    unfolding gorm_ok_def by (elim conjE) simp
  with that show ?thesis by blast
qed

lemma gorm_Updates:
  "gorm_ok ident setid clash G \<Longrightarrow> g_Updates G P f t = Inr (t', n) \<Longrightarrow>
     t' = upd_where P f t \<and> n = int (cnt (\<lambda>r. P r \<and> f r \<noteq> r) t)"
  unfolding gorm_ok_def by blast

lemma gorm_First: "gorm_ok ident setid clash G \<Longrightarrow> g_First G P t = Inr r \<Longrightarrow> find P t = Some r"
  unfolding gorm_ok_def by blast

lemma gorm_First_none:
  "gorm_ok ident setid clash G \<Longrightarrow> g_First G P t = Inl ErrRecordNotFound \<Longrightarrow> find P t = None"
  unfolding gorm_ok_def by blast

lemma gorm_Find: "gorm_ok ident setid clash G \<Longrightarrow> g_Find G P ord lim t = Inr rs \<Longrightarrow> find_ok P ord lim t rs"
  unfolding gorm_ok_def by blast

lemma gorm_Count: "gorm_ok ident setid clash G \<Longrightarrow> g_Count G P t = Inr n \<Longrightarrow> n = cnt P t"
  unfolding gorm_ok_def by blast

lemma dbFirst_cases:
  assumes "dbFirst tab G P d = (r, d')" and "gorm_ok ident setid clash G"
  obtains (err) m where "r = Inl (OtherError m)" "d' = d"
  | (none) "r = Inr None" "d' = d" "find P (tab d) = None"
  | (row) x where "r = Inr (Some x)" "d' = d" "find P (tab d) = Some x"
proof (cases "g_First G P (tab d)")
  case (Inl e)
  then show ?thesis using assms that
    by (cases e) (auto simp: dbFirst_def dest: gorm_First_none)
next
  case (Inr x)
  with gorm_First [OF assms(2) Inr] show ?thesis using assms(1) that(3) by (auto simp: dbFirst_def)
qed

lemma dbUpdates_cases:
  assumes "dbUpdates tab put G P f d = (r, d')" and "gorm_ok ident setid clash G"
  obtains (err) m where "r = Inl (OtherError m)" "d' = d"
  | (ran) "r = Inr (int (cnt (\<lambda>r. P r \<and> f r \<noteq> r) (tab d)))" "d' = put (upd_where P f (tab d)) d"
proof (cases "g_Updates G P f (tab d)")
  case (Inl m)
  then show ?thesis using assms that(1) by (auto simp: dbUpdates_def)
next
  case (Inr x)
  obtain t n where x: "x = (t, n)" by force
  with gorm_Updates [OF assms(2), of P f "tab d" t n] Inr show ?thesis
    using assms(1) that(2) by (auto simp: dbUpdates_def)
qed

lemma dbCreate_cases:
  assumes "dbCreate tab put G x d = (r, d')" and "gorm_ok ident setid clash G"
  obtains (err) m where "r = Inl (OtherError m)" "d' = d"
  | (ran) i where "r = Inr ()" "d' = put (tab d @ [setid i x]) d"
      "\<forall>y \<in> set (tab d). ident y < i" "\<forall>y \<in> set (tab d). \<not> clash x y"
proof (cases "g_Create G x (tab d)")
  case (Inl m)
  then show ?thesis using assms that(1) by (auto simp: dbCreate_def)
next
  case (Inr t)
  obtain i where "\<forall>y \<in> set (tab d). ident y < i" "t = tab d @ [setid i x]"
    "\<forall>y \<in> set (tab d). \<not> clash x y"
    using gorm_Create [OF assms(2) Inr] .
  with Inr show ?thesis using assms(1) that(2) by (auto simp: dbCreate_def)
qed

lemma dbFind_cases:
  assumes "dbFind tab G P ord lim d = (r, d')" and "gorm_ok ident setid clash G"
  obtains (err) m where "r = Inl (OtherError m)" "d' = d"
  | (rows) rs where "r = Inr rs" "d' = d" "find_ok P ord lim (tab d) rs"
proof (cases "g_Find G P ord lim (tab d)")
  case (Inl m)
  with assms(1) have "r = Inl (OtherError m)" "d' = d" by (auto simp: dbFind_def)
  then show ?thesis by (rule that(1))
next
  case (Inr rs)
  with gorm_Find [OF assms(2) Inr] have "r = Inr rs" "d' = d" "find_ok P ord lim (tab d) rs"
    using assms(1) by (auto simp: dbFind_def)
  then show ?thesis by (rule that(2))
qed

lemma dbCount_cases:
  assumes "dbCount tab G P d = (r, d')" and "gorm_ok ident setid clash G"
  obtains (err) m where "r = Inl (OtherError m)" "d' = d"
  | (num) "r = Inr (cnt P (tab d))" "d' = d"
proof (cases "g_Count G P (tab d)")
  case (Inl m)
  with assms(1) have "r = Inl (OtherError m)" "d' = d" by (auto simp: dbCount_def)
  then show ?thesis by (rule that(1))
next
  case (Inr n)
  with gorm_Count [OF assms(2) Inr] assms(1) have "r = Inr (cnt P (tab d))" "d' = d"
    by (auto simp: dbCount_def)
  then show ?thesis by (rule that(2))
qed

lemma txn_error: "txn_ok TX \<Longrightarrow> body d = (Inl e, d') \<Longrightarrow> TX body d = (Inl e, d)"
  unfolding txn_ok_def by blast

lemma txn_success:
  "txn_ok TX \<Longrightarrow> body d = (Inr x, d') \<Longrightarrow>
     TX body d = (Inr x, d') \<or> (\<exists>m. TX body d = (Inl (OtherError m), d))"
  unfolding txn_ok_def by blast

lemma txn_cases:
  assumes "txn_ok TX" and "TX body d = (r, d')"
  obtains (rolled) e where "r = Inl e" "d' = d"
  | (committed) x where "r = Inr x" "body d = (Inr x, d')"
proof -
  obtain q d1 where body: "body d = (q, d1)" by force
  show ?thesis
  proof (cases q)
    case (Inl e)
    with body have "TX body d = (Inl e, d)" by (intro txn_error [OF assms(1)]) simp
    with assms(2) that(1) show ?thesis by auto
  next
    case (Inr x)
    with body have "TX body d = (Inr x, d1) \<or> (\<exists>m. TX body d = (Inl (OtherError m), d))"
      by (intro txn_success [OF assms(1)]) simp
    with assms(2) body Inr that show ?thesis by auto
  qed
qed

lemma txn_commit: "txn_up TX \<Longrightarrow> body d = (Inr x, d') \<Longrightarrow> TX body d = (Inr x, d')"
  unfolding txn_up_def by blast

text \<open>Running a statement when the database is up.\<close>

lemma dbUpdates_up:
  assumes "gorm_ok ident setid clash G" and "gorm_up clash' G"
  shows "dbUpdates tab put G P f d =
    (Inr (int (cnt (\<lambda>r. P r \<and> f r \<noteq> r) (tab d))), put (upd_where P f (tab d)) d)"
proof -
  obtain x where "g_Updates G P f (tab d) = Inr x"
    using assms(2) unfolding gorm_up_def by blast
  moreover obtain t n where "x = (t, n)" by force
  ultimately show ?thesis
    using gorm_Updates [OF assms(1), of P f "tab d" t n] by (simp add: dbUpdates_def)
qed

lemma dbFind_up:
  assumes "gorm_ok ident setid clash G" and "gorm_up clash' G"
  shows "\<exists>rs. dbFind tab G P ord lim d = (Inr rs, d) \<and> find_ok P ord lim (tab d) rs"
proof -
  obtain rs where "g_Find G P ord lim (tab d) = Inr rs"
    using assms(2) unfolding gorm_up_def by blast
  with gorm_Find [OF assms(1)] show ?thesis by (auto simp: dbFind_def)
qed

lemma dbFirst_up:
  assumes "gorm_ok ident setid clash G" and "gorm_up clash' G"
  shows "dbFirst tab G P d = (Inr (find P (tab d)), d)"
proof (cases "g_First G P (tab d)")
  case (Inl e)
  then have "e = ErrRecordNotFound"
    using assms(2) unfolding gorm_up_def by (cases e) blast+
  with Inl gorm_First_none [OF assms(1)] show ?thesis by (simp add: dbFirst_def)
next
  case (Inr r)
  with gorm_First [OF assms(1)] show ?thesis by (simp add: dbFirst_def)
qed

lemma dbCount_up:
  assumes "gorm_ok ident setid clash G" and "gorm_up clash' G"
  shows "dbCount tab G P d = (Inr (cnt P (tab d)), d)"
proof -
  obtain n where "g_Count G P (tab d) = Inr n"
    using assms(2) unfolding gorm_up_def by blast
  with gorm_Count [OF assms(1)] show ?thesis by (simp add: dbCount_def)
qed

lemma dbCreate_up:
  assumes "gorm_ok ident setid clash G" and "gorm_up clash G" and "\<forall>x \<in> set (tab d). \<not> clash r x"
  obtains i where "dbCreate tab put G r d = (Inr (), put (tab d @ [setid i r]) d)"
proof -
  obtain t' where t': "g_Create G r (tab d) = Inr t'"
    using assms(2,3) unfolding gorm_up_def by blast
  then obtain i where "t' = tab d @ [setid i r]"
    using gorm_Create [OF assms(1)] by metis
  with t' show ?thesis by (intro that) (simp add: dbCreate_def)
qed

lemma mysql_okD:
  assumes "mysql_ok M"
  shows "gorm_ok o_ID (\<lambda>i. o_ID_update (\<lambda>_. i)) (order_clash M) (my_orders M)"
    and "gorm_ok l_ID (\<lambda>i. l_ID_update (\<lambda>_. i)) (list_clash M) (my_lists M)"
    and "gorm_ok t_ID (\<lambda>i. t_ID_update (\<lambda>_. i)) no_clash (my_tasks M)"
    and "gorm_ok a_ID (\<lambda>i. a_ID_update (\<lambda>_. i))
       (\<lambda>r x. a_ActivityID r = a_ActivityID x) (my_activities M)"
    and "gorm_ok cd_ID (\<lambda>i. cd_ID_update (\<lambda>_. i)) (cdetail_clash M) (my_cdetails M)"
    and "txn_ok (my_txOrder M)" and "txn_ok (my_txTask M)"
  using assms unfolding mysql_ok_def by blast+

lemma mysql_upD:
  assumes "mysql_up M"
  shows "gorm_up (order_clash M) (my_orders M)" and "gorm_up (list_clash M) (my_lists M)"
    and "gorm_up no_clash (my_tasks M)"
    and "gorm_up (\<lambda>r x. a_ActivityID r = a_ActivityID x) (my_activities M)"
    and "gorm_up (cdetail_clash M) (my_cdetails M)"
    and "txn_up (my_txOrder M)" and "txn_up (my_txTask M)"
  using assms unfolding mysql_up_def by blast+

section \<open>A concrete database\<close>

definition refTable ::
    "('row \<Rightarrow> nat) \<Rightarrow> (nat \<Rightarrow> 'row \<Rightarrow> 'row) \<Rightarrow> ('row \<Rightarrow> 'row \<Rightarrow> bool) \<Rightarrow> 'row gorm_table" where
  "refTable ident setid clash =
     \<lparr>g_Create = (\<lambda>r t.
        if list_ex (clash r) t then Inl ''Error 1062 (23000): Duplicate entry''
        else Inr (t @ [setid (Suc (foldr max (map ident t) 0)) r])),
      g_Updates = (\<lambda>P f t. Inr (upd_where P f t, int (cnt (\<lambda>r. P r \<and> f r \<noteq> r) t))),
      g_First = (\<lambda>P t. case find P t of None \<Rightarrow> Inl ErrRecordNotFound | Some r \<Rightarrow> Inr r),
      g_Find = (\<lambda>P ord lim t.
        let rs = (case ord of IdDesc \<Rightarrow> rev (filter P t) | _ \<Rightarrow> filter P t)
        in Inr (case lim of None \<Rightarrow> rs | Some n \<Rightarrow> take n rs)),
      g_Count = (\<lambda>P t. Inr (cnt P t))\<rparr>"

definition refTxn :: "'a txn" where
  "refTxn body d = (case body d of (Inl e, _) \<Rightarrow> (Inl e, d) | (Inr x, d') \<Rightarrow> (Inr x, d'))"

definition refMySQL :: mysql where
  "refMySQL =
     \<lparr>my_ck = (\<lambda>s. s),
      my_activities = refTable a_ID (\<lambda>i. a_ID_update (\<lambda>_. i)) (\<lambda>r x. a_ActivityID r = a_ActivityID x),
      my_discounts = refTable dr_ID (\<lambda>i. dr_ID_update (\<lambda>_. i)) (\<lambda>r x. dr_DiscountID r = dr_DiscountID x),
      my_skus = refTable sku_ID (\<lambda>i. sku_ID_update (\<lambda>_. i)) (\<lambda>r x. sku_GoodsID r = sku_GoodsID x),
      my_scskus = refTable sca_ID (\<lambda>i. sca_ID_update (\<lambda>_. i))
        (\<lambda>r x. sca_Source r = sca_Source x \<and> sca_Channel r = sca_Channel x \<and>
               sca_GoodsID r = sca_GoodsID x),
      my_orders = refTable o_ID (\<lambda>i. o_ID_update (\<lambda>_. i)) (\<lambda>r x. o_TeamID r = o_TeamID x),
      my_lists = refTable l_ID (\<lambda>i. l_ID_update (\<lambda>_. i))
        (\<lambda>r x. l_OrderID r = l_OrderID x \<or> l_BizID r = l_BizID x),
      my_tasks = refTable t_ID (\<lambda>i. t_ID_update (\<lambda>_. i)) no_clash,
      my_ctags = refTable ct_ID (\<lambda>i. ct_ID_update (\<lambda>_. i)) (\<lambda>r x. ct_TagID r = ct_TagID x),
      my_cdetails = refTable cd_ID (\<lambda>i. cd_ID_update (\<lambda>_. i))
        (\<lambda>r x. cd_TagID r = cd_TagID x \<and> cd_UserID r = cd_UserID x),
      my_cjobs = refTable cj_ID (\<lambda>i. cj_ID_update (\<lambda>_. i)) (\<lambda>r x. cj_BatchID r = cj_BatchID x),
      my_txOrder = refTxn,
      my_txTask = refTxn\<rparr>"

lemma foldr_max_ge: "x \<in> set xs \<Longrightarrow> f x \<le> foldr max (map f xs) (0::nat)"
  by (induction xs) auto

lemma gorm_ok_refTable: "gorm_ok ident setid clash (refTable ident setid clash)"
proof -
  have fresh: "ident x < Suc (foldr max (map ident t) 0)" if "x \<in> set t" for x t
    using foldr_max_ge [OF that, of ident] by simp
  have find: "find_ok P ord lim t
      (let rs = (case ord of IdDesc \<Rightarrow> rev (filter P t) | _ \<Rightarrow> filter P t)
       in (case lim of None \<Rightarrow> rs | Some n \<Rightarrow> take n rs))" for P ord lim and t :: "'a list"
  proof -
    have "mset (take n xs) \<subseteq># mset xs" for n and xs :: "'a list"
      by (metis append_take_drop_id mset_append mset_subset_eq_add_left)
    then show ?thesis
      by (auto simp: find_ok_def cnt_def min.commute simp del: mset_filter
          split: row_order.splits option.splits)
  qed
  show ?thesis
    unfolding gorm_ok_def refTable_def using fresh find
    by (auto simp: list_ex_iff Let_def split: if_splits option.splits)
qed

lemma gorm_up_refTable: "gorm_up clash (refTable ident setid clash)"
  by (auto simp: gorm_up_def refTable_def list_ex_iff Let_def split: option.splits)

lemma txn_ok_refTxn: "txn_ok refTxn"
  by (simp add: txn_ok_def refTxn_def)

lemma txn_up_refTxn: "txn_up refTxn"
  by (simp add: txn_up_def refTxn_def)

lemma ref_clash:
  "order_clash refMySQL = (\<lambda>r x. o_TeamID r = o_TeamID x)"
  "list_clash refMySQL = (\<lambda>r x. l_OrderID r = l_OrderID x \<or> l_BizID r = l_BizID x)"
  "cdetail_clash refMySQL = (\<lambda>r x. cd_TagID r = cd_TagID x \<and> cd_UserID r = cd_UserID x)"
  "sqlEq refMySQL = (=)"
  by (simp_all add: fun_eq_iff order_clash_def list_clash_def cdetail_clash_def sqlEq_def refMySQL_def)

lemma mysql_ok_ref: "mysql_ok refMySQL"
  unfolding mysql_ok_def ref_clash
  by (simp add: refMySQL_def gorm_ok_refTable txn_ok_refTxn)

lemma mysql_up_ref: "mysql_up refMySQL"
  unfolding mysql_up_def ref_clash
  by (simp add: refMySQL_def gorm_up_refTable txn_up_refTxn)

lemma ref_First [simp]: "dbFirst tab (refTable i s c) P d = (Inr (find P (tab d)), d)"
  by (simp add: dbFirst_def refTable_def split: option.splits)

lemma ref_Count [simp]: "dbCount tab (refTable i s c) P d = (Inr (cnt P (tab d)), d)"
  by (simp add: dbCount_def refTable_def)

lemma ref_Updates [simp]: "dbUpdates tab put (refTable i s c) P f d =
    (Inr (int (cnt (\<lambda>r. P r \<and> f r \<noteq> r) (tab d))), put (upd_where P f (tab d)) d)"
  by (simp add: dbUpdates_def refTable_def)

lemma ref_Create [simp]: "dbCreate tab put (refTable ident setid clash) r d =
    (if list_ex (clash r) (tab d)
     then (Inl (OtherError ''Error 1062 (23000): Duplicate entry''), d)
     else (Inr (), put (tab d @ [setid (Suc (foldr max (map ident (tab d)) 0)) r]) d))"
  by (simp add: dbCreate_def refTable_def)

lemma ref_Find [simp]: "dbFind tab (refTable i s c) P ord lim d =
    (Inr (let rs = (case ord of IdDesc \<Rightarrow> rev (filter P (tab d)) | _ \<Rightarrow> filter P (tab d))
          in (case lim of None \<Rightarrow> rs | Some n \<Rightarrow> take n rs)), d)"
  by (simp add: dbFind_def refTable_def Let_def)

lemma ref_fields [simp]:
  "my_ck refMySQL = (\<lambda>s. s)"
  "my_activities refMySQL = refTable a_ID (\<lambda>i. a_ID_update (\<lambda>_. i)) (\<lambda>r x. a_ActivityID r = a_ActivityID x)"
  "my_discounts refMySQL = refTable dr_ID (\<lambda>i. dr_ID_update (\<lambda>_. i)) (\<lambda>r x. dr_DiscountID r = dr_DiscountID x)"
  "my_skus refMySQL = refTable sku_ID (\<lambda>i. sku_ID_update (\<lambda>_. i)) (\<lambda>r x. sku_GoodsID r = sku_GoodsID x)"
  "my_scskus refMySQL = refTable sca_ID (\<lambda>i. sca_ID_update (\<lambda>_. i))
     (\<lambda>r x. sca_Source r = sca_Source x \<and> sca_Channel r = sca_Channel x \<and> sca_GoodsID r = sca_GoodsID x)"
  "my_orders refMySQL = refTable o_ID (\<lambda>i. o_ID_update (\<lambda>_. i)) (\<lambda>r x. o_TeamID r = o_TeamID x)"
  "my_lists refMySQL = refTable l_ID (\<lambda>i. l_ID_update (\<lambda>_. i))
     (\<lambda>r x. l_OrderID r = l_OrderID x \<or> l_BizID r = l_BizID x)"
  "my_tasks refMySQL = refTable t_ID (\<lambda>i. t_ID_update (\<lambda>_. i)) no_clash"
  "my_ctags refMySQL = refTable ct_ID (\<lambda>i. ct_ID_update (\<lambda>_. i)) (\<lambda>r x. ct_TagID r = ct_TagID x)"
  "my_cdetails refMySQL = refTable cd_ID (\<lambda>i. cd_ID_update (\<lambda>_. i))
     (\<lambda>r x. cd_TagID r = cd_TagID x \<and> cd_UserID r = cd_UserID x)"
  "my_cjobs refMySQL = refTable cj_ID (\<lambda>i. cj_ID_update (\<lambda>_. i)) (\<lambda>r x. cj_BatchID r = cj_BatchID x)"
  "my_txOrder refMySQL = refTxn" "my_txTask refMySQL = refTxn"
  by (simp_all add: refMySQL_def)

lemma ref_sqlEq [simp]: "sqlEq refMySQL a b = (a = b)"
  by (simp add: sqlEq_def)

end
