(* ===== verification/Redis.thy ===== *)
theory Redis
  imports Trade_Model
begin

text \<open>
  \<open>internal/infrastructure/redis/redis_service.go\<close>: the wrapper over the Redis client. The server
  and the client library are not part of the repository: a command is a parameter \<open>rs_cmd\<close> on the
  keyspace and one round trip is \<open>rs_send\<close>, which runs a command or a whole Lua script. \<open>redis_ok\<close>
  states the documented behaviour of the commands the code sends, and that a round trip either
  runs its command and reports the reply, or reports an error, with the command run or not.
  \<open>redis_up\<close> says that no round trip fails. \<open>refRedis\<close> is a concrete server that meets both.

  An entry with a time to live may disappear between two commands: \<open>expire\<close> is that step.
\<close>

section \<open>The server\<close>

datatype rvalue =
    VInt int "int option"   \<comment> \<open>a decimal string, with its time to live in seconds\<close>
  | VBits "nat set"         \<comment> \<open>a bit string, by the offsets that are set\<close>

type_synonym keyspace = "string \<Rightarrow> rvalue option"

datatype reply = RInt int | RNil | RErr string

datatype command =
    INCR string
  | DECR string
  | GET string
  | SETNX string int
  | DEL string
  | EXISTS string
  | GETBIT string nat
  | SETBIT string nat
  | PUBLISH string string

record redis =
  rs_cmd :: "command \<Rightarrow> keyspace \<Rightarrow> reply \<times> keyspace"
  rs_send :: "(keyspace \<Rightarrow> reply \<times> keyspace) \<Rightarrow> keyspace \<Rightarrow> (string + reply) \<times> keyspace"

definition int64_max :: int where "int64_max = 2 ^ 63 - 1"

text \<open>The number a counter key holds: an absent key counts as 0.\<close>

fun counter_of :: "rvalue option \<Rightarrow> int option" where
  "counter_of None = Some 0"
| "counter_of (Some (VInt n _)) = Some n"
| "counter_of (Some (VBits _)) = None"

fun ttl_of :: "rvalue option \<Rightarrow> int option" where
  "ttl_of (Some (VInt _ ttl)) = ttl"
| "ttl_of _ = None"

fun bits_of :: "rvalue option \<Rightarrow> nat set option" where
  "bits_of None = Some {}"
| "bits_of (Some (VBits B)) = Some B"
| "bits_of (Some (VInt _ _)) = None"

definition redis_ok :: "redis \<Rightarrow> bool" where
  "redis_ok R \<longleftrightarrow>
     (\<forall>k K n. counter_of (K k) = Some n \<and> \<bar>n\<bar> < int64_max \<longrightarrow>
        rs_cmd R (INCR k) K = (RInt (n + 1), K(k \<mapsto> VInt (n + 1) (ttl_of (K k)))) \<and>
        rs_cmd R (DECR k) K = (RInt (n - 1), K(k \<mapsto> VInt (n - 1) (ttl_of (K k))))) \<and>
     (\<forall>k K. K k = None \<longrightarrow> rs_cmd R (GET k) K = (RNil, K)) \<and>
     (\<forall>k K n ttl. K k = Some (VInt n ttl) \<longrightarrow> rs_cmd R (GET k) K = (RInt n, K)) \<and>
     (\<forall>k ttl K. 0 < ttl \<longrightarrow> rs_cmd R (SETNX k ttl) K =
        (if K k = None then (RInt 1, K(k \<mapsto> VInt 1 (Some ttl))) else (RNil, K))) \<and>
     (\<forall>k K. snd (rs_cmd R (DEL k) K) = K(k := None) \<and>
        (\<exists>n. fst (rs_cmd R (DEL k) K) = RInt n)) \<and>
     (\<forall>k K. rs_cmd R (EXISTS k) K = (RInt (if K k = None then 0 else 1), K)) \<and>
     (\<forall>k i K B. bits_of (K k) = Some B \<longrightarrow>
        rs_cmd R (GETBIT k i) K = (RInt (if i \<in> B then 1 else 0), K) \<and>
        rs_cmd R (SETBIT k i) K = (RInt (if i \<in> B then 1 else 0), K(k \<mapsto> VBits (insert i B)))) \<and>
     (\<forall>ch m K. snd (rs_cmd R (PUBLISH ch m) K) = K \<and>
        (\<exists>n. fst (rs_cmd R (PUBLISH ch m) K) = RInt n)) \<and>
     (\<forall>f K. rs_send R f K = (Inr (fst (f K)), snd (f K)) \<or>
        (\<exists>m. rs_send R f K = (Inl m, K) \<or> rs_send R f K = (Inl m, snd (f K))))"

definition redis_up :: "redis \<Rightarrow> bool" where
  "redis_up R \<longleftrightarrow> (\<forall>f K. rs_send R f K = (Inr (fst (f K)), snd (f K)))"

text \<open>The expiry of a key: only an entry with a time to live can go.\<close>

definition expire :: "string \<Rightarrow> keyspace \<Rightarrow> keyspace" where
  "expire k K = (if ttl_of (K k) = None then K else K(k := None))"

section \<open>The service\<close>

text \<open>One round trip, with the error go-redis makes of an error reply.\<close>

definition redisDo :: "redis \<Rightarrow> (keyspace \<Rightarrow> reply \<times> keyspace) \<Rightarrow> (keyspace, reply) go" where
  "redisDo R f K =
     (case rs_send R f K of
        (Inl m, K') \<Rightarrow> (Inl (OtherError m), K')
      | (Inr (RErr m), K') \<Rightarrow> (Inl (OtherError m), K')
      | (Inr r, K') \<Rightarrow> (Inr r, K'))"

fun reply_int :: "reply \<Rightarrow> int" where
  "reply_int (RInt n) = n"
| "reply_int _ = 0"

definition Incr :: "redis \<Rightarrow> string \<Rightarrow> (keyspace, int) go" where
  "Incr R key = go_bind (redisDo R (rs_cmd R (INCR key))) (\<lambda>r. go_ret (reply_int r))"

definition Decr :: "redis \<Rightarrow> string \<Rightarrow> (keyspace, int) go" where
  "Decr R key = go_bind (redisDo R (rs_cmd R (DECR key))) (\<lambda>r. go_ret (reply_int r))"

definition GetInt64 :: "redis \<Rightarrow> string \<Rightarrow> (keyspace, int) go" where
  "GetInt64 R key =
     go_bind (redisDo R (rs_cmd R (GET key)))
       (\<lambda>r. go_ret (case r of RNil \<Rightarrow> 0 | _ \<Rightarrow> reply_int r))"

definition SetNX :: "redis \<Rightarrow> string \<Rightarrow> int \<Rightarrow> (keyspace, bool) go" where
  "SetNX R key expiration =
     go_bind (redisDo R (rs_cmd R (SETNX key expiration))) (\<lambda>r. go_ret (r \<noteq> RNil))"

definition Eval :: "redis \<Rightarrow> (keyspace \<Rightarrow> reply \<times> keyspace) \<Rightarrow> (keyspace, reply) go" where
  "Eval R script = redisDo R script"

definition Del :: "redis \<Rightarrow> string \<Rightarrow> (keyspace, unit) go" where
  "Del R key = go_bind (redisDo R (rs_cmd R (DEL key))) (\<lambda>_. go_ret ())"

definition Publish :: "redis \<Rightarrow> string \<Rightarrow> string \<Rightarrow> (keyspace, unit) go" where
  "Publish R channel message =
     go_bind (redisDo R (rs_cmd R (PUBLISH channel message))) (\<lambda>_. go_ret ())"

text \<open>
  \<open>fnv.New64a\<close>: every byte is xored in, then the hash is multiplied by the FNV prime, modulo
  \<open>2 ^ 64\<close>.
\<close>

unbundle bit_operations_syntax

definition fnv64a_step :: "64 word \<Rightarrow> char \<Rightarrow> 64 word" where
  "fnv64a_step h c = (h XOR of_nat (of_char c)) * 1099511628211"

definition fnv64a :: "string \<Rightarrow> 64 word" where
  "fnv64a s = foldl fnv64a_step 14695981039346656037 s"

definition IndexFromUserID :: "string \<Rightarrow> int64" where
  "IndexFromUserID userID = fnv64a userID mod 100000000"

definition IsTagCrowdRange :: "redis \<Rightarrow> string \<Rightarrow> string \<Rightarrow> (keyspace, bool) go" where
  "IsTagCrowdRange R tagID userID =
     go_bind (redisDo R (rs_cmd R (EXISTS tagID)))
       (\<lambda>exists. if reply_int exists = 0 then go_ret True
          else go_bind (redisDo R (rs_cmd R (GETBIT tagID (unat (IndexFromUserID userID)))))
                 (\<lambda>bit. go_ret (reply_int bit = 1)))"

definition AddTagCrowd :: "redis \<Rightarrow> string \<Rightarrow> string \<Rightarrow> (keyspace, unit) go" where
  "AddTagCrowd R tagID userID =
     go_bind (redisDo R (rs_cmd R (SETBIT tagID (unat (IndexFromUserID userID)))))
       (\<lambda>_. go_ret ())"

definition TryLock :: "redis \<Rightarrow> string \<Rightarrow> int \<Rightarrow> (keyspace, bool) go" where
  "TryLock R key ttl = SetNX R key ttl"

definition Unlock :: "redis \<Rightarrow> string \<Rightarrow> (keyspace, unit) go" where
  "Unlock R key = Del R key"

text \<open>
  \<open>TryLockWait\<close>: the loop of the source. \<open>now i\<close> is the clock, in milliseconds, at the test of
  round \<open>i\<close>, \<open>ctxDone i\<close> whether the context ends during the wait of round \<open>i\<close>, \<open>others i\<close> what
  the other clients (and expiry) do to the keyspace during that wait. The deadline is \<open>wait\<close>
  milliseconds after the start.
\<close>

partial_function (option) TryLockWait_loop ::
    "redis \<Rightarrow> (nat \<Rightarrow> int) \<Rightarrow> (nat \<Rightarrow> bool) \<Rightarrow> (nat \<Rightarrow> keyspace \<Rightarrow> keyspace) \<Rightarrow>
     string \<Rightarrow> int \<Rightarrow> int \<Rightarrow> nat \<Rightarrow> keyspace \<Rightarrow> (bool res \<times> keyspace) option" where
  "TryLockWait_loop R now ctxDone others key deadline lease i K =
     (case TryLock R key lease K of
        (Inl e, K') \<Rightarrow> Some (Inl e, K')
      | (Inr ok, K') \<Rightarrow>
          if ok then Some (Inr True, K')
          else if now i > deadline then Some (Inr False, K')
          else if ctxDone i then Some (Inl (OtherError ''context canceled''), K')
          else TryLockWait_loop R now ctxDone others key deadline lease (Suc i) (others i K'))"

definition TryLockWait ::
    "redis \<Rightarrow> int \<Rightarrow> (nat \<Rightarrow> int) \<Rightarrow> (nat \<Rightarrow> bool) \<Rightarrow> (nat \<Rightarrow> keyspace \<Rightarrow> keyspace) \<Rightarrow>
     string \<Rightarrow> int \<Rightarrow> int \<Rightarrow> keyspace \<Rightarrow> (bool res \<times> keyspace) option" where
  "TryLockWait R start now ctxDone others key wait lease K =
     TryLockWait_loop R now ctxDone others key (start + wait) lease 0 K"

section \<open>Using the hypotheses\<close>

lemma redis_cmd:
  assumes "redis_ok R"
  shows redis_INCR: "counter_of (K k) = Some n \<Longrightarrow> \<bar>n\<bar> < int64_max \<Longrightarrow>
      rs_cmd R (INCR k) K = (RInt (n + 1), K(k \<mapsto> VInt (n + 1) (ttl_of (K k))))"
    and redis_DECR: "counter_of (K k) = Some n \<Longrightarrow> \<bar>n\<bar> < int64_max \<Longrightarrow>
      rs_cmd R (DECR k) K = (RInt (n - 1), K(k \<mapsto> VInt (n - 1) (ttl_of (K k))))"
    and redis_GET_none: "K k = None \<Longrightarrow> rs_cmd R (GET k) K = (RNil, K)"
    and redis_GET: "K k = Some (VInt n ttl) \<Longrightarrow> rs_cmd R (GET k) K = (RInt n, K)"
    and redis_SETNX: "0 < life \<Longrightarrow> rs_cmd R (SETNX k life) K =
      (if K k = None then (RInt 1, K(k \<mapsto> VInt 1 (Some life))) else (RNil, K))"
    and redis_DEL: "\<exists>n. rs_cmd R (DEL k) K = (RInt n, K(k := None))"
    and redis_EXISTS: "rs_cmd R (EXISTS k) K = (RInt (if K k = None then 0 else 1), K)"
    and redis_GETBIT: "bits_of (K k) = Some B \<Longrightarrow>
      rs_cmd R (GETBIT k i) K = (RInt (if i \<in> B then 1 else 0), K)"
    and redis_SETBIT: "bits_of (K k) = Some B \<Longrightarrow>
      rs_cmd R (SETBIT k i) K = (RInt (if i \<in> B then 1 else 0), K(k \<mapsto> VBits (insert i B)))"
    and redis_PUBLISH: "\<exists>n. rs_cmd R (PUBLISH ch m) K = (RInt n, K)"
  using assms unfolding redis_ok_def by (blast | metis prod.collapse)+

lemma redis_GET_counter:
  assumes "redis_ok R" and "counter_of (K k) = Some n"
  shows "rs_cmd R (GET k) K = (if K k = None then RNil else RInt n, K)"
proof (cases "K k")
  case None
  then show ?thesis using redis_GET_none [OF assms(1)] by simp
next
  case (Some v)
  then show ?thesis using redis_GET [OF assms(1)] assms(2) by (cases v) simp_all
qed

lemma redisDo_cases:
  assumes "redisDo R f K = (r, K')" and "redis_ok R"
  obtains (lost) m where "r = Inl (OtherError m)" "K' = K"
  | (unheard) m where "r = Inl (OtherError m)" "K' = snd (f K)"
  | (ran) "r = Inr (fst (f K))" "K' = snd (f K)" "\<forall>m. fst (f K) \<noteq> RErr m"
proof -
  have "rs_send R f K = (Inr (fst (f K)), snd (f K)) \<or>
        (\<exists>m. rs_send R f K = (Inl m, K) \<or> rs_send R f K = (Inl m, snd (f K)))"
    using assms(2) unfolding redis_ok_def by blast
  then consider "rs_send R f K = (Inr (fst (f K)), snd (f K))"
    | m where "rs_send R f K = (Inl m, K)" | m where "rs_send R f K = (Inl m, snd (f K))"
    by blast
  then show ?thesis
  proof cases
    case 1
    show ?thesis
    proof (cases "fst (f K)")
      case (RErr m)
      with 1 assms(1) have "r = Inl (OtherError m)" "K' = snd (f K)" by (simp_all add: redisDo_def)
      then show ?thesis by (rule unheard)
    next
      case (RInt n)
      with 1 assms(1) have "r = Inr (fst (f K))" "K' = snd (f K)" by (simp_all add: redisDo_def)
      with RInt show ?thesis by (intro ran) simp_all
    next
      case RNil
      with 1 assms(1) have "r = Inr (fst (f K))" "K' = snd (f K)" by (simp_all add: redisDo_def)
      with RNil show ?thesis by (intro ran) simp_all
    qed
  next
    case (2 m)
    with assms(1) have "r = Inl (OtherError m)" "K' = K" by (simp_all add: redisDo_def)
    then show ?thesis by (rule lost)
  next
    case (3 m)
    with assms(1) have "r = Inl (OtherError m)" "K' = snd (f K)" by (simp_all add: redisDo_def)
    then show ?thesis by (rule unheard)
  qed
qed

lemma redisDo_up:
  "redis_up R \<Longrightarrow> f K = (r, K') \<Longrightarrow> (\<And>m. r \<noteq> RErr m) \<Longrightarrow> redisDo R f K = (Inr r, K')"
  unfolding redis_up_def redisDo_def by (cases r) auto

lemmas redisDo_cmd_up = redisDo_up [where f = "rs_cmd R c" for R c]

section \<open>What the service's calls do\<close>

lemma Incr_cases:
  assumes "Incr R k K = (r, K')" and "redis_ok R" and "counter_of (K k) = Some n"
    and "\<bar>n\<bar> < int64_max"
  obtains (lost) m where "r = Inl (OtherError m)" "K' = K"
  | (unheard) m where "r = Inl (OtherError m)" "K' = K(k \<mapsto> VInt (n + 1) (ttl_of (K k)))"
  | (ran) "r = Inr (n + 1)" "K' = K(k \<mapsto> VInt (n + 1) (ttl_of (K k)))"
proof -
  note cmd = redis_INCR [where K = K and k = k, OF assms(2,3,4)]
  from assms(1) obtain q where q: "redisDo R (rs_cmd R (INCR k)) K = (q, K')"
    and r: "r = (case q of Inl e \<Rightarrow> Inl e | Inr x \<Rightarrow> Inr (reply_int x))"
    by (auto simp: Incr_def go_bind_def split: prod.splits sum.splits)
  from q assms(2) show ?thesis
  proof (cases rule: redisDo_cases)
    case (lost m)
    with r that(1) show ?thesis by simp
  next
    case (unheard m)
    with r cmd that(2) show ?thesis by simp
  next
    case ran
    with r cmd that(3) show ?thesis by simp
  qed
qed

lemma SetNX_cases:
  assumes "SetNX R k life K = (r, K')" and "redis_ok R" and "0 < life"
  obtains (lost) m where "r = Inl (OtherError m)" "K' = K"
  | (unheard) m where "r = Inl (OtherError m)" "K k = None" "K' = K(k \<mapsto> VInt 1 (Some life))"
  | (taken) "r = Inr False" "K k \<noteq> None" "K' = K"
  | (set) "r = Inr True" "K k = None" "K' = K(k \<mapsto> VInt 1 (Some life))"
proof -
  from assms(1) obtain q where q: "redisDo R (rs_cmd R (SETNX k life)) K = (q, K')"
    and r: "r = (case q of Inl e \<Rightarrow> Inl e | Inr x \<Rightarrow> Inr (x \<noteq> RNil))"
    by (auto simp: SetNX_def go_bind_def split: prod.splits sum.splits)
  note cmd = redis_SETNX [OF assms(2,3), of k K]
  from q assms(2) show ?thesis
  proof (cases rule: redisDo_cases)
    case (lost m)
    with r that(1) show ?thesis by simp
  next
    case (unheard m)
    with r cmd that(1,2) show ?thesis by (cases "K k = None") simp_all
  next
    case ran
    with r cmd that(3,4) show ?thesis by (cases "K k = None") simp_all
  qed
qed

lemma Del_cases:
  assumes "Del R k K = (r, K')" and "redis_ok R"
  obtains (lost) m where "r = Inl (OtherError m)" "K' = K"
  | (unheard) m where "r = Inl (OtherError m)" "K' = K(k := None)"
  | (ran) "r = Inr ()" "K' = K(k := None)"
proof -
  from assms(1) obtain q where q: "redisDo R (rs_cmd R (DEL k)) K = (q, K')"
    and r: "r = (case q of Inl e \<Rightarrow> Inl e | Inr x \<Rightarrow> Inr ())"
    by (auto simp: Del_def go_bind_def split: prod.splits sum.splits)
  from redis_DEL [OF assms(2), of k K] obtain n where cmd: "rs_cmd R (DEL k) K = (RInt n, K(k := None))"
    by blast
  from q assms(2) show ?thesis
  proof (cases rule: redisDo_cases)
    case (lost m)
    with r that(1) show ?thesis by simp
  next
    case (unheard m)
    with r cmd that(2) show ?thesis by simp
  next
    case ran
    with r cmd that(3) show ?thesis by simp
  qed
qed

lemma Incr_up:
  assumes "redis_ok R" and "redis_up R" and "counter_of (K k) = Some n" and "\<bar>n\<bar> < int64_max"
  shows "Incr R k K = (Inr (n + 1), K(k \<mapsto> VInt (n + 1) (ttl_of (K k))))"
  unfolding Incr_def go_bind_def
  using redisDo_cmd_up [where K = K, OF assms(2) redis_INCR [where K = K and k = k, OF assms(1,3,4)]] by simp

lemma SetNX_up:
  assumes "redis_ok R" and "redis_up R" and "0 < life"
  shows "SetNX R k life K =
    (if K k = None then (Inr True, K(k \<mapsto> VInt 1 (Some life))) else (Inr False, K))"
  unfolding SetNX_def go_bind_def
  using redisDo_up [OF assms(2), of "rs_cmd R (SETNX k life)" K] redis_SETNX [OF assms(1,3), of k K]
  by (cases "K k = None") simp_all

lemma Del_up:
  assumes "redis_ok R" and "redis_up R"
  shows "Del R k K = (Inr (), K(k := None))"
proof -
  from redis_DEL [OF assms(1), of k K] obtain n where "rs_cmd R (DEL k) K = (RInt n, K(k := None))"
    by blast
  from redisDo_up [where f = "rs_cmd R (DEL k)" and K = K, OF assms(2) this] show ?thesis by (simp add: Del_def go_bind_def)
qed

text \<open>A user written into a crowd is found in it, and nobody who was in it is lost.\<close>

lemma AddTagCrowd_up:
  assumes "redis_ok R" and "redis_up R" and "bits_of (K t) = Some B"
  shows "AddTagCrowd R t u K = (Inr (), K(t \<mapsto> VBits (insert (unat (IndexFromUserID u)) B)))"
  unfolding AddTagCrowd_def go_bind_def
  using redisDo_cmd_up [where K = K, OF assms(2) redis_SETBIT [where K = K and k = t, OF assms(1,3)]] by simp

lemma IsTagCrowdRange_up:
  assumes "redis_ok R" and "redis_up R" and "bits_of (K t) = Some B"
  shows "IsTagCrowdRange R t u K = (Inr (K t = None \<or> unat (IndexFromUserID u) \<in> B), K)"
  unfolding IsTagCrowdRange_def go_bind_def
  using redisDo_cmd_up [where K = K, OF assms(2) redis_EXISTS [OF assms(1), of t K]]
    redisDo_cmd_up [where K = K, OF assms(2) redis_GETBIT [where K = K and k = t, OF assms(1,3)]]
  by simp

lemma IndexFromUserID_bound: "unat (IndexFromUserID u) < 100000000"
  unfolding IndexFromUserID_def by (simp add: unat_mod)

section \<open>The waiting lock\<close>

text \<open>
  Every round sleeps 50 milliseconds, so the clock of round \<open>i\<close> is at least 50 i past the start:
  the loop is over after \<open>wait div 50 + 1\<close> rounds, whatever the others do.
\<close>

definition clock_ok :: "int \<Rightarrow> (nat \<Rightarrow> int) \<Rightarrow> bool" where
  "clock_ok start now \<longleftrightarrow> (\<forall>i. start + 50 * int i \<le> now i)"

lemma TryLockWait_loop_returns:
  assumes "clock_ok start now"
  shows "\<exists>r. TryLockWait_loop R now ctxDone others key deadline lease i K = Some r"
proof (induction "nat ((deadline - start) div 50 + 1) - i" arbitrary: i K rule: less_induct)
  case less
  show ?case
  proof (cases "now i > deadline")
    case True
    then show ?thesis
      by (subst TryLockWait_loop.simps) (simp split: prod.splits sum.splits)
  next
    case False
    with assms have "start + 50 * int i \<le> deadline"
      unfolding clock_ok_def by (smt (verit))
    then have "int i < (deadline - start) div 50 + 1" by linarith
    then have lt: "nat ((deadline - start) div 50 + 1) - Suc i < nat ((deadline - start) div 50 + 1) - i"
      by linarith
    show ?thesis
      by (subst TryLockWait_loop.simps) (use less [OF lt] in \<open>simp split: prod.splits sum.splits\<close>)
  qed
qed

text \<open>A lock that is reported taken was free when it was taken, and is held with the lease.\<close>

lemma TryLockWait_loop_True:
  assumes "TryLockWait_loop R now ctxDone others key deadline lease i K = Some (Inr True, K')"
    and "redis_ok R" and "0 < lease"
  shows "\<exists>K0. K0 key = None \<and> K' = K0(key \<mapsto> VInt 1 (Some lease))"
proof -
  have "redis_ok R \<longrightarrow> 0 < lease \<longrightarrow> fst r = Inr True \<longrightarrow>
      (\<exists>K0. K0 key = None \<and> snd r = K0(key \<mapsto> VInt 1 (Some lease)))"
    if "TryLockWait_loop R now ctxDone others key deadline lease i K = Some r" for r
  proof (rule TryLockWait_loop.raw_induct [OF _ that, where
        P = "\<lambda>R now ctxDone others key deadline lease i K r. redis_ok R \<longrightarrow> 0 < lease \<longrightarrow>
          fst r = Inr True \<longrightarrow> (\<exists>K0. K0 key = None \<and> snd r = K0(key \<mapsto> VInt 1 (Some lease)))"], goal_cases)
    case (1 loop R now ctxDone others key deadline lease i K r)
    obtain q K1 where q: "TryLock R key lease K = (q, K1)" by force
    show ?case
    proof (cases q)
      case (Inl e)
      with 1(2) q show ?thesis by auto
    next
      case (Inr ok)
      show ?thesis
      proof (cases ok)
        case True
        show ?thesis
        proof (intro impI)
          assume "redis_ok R" and "0 < lease" and "fst r = Inr True"
          with q Inr True have "K key = None \<and> K1 = K(key \<mapsto> VInt 1 (Some lease))"
            unfolding TryLock_def by (elim SetNX_cases) simp_all
          moreover from 1(2) q Inr True have "snd r = K1" by auto
          ultimately show "\<exists>K0. K0 key = None \<and> snd r = K0(key \<mapsto> VInt 1 (Some lease))" by blast
        qed
      next
        case False
        from 1(2) q Inr False have "(if now i > deadline then Some (Inr False, K1)
          else if ctxDone i then Some (Inl (OtherError ''context canceled''), K1)
          else loop R now ctxDone others key deadline lease (Suc i) (others i K1)) = Some r"
          by simp
        then consider "r = (Inr False, K1)" | "r = (Inl (OtherError ''context canceled''), K1)"
          | "loop R now ctxDone others key deadline lease (Suc i) (others i K1) = Some r"
          by (cases "now i > deadline"; cases "ctxDone i") simp_all
        then show ?thesis
        proof cases
          assume "loop R now ctxDone others key deadline lease (Suc i) (others i K1) = Some r"
          then show ?thesis by (rule 1(1))
        qed simp_all
      qed
    qed
  qed
  with assms show ?thesis by fastforce
qed

section \<open>A concrete server\<close>

fun ref_cmd :: "command \<Rightarrow> keyspace \<Rightarrow> reply \<times> keyspace" where
  "ref_cmd (INCR k) K =
     (case counter_of (K k) of
        Some n \<Rightarrow> (RInt (n + 1), K(k \<mapsto> VInt (n + 1) (ttl_of (K k))))
      | None \<Rightarrow> (RErr ''WRONGTYPE'', K))"
| "ref_cmd (DECR k) K =
     (case counter_of (K k) of
        Some n \<Rightarrow> (RInt (n - 1), K(k \<mapsto> VInt (n - 1) (ttl_of (K k))))
      | None \<Rightarrow> (RErr ''WRONGTYPE'', K))"
| "ref_cmd (GET k) K =
     (case K k of None \<Rightarrow> (RNil, K) | Some (VInt n _) \<Rightarrow> (RInt n, K) | Some _ \<Rightarrow> (RErr ''WRONGTYPE'', K))"
| "ref_cmd (SETNX k life) K =
     (if K k = None then (RInt 1, K(k \<mapsto> VInt 1 (Some life))) else (RNil, K))"
| "ref_cmd (DEL k) K = (RInt (if K k = None then 0 else 1), K(k := None))"
| "ref_cmd (EXISTS k) K = (RInt (if K k = None then 0 else 1), K)"
| "ref_cmd (GETBIT k i) K =
     (case bits_of (K k) of Some B \<Rightarrow> (RInt (if i \<in> B then 1 else 0), K) | None \<Rightarrow> (RErr ''WRONGTYPE'', K))"
| "ref_cmd (SETBIT k i) K =
     (case bits_of (K k) of
        Some B \<Rightarrow> (RInt (if i \<in> B then 1 else 0), K(k \<mapsto> VBits (insert i B)))
      | None \<Rightarrow> (RErr ''WRONGTYPE'', K))"
| "ref_cmd (PUBLISH ch m) K = (RInt 1, K)"

definition refRedis :: redis where
  "refRedis = \<lparr>rs_cmd = ref_cmd, rs_send = (\<lambda>f K. (Inr (fst (f K)), snd (f K)))\<rparr>"

lemma redis_ok_ref: "redis_ok refRedis"
  unfolding redis_ok_def refRedis_def by (simp add: fun_upd_idem_iff)

lemma redis_up_ref: "redis_up refRedis"
  unfolding redis_up_def refRedis_def by simp

lemma ref_rs_cmd [simp]: "rs_cmd refRedis = ref_cmd"
  by (simp add: refRedis_def)

end
