(* ===== verification/Trade_Ports.thy ===== *)
theory Trade_Ports
  imports Tables Redis Dcc
begin

text \<open>
  The state the trade operations work on, and the ports the domain services of
  \<open>internal/domain/trade\<close> are written against: \<open>ITradeRepository\<close> and \<open>ITradePort\<close>, as records of
  operations on a world of any type.

  The concrete world holds the database, the Redis keyspace, the settings of this instance, the
  messages the broker accepted (routing key and body), the notify tasks handed to background
  goroutines (\<open>safego.Go\<close>), which run later, and the HTTP callbacks posted (address, body and the
  status of the answer, if one came).
\<close>

record world =
  w_db :: db
  w_redis :: keyspace
  w_dcc :: dcc
  w_mq :: "(string \<times> json) list"
  w_async :: "NotifyTaskEntity list"
  w_http :: "(string \<times> json \<times> int option) list"

definition on_db :: "(db, 'a) go \<Rightarrow> (world, 'a) go" where
  "on_db f w = (case f (w_db w) of (r, d) \<Rightarrow> (r, w\<lparr>w_db := d\<rparr>))"

definition on_redis :: "(keyspace, 'a) go \<Rightarrow> (world, 'a) go" where
  "on_redis f w = (case f (w_redis w) of (r, K) \<Rightarrow> (r, w\<lparr>w_redis := K\<rparr>))"

text \<open>
  What one call reads from outside: the clock at its successive uses of \<open>time.Now\<close>, and the
  numbers its uses of \<open>rand.Intn(10)\<close> draw.
\<close>

record call_env =
  ce_now :: "nat \<Rightarrow> time"
  ce_rand :: "nat \<Rightarrow> nat"

record 'w ITradeRepository =
  QueryMarketPayOrderEntityByOutTradeNo :: "string \<Rightarrow> string \<Rightarrow> ('w, MarketPayOrderEntity option) go"
  LockMarketPayOrder :: "GroupBuyOrderAggregate \<Rightarrow> ('w, MarketPayOrderEntity) go"
  QueryGroupBuyProgress :: "string \<Rightarrow> ('w, GroupBuyProgressVO option) go"
  QueryGroupBuyActivityEntityByActivityID :: "int64 \<Rightarrow> ('w, GroupBuyActivityEntity option) go"
  QueryOrderCountByActivityID :: "int64 \<Rightarrow> string \<Rightarrow> ('w, int) go"
  QueryGroupBuyTeamByTeamID :: "string \<Rightarrow> ('w, GroupBuyTeamEntity option) go"
  SettlementMarketPayOrder :: "GroupBuyTeamSettlementAggregate \<Rightarrow> ('w, NotifyTaskEntity option) go"
  RepoIsSCBlackIntercept :: "string \<Rightarrow> string \<Rightarrow> ('w, bool) go"
  QueryUnExecutedNotifyTaskList :: "('w, NotifyTaskEntity list) go"
  QueryUnExecutedNotifyTaskListByTeamID :: "string \<Rightarrow> ('w, NotifyTaskEntity list) go"
  UpdateNotifyTaskStatusSuccess :: "NotifyTaskEntity \<Rightarrow> ('w, int) go"
  UpdateNotifyTaskStatusError :: "NotifyTaskEntity \<Rightarrow> ('w, int) go"
  UpdateNotifyTaskStatusRetry :: "NotifyTaskEntity \<Rightarrow> ('w, int) go"
  OccupyTeamStock :: "string \<Rightarrow> string \<Rightarrow> int \<Rightarrow> int \<Rightarrow> ('w, bool) go"
  RecoveryTeamStock :: "string \<Rightarrow> int \<Rightarrow> ('w, unit) go"
  Unpaid2Refund :: "GroupBuyRefundAggregate \<Rightarrow> ('w, NotifyTaskEntity option) go"
  Paid2Refund :: "GroupBuyRefundAggregate \<Rightarrow> ('w, NotifyTaskEntity option) go"
  PaidTeam2Refund :: "GroupBuyRefundAggregate \<Rightarrow> ('w, NotifyTaskEntity option) go"
  QueryTimeoutUnpaidOrderList :: "('w, TimeoutUnpaidOrderEntity list) go"
  RefundOrderExist :: "string \<Rightarrow> string \<Rightarrow> string \<Rightarrow> ('w, bool) go"
  Refund2AddRecovery :: "string \<Rightarrow> string \<Rightarrow> ('w, unit) go"

text \<open>
  \<open>ITradePort.GroupBuyNotify\<close> returns an answer and an error; only the error counts when there is
  one.
\<close>

record 'w ITradePort =
  PortGroupBuyNotify :: "NotifyTaskEntity \<Rightarrow> ('w, string) go"

lemma on_db_frame:
  "on_db f w = (r, w') \<Longrightarrow> \<exists>d. f (w_db w) = (r, d) \<and> w' = w\<lparr>w_db := d\<rparr>"
  by (auto simp: on_db_def split: prod.splits)

lemma on_redis_frame:
  "on_redis f w = (r, w') \<Longrightarrow> \<exists>K. f (w_redis w) = (r, K) \<and> w' = w\<lparr>w_redis := K\<rparr>"
  by (auto simp: on_redis_def split: prod.splits)

end
