(* ===== verification/Trade_Repository.thy ===== *)
theory Trade_Repository
  imports Mysql Trade_Ports
begin

text \<open>
  \<open>internal/infrastructure/repository/trade_repository.go\<close>: every method of the trade repository,
  over the database and Redis parameters. A method that runs in a transaction is its closure
  (\<open>..._tx\<close>) inside the transaction of the database.
\<close>

record TradeRepository =
  rp_db :: mysql
  rp_redis :: redis
  rp_topicTeamSuccess :: string
  rp_topicTeamRefund :: string

section \<open>Helpers\<close>

definition randomNumeric :: "call_env \<Rightarrow> nat \<Rightarrow> nat \<Rightarrow> string" where
  "randomNumeric E from n = map (\<lambda>i. digit (ce_rand E (from + i))) [0..<n]"

text \<open>\<open>contains\<close>: the loop over the offsets, and the tests before it.\<close>

fun contains_from :: "nat \<Rightarrow> string \<Rightarrow> string \<Rightarrow> nat \<Rightarrow> bool" where
  "contains_from 0 s sub i = False"
| "contains_from (Suc k) s sub i =
     (if i + length sub \<le> length s
      then take (length sub) (drop i s) = sub \<or> contains_from k s sub (Suc i)
      else False)"

definition contains :: "string \<Rightarrow> string \<Rightarrow> bool" where
  "contains s sub \<longleftrightarrow>
     length sub \<le> length s \<and>
     (s = sub \<or> length sub = 0 \<or> contains_from (Suc (length s)) s sub 0)"

fun err_Error :: "go_error \<Rightarrow> string" where
  "err_Error (AppError e) = AppException_Error e"
| "err_Error (OtherError m) = m"
| "err_Error (Panic m) = m"

definition isDuplicate :: "go_error option \<Rightarrow> bool" where
  "isDuplicate err =
     (case err of
        None \<Rightarrow> False
      | Some e \<Rightarrow>
          let msg = err_Error e
          in contains msg ''Duplicate'' \<or> contains msg ''duplicate'' \<or> contains msg ''UNIQUE'')"

definition toNotifyEntity :: "NotifyTask \<Rightarrow> NotifyTaskEntity" where
  "toNotifyEntity t =
     \<lparr>nt_TeamID = t_TeamID t,
      nt_NotifyType = t_NotifyType t,
      nt_NotifyMQ = (case t_NotifyMQ t of Some m \<Rightarrow> m | None \<Rightarrow> ''''),
      nt_NotifyUrl = (case t_NotifyURL t of Some u \<Rightarrow> u | None \<Rightarrow> ''''),
      nt_NotifyCount = t_NotifyCount t,
      nt_Status = t_NotifyStatus t,
      nt_ParameterJSON = t_ParameterJSON t,
      nt_UUID = t_UUID t,
      nt_ActivityID = t_ActivityID t\<rparr>"

section \<open>Queries\<close>

definition repo_QueryMarketPayOrderEntityByOutTradeNo ::
    "TradeRepository \<Rightarrow> string \<Rightarrow> string \<Rightarrow> (db, MarketPayOrderEntity option) go" where
  "repo_QueryMarketPayOrderEntityByOutTradeNo r userID outTradeNo =
     go_bind
       (dbFirst db_lists (my_lists (rp_db r))
          (\<lambda>l. sqlEq (rp_db r) (l_UserID l) userID \<and> sqlEq (rp_db r) (l_OutTradeNo l) outTradeNo))
       (\<lambda>row. go_ret (map_option (\<lambda>row.
          \<lparr>mo_TeamID = l_TeamID row,
           mo_OrderID = l_OrderID row,
           mo_OriginalPrice = l_OriginalPrice row,
           mo_DeductionPrice = l_DeductionPrice row,
           mo_PayPrice = l_PayPrice row,
           mo_TradeOrderStatus = l_Status row\<rparr>) row))"

definition repo_QueryGroupBuyProgress ::
    "TradeRepository \<Rightarrow> string \<Rightarrow> (db, GroupBuyProgressVO option) go" where
  "repo_QueryGroupBuyProgress r teamID =
     go_bind
       (dbFirst db_orders (my_orders (rp_db r)) (\<lambda>g. sqlEq (rp_db r) (o_TeamID g) teamID))
       (\<lambda>row. go_ret (map_option (\<lambda>row.
          \<lparr>gp_TargetCount = o_TargetCount row,
           gp_CompleteCount = o_CompleteCount row,
           gp_LockCount = o_LockCount row\<rparr>) row))"

definition repo_QueryGroupBuyActivityEntityByActivityID ::
    "TradeRepository \<Rightarrow> int64 \<Rightarrow> (db, GroupBuyActivityEntity option) go" where
  "repo_QueryGroupBuyActivityEntityByActivityID r activityID =
     go_bind
       (dbFirst db_activities (my_activities (rp_db r)) (\<lambda>a. a_ActivityID a = activityID))
       (\<lambda>row. go_ret (map_option (\<lambda>act.
          \<lparr>ga_ActivityID = a_ActivityID act,
           ga_ActivityName = a_ActivityName act,
           ga_DiscountID = a_DiscountID act,
           ga_GroupType = a_GroupType act,
           ga_TakeLimitCount = a_TakeLimitCount act,
           ga_Target = a_Target act,
           ga_ValidTime = a_ValidTime act,
           ga_Status = a_Status act,
           ga_StartTime = a_StartTime act,
           ga_EndTime = a_EndTime act,
           ga_TagID = a_TagID act,
           ga_TagScope = a_TagScope act\<rparr>) row))"

definition repo_QueryOrderCountByActivityID ::
    "TradeRepository \<Rightarrow> int64 \<Rightarrow> string \<Rightarrow> (db, int) go" where
  "repo_QueryOrderCountByActivityID r activityID userID =
     go_bind
       (dbCount db_lists (my_lists (rp_db r))
          (\<lambda>l. sqlEq (rp_db r) (l_UserID l) userID \<and> l_ActivityID l = activityID))
       (\<lambda>n. go_ret (int n))"

definition team_entity :: "TradeRepository \<Rightarrow> GroupBuyOrder \<Rightarrow> GroupBuyTeamEntity" where
  "team_entity r row =
     \<lparr>gt_TeamID = o_TeamID row,
      gt_ActivityID = o_ActivityID row,
      gt_TargetCount = o_TargetCount row,
      gt_CompleteCount = o_CompleteCount row,
      gt_LockCount = o_LockCount row,
      gt_Status = o_Status row,
      gt_ValidStartTime = o_ValidStartTime row,
      gt_ValidEndTime = o_ValidEndTime row,
      gt_NotifyConfig = Some
        \<lparr>nc_NotifyType = o_NotifyType row,
         nc_NotifyMQ = rp_topicTeamSuccess r,
         nc_NotifyUrl = (case o_NotifyURL row of Some u \<Rightarrow> u | None \<Rightarrow> '''')\<rparr>\<rparr>"

definition repo_QueryGroupBuyTeamByTeamID ::
    "TradeRepository \<Rightarrow> string \<Rightarrow> (db, GroupBuyTeamEntity option) go" where
  "repo_QueryGroupBuyTeamByTeamID r teamID =
     go_bind
       (dbFirst db_orders (my_orders (rp_db r)) (\<lambda>g. sqlEq (rp_db r) (o_TeamID g) teamID))
       (\<lambda>row. go_ret (map_option (team_entity r) row))"

definition repo_QueryUnExecutedNotifyTaskList ::
    "TradeRepository \<Rightarrow> (db, NotifyTaskEntity list) go" where
  "repo_QueryUnExecutedNotifyTaskList r =
     go_bind
       (dbFind db_tasks (my_tasks (rp_db r)) (\<lambda>t. t_NotifyStatus t = 0 \<or> t_NotifyStatus t = 2)
          IdAsc (Some 50))
       (\<lambda>rows. go_ret (map toNotifyEntity rows))"

definition repo_QueryUnExecutedNotifyTaskListByTeamID ::
    "TradeRepository \<Rightarrow> string \<Rightarrow> (db, NotifyTaskEntity list) go" where
  "repo_QueryUnExecutedNotifyTaskListByTeamID r teamID =
     go_bind
       (dbFirst db_tasks (my_tasks (rp_db r))
          (\<lambda>t. sqlEq (rp_db r) (t_TeamID t) teamID \<and>
               (t_NotifyStatus t = 0 \<or> t_NotifyStatus t = 2)))
       (\<lambda>row. go_ret (case row of None \<Rightarrow> [] | Some t \<Rightarrow> [toNotifyEntity t]))"

text \<open>The orders that were never paid and whose activity is over, with the team of each.\<close>

definition timeout_team_map :: "GroupBuyOrder list \<Rightarrow> string \<rightharpoonup> GroupBuyOrder" where
  "timeout_team_map teams = foldl (\<lambda>m t. m(o_TeamID t \<mapsto> t)) Map.empty teams"

definition timeout_entity :: "GroupBuyOrderList \<Rightarrow> GroupBuyOrder \<Rightarrow> TimeoutUnpaidOrderEntity" where
  "timeout_entity l t =
     \<lparr>tu_UserID = l_UserID l,
      tu_TeamID = o_TeamID t,
      tu_ActivityID = o_ActivityID t,
      tu_TargetCount = o_TargetCount t,
      tu_CompleteCount = o_CompleteCount t,
      tu_LockCount = o_LockCount t,
      tu_ValidStartTime = o_ValidStartTime t,
      tu_ValidEndTime = o_ValidEndTime t,
      tu_OutTradeNo = l_OutTradeNo l,
      tu_Source = l_Source l,
      tu_Channel = l_Channel l\<rparr>"

definition repo_QueryTimeoutUnpaidOrderList ::
    "TradeRepository \<Rightarrow> call_env \<Rightarrow> (db, TimeoutUnpaidOrderEntity list) go" where
  "repo_QueryTimeoutUnpaidOrderList r E =
     go_bind
       (dbFind db_lists (my_lists (rp_db r))
          (\<lambda>l. l_Status l = 0 \<and> l_OutTradeTime l = None \<and> ce_now E 0 > l_EndTime l)
          Unordered (Some 10))
       (\<lambda>lists.
          if lists = [] then go_ret []
          else
            let teamIDs = map l_TeamID lists in
            go_bind
              (dbFind db_orders (my_orders (rp_db r))
                 (\<lambda>g. list_ex (\<lambda>t. sqlEq (rp_db r) (o_TeamID g) t) teamIDs) Unordered None)
              (\<lambda>teams.
                 let teamMap = timeout_team_map teams in
                 go_ret (List.map_filter
                   (\<lambda>l. map_option (timeout_entity l) (teamMap (l_TeamID l))) lists)))"

definition refund_uuid :: "string \<Rightarrow> string \<Rightarrow> string \<Rightarrow> string" where
  "refund_uuid teamID category orderID = teamID @ Underline @ category @ Underline @ orderID"

definition repo_RefundOrderExist ::
    "TradeRepository \<Rightarrow> string \<Rightarrow> string \<Rightarrow> string \<Rightarrow> (db, bool) go" where
  "repo_RefundOrderExist r teamID category orderID =
     go_bind
       (dbCount db_tasks (my_tasks (rp_db r))
          (\<lambda>t. sqlEq (rp_db r) (t_UUID t) (refund_uuid teamID category orderID)))
       (\<lambda>count. go_ret (count > 0))"

section \<open>Locking an order\<close>

definition new_team :: "call_env \<Rightarrow> GroupBuyOrderAggregate \<Rightarrow> string \<Rightarrow> GroupBuyOrder" where
  "new_team E agg teamID =
     (let act = agl_PayActivityEntity agg;
          disc = agl_PayDiscountEntity agg;
          notify = pd_NotifyConfig disc;
          now = ce_now E 0
      in \<lparr>o_ID = 0,
          o_TeamID = teamID,
          o_ActivityID = pa_ActivityID act,
          o_Source = pd_Source disc,
          o_Channel = pd_Channel disc,
          o_OriginalPrice = pd_OriginalPrice disc,
          o_DeductionPrice = pd_DeductionPrice disc,
          o_PayPrice = pd_PayPrice disc,
          o_TargetCount = pa_TargetCount act,
          o_CompleteCount = 0,
          o_LockCount = 1,
          o_Status = 0,
          o_ValidStartTime = now,
          o_ValidEndTime = now + pa_ValidTime act * minute,
          o_NotifyType = (case notify of Some c \<Rightarrow> nc_NotifyType c | None \<Rightarrow> NotifyHTTP),
          o_NotifyURL = (case notify of
              Some c \<Rightarrow> if nc_NotifyUrl c \<noteq> '''' then Some (nc_NotifyUrl c) else None
            | None \<Rightarrow> None),
          o_CreateTime = now,
          o_UpdateTime = now\<rparr>)"

definition lock_bizID :: "GroupBuyOrderAggregate \<Rightarrow> string" where
  "lock_bizID agg =
     showInt (sint (pa_ActivityID (agl_PayActivityEntity agg))) @ ''_'' @
     ue_UserID (agl_UserEntity agg) @ ''_'' @ showInt (agl_UserTakeOrderCount agg + 1)"

definition new_order :: "call_env \<Rightarrow> GroupBuyOrderAggregate \<Rightarrow> string \<Rightarrow> string \<Rightarrow> GroupBuyOrderList" where
  "new_order E agg teamID orderID =
     (let act = agl_PayActivityEntity agg;
          disc = agl_PayDiscountEntity agg;
          now = ce_now E 1
      in \<lparr>l_ID = 0,
          l_UserID = ue_UserID (agl_UserEntity agg),
          l_TeamID = teamID,
          l_OrderID = orderID,
          l_ActivityID = pa_ActivityID act,
          l_StartTime = pa_StartTime act,
          l_EndTime = pa_EndTime act,
          l_GoodsID = pd_GoodsID disc,
          l_Source = pd_Source disc,
          l_Channel = pd_Channel disc,
          l_OriginalPrice = pd_OriginalPrice disc,
          l_DeductionPrice = pd_DeductionPrice disc,
          l_PayPrice = pd_PayPrice disc,
          l_Status = TradeOrderCreate,
          l_OutTradeNo = pd_OutTradeNo disc,
          l_OutTradeTime = None,
          l_BizID = lock_bizID agg,
          l_CreateTime = now,
          l_UpdateTime = now\<rparr>)"

text \<open>The team of the order: a new one when the request names none, else a place in the one it names.\<close>

definition lock_team :: "TradeRepository \<Rightarrow> call_env \<Rightarrow> GroupBuyOrderAggregate \<Rightarrow> (db, string) go" where
  "lock_team r E agg =
     (let teamID = pa_TeamID (agl_PayActivityEntity agg) in
      if teamID = '''' then
        let teamID = randomNumeric E 0 8 in
        go_bind (dbCreate db_orders put_orders (my_orders (rp_db r)) (new_team E agg teamID))
          (\<lambda>_. go_ret teamID)
      else
        go_bind
          (dbUpdates db_orders put_orders (my_orders (rp_db r))
             (\<lambda>g. sqlEq (rp_db r) (o_TeamID g) teamID \<and> o_LockCount g < o_TargetCount g)
             (\<lambda>g. g\<lparr>o_LockCount := o_LockCount g + 1, o_UpdateTime := ce_now E 0\<rparr>))
          (\<lambda>n. if n \<noteq> 1 then go_err (NewAppException E0005) else go_ret teamID))"

definition lock_orderID :: "call_env \<Rightarrow> GroupBuyOrderAggregate \<Rightarrow> string" where
  "lock_orderID E agg =
     randomNumeric E (if pa_TeamID (agl_PayActivityEntity agg) = '''' then 8 else 0) 12"

definition lock_tx ::
    "TradeRepository \<Rightarrow> call_env \<Rightarrow> GroupBuyOrderAggregate \<Rightarrow> (db, MarketPayOrderEntity) go" where
  "lock_tx r E agg =
     go_bind (lock_team r E agg)
       (\<lambda>teamID d.
          let disc = agl_PayDiscountEntity agg;
              orderID = lock_orderID E agg
          in case dbCreate db_lists put_lists (my_lists (rp_db r)) (new_order E agg teamID orderID) d of
               (Inl err, d') \<Rightarrow>
                 if isDuplicate (Some err) then (Inl (NewAppException INDEX_EXCEPTION), d')
                 else (Inl err, d')
             | (Inr _, d') \<Rightarrow>
                 (Inr \<lparr>mo_TeamID = teamID,
                       mo_OrderID = orderID,
                       mo_OriginalPrice = pd_OriginalPrice disc,
                       mo_DeductionPrice = pd_DeductionPrice disc,
                       mo_PayPrice = pd_PayPrice disc,
                       mo_TradeOrderStatus = TradeOrderCreate\<rparr>, d'))"

definition repo_LockMarketPayOrder ::
    "TradeRepository \<Rightarrow> call_env \<Rightarrow> GroupBuyOrderAggregate \<Rightarrow> (db, MarketPayOrderEntity) go" where
  "repo_LockMarketPayOrder r E agg = my_txOrder (rp_db r) (lock_tx r E agg)"

section \<open>Settling an order\<close>

definition settle_uuid :: "GroupBuyTeamSettlementAggregate \<Rightarrow> string" where
  "settle_uuid agg =
     gt_TeamID (ags_GroupBuyTeamEntity agg) @ Underline @ TaskTradeSettlement @ Underline @
     ps_OutTradeNo (ags_TradePaySuccessEntity agg)"

definition settle_task ::
    "TradeRepository \<Rightarrow> call_env \<Rightarrow> GroupBuyTeamSettlementAggregate \<Rightarrow> string list \<Rightarrow> NotifyTask" where
  "settle_task r E agg outTradeNos =
     (let team = ags_GroupBuyTeamEntity agg;
          notifyCfg = gt_NotifyConfig team
      in \<lparr>t_ID = 0,
          t_ActivityID = gt_ActivityID team,
          t_TeamID = gt_TeamID team,
          t_NotifyCategory = Some TaskTradeSettlement,
          t_NotifyType = (case notifyCfg of Some c \<Rightarrow> nc_NotifyType c | None \<Rightarrow> NotifyHTTP),
          t_NotifyMQ = (case notifyCfg of
              Some c \<Rightarrow>
                if nc_NotifyType c = NotifyMQ then
                  Some (if nc_NotifyMQ c = '''' then rp_topicTeamSuccess r else nc_NotifyMQ c)
                else None
            | None \<Rightarrow> None),
          t_NotifyURL = (case notifyCfg of
              Some c \<Rightarrow>
                if nc_NotifyType c = NotifyHTTP \<and> nc_NotifyUrl c \<noteq> '''' then Some (nc_NotifyUrl c)
                else None
            | None \<Rightarrow> None),
          t_NotifyCount = 0,
          t_NotifyStatus = 0,
          t_ParameterJSON = JObj
            [(''outTradeNoList'', JArr (map JStr outTradeNos)), (''teamId'', JStr (gt_TeamID team))],
          t_UUID = settle_uuid agg,
          t_CreateTime = ce_now E 3,
          t_UpdateTime = ce_now E 4\<rparr>)"

text \<open>\<open>res.Error\<close> and then \<open>res.RowsAffected != 1\<close> after an update.\<close>

definition one_row :: "(db, int) go \<Rightarrow> (db, unit) go" where
  "one_row upd =
     go_bind upd (\<lambda>n. if n \<noteq> 1 then go_err (NewAppException UPDATE_ZERO) else go_ret ())"

definition settle_complete ::
    "TradeRepository \<Rightarrow> call_env \<Rightarrow> GroupBuyTeamSettlementAggregate \<Rightarrow>
     (db, NotifyTaskEntity option) go" where
  "settle_complete r E agg =
     (let M = rp_db r; teamID = gt_TeamID (ags_GroupBuyTeamEntity agg) in
      go_bind
        (one_row (dbUpdates db_orders put_orders (my_orders M)
           (\<lambda>g. sqlEq M (o_TeamID g) teamID \<and> o_Status g = 0)
           (\<lambda>g. g\<lparr>o_Status := 1, o_UpdateTime := ce_now E 2\<rparr>)))
        (\<lambda>_. go_bind
           (dbFind db_lists (my_lists M)
              (\<lambda>l. sqlEq M (l_TeamID l) teamID \<and> l_Status l = 1) Unordered None)
           (\<lambda>rows.
              let task = settle_task r E agg (map l_OutTradeNo rows) in
              go_bind (dbCreate db_tasks put_tasks (my_tasks M) task)
                (\<lambda>_. go_ret (Some (toNotifyEntity task))))))"

definition settle_tx ::
    "TradeRepository \<Rightarrow> call_env \<Rightarrow> GroupBuyTeamSettlementAggregate \<Rightarrow>
     (db, NotifyTaskEntity option) go" where
  "settle_tx r E agg =
     (let M = rp_db r;
          user = ags_UserEntity agg;
          team = ags_GroupBuyTeamEntity agg;
          pay = ags_TradePaySuccessEntity agg
      in go_bind
           (one_row (dbUpdates db_lists put_lists (my_lists M)
              (\<lambda>l. sqlEq M (l_OutTradeNo l) (ps_OutTradeNo pay) \<and>
                   sqlEq M (l_UserID l) (ue_UserID user) \<and> l_Status l = 0)
              (\<lambda>l. l\<lparr>l_Status := 1, l_OutTradeTime := Some (ps_OutTradeTime pay),
                     l_UpdateTime := ce_now E 0\<rparr>)))
           (\<lambda>_. go_bind
              (one_row (dbUpdates db_orders put_orders (my_orders M)
                 (\<lambda>g. sqlEq M (o_TeamID g) (gt_TeamID team) \<and> o_CompleteCount g < o_TargetCount g)
                 (\<lambda>g. g\<lparr>o_CompleteCount := o_CompleteCount g + 1, o_UpdateTime := ce_now E 1\<rparr>)))
              (\<lambda>_. if gt_TargetCount team - gt_CompleteCount team = 1
                   then settle_complete r E agg
                   else go_ret None)))"

definition repo_SettlementMarketPayOrder ::
    "TradeRepository \<Rightarrow> call_env \<Rightarrow> GroupBuyTeamSettlementAggregate \<Rightarrow>
     (db, NotifyTaskEntity option) go" where
  "repo_SettlementMarketPayOrder r E agg = my_txTask (rp_db r) (settle_tx r E agg)"

section \<open>Refunding an order\<close>

definition refund_task ::
    "TradeRepository \<Rightarrow> call_env \<Rightarrow> TradeRefundOrderEntity \<Rightarrow> string \<Rightarrow> string \<Rightarrow> NotifyTask" where
  "refund_task r E order category refundType =
     \<lparr>t_ID = 0,
      t_ActivityID = ro_ActivityID order,
      t_TeamID = ro_TeamID order,
      t_NotifyCategory = Some category,
      t_NotifyType = NotifyMQ,
      t_NotifyMQ = Some (rp_topicTeamRefund r),
      t_NotifyURL = None,
      t_NotifyCount = 0,
      t_NotifyStatus = 0,
      t_ParameterJSON = JObj
        [(''activityId'', JNum (sint (ro_ActivityID order))), (''orderId'', JStr (ro_OrderID order)),
         (''outTradeNo'', JStr (ro_OutTradeNo order)), (''teamId'', JStr (ro_TeamID order)),
         (''type'', JStr refundType), (''userId'', JStr (ro_UserID order))],
      t_UUID = refund_uuid (ro_TeamID order) category (ro_OrderID order),
      t_CreateTime = ce_now E 2,
      t_UpdateTime = ce_now E 3\<rparr>"

definition insertRefundNotify ::
    "TradeRepository \<Rightarrow> call_env \<Rightarrow> TradeRefundOrderEntity \<Rightarrow> string \<Rightarrow> string \<Rightarrow>
     (db, NotifyTaskEntity option) go" where
  "insertRefundNotify r E order category refundType =
     (let task = refund_task r E order category refundType in
      go_bind (dbCreate db_tasks put_tasks (my_tasks (rp_db r)) task)
        (\<lambda>_. go_ret (Some (toNotifyEntity task))))"

text \<open>Closing the order of a refund: the update both kinds of refund start with.\<close>

definition close_order ::
    "TradeRepository \<Rightarrow> call_env \<Rightarrow> TradeRefundOrderEntity \<Rightarrow> int \<Rightarrow> (db, unit) go" where
  "close_order r E order fromStatus =
     (let M = rp_db r in
      one_row (dbUpdates db_lists put_lists (my_lists M)
        (\<lambda>l. sqlEq M (l_UserID l) (ro_UserID order) \<and> sqlEq M (l_OrderID l) (ro_OrderID order) \<and>
             l_Status l = fromStatus)
        (\<lambda>l. l\<lparr>l_Status := 2, l_UpdateTime := ce_now E 0\<rparr>)))"

text \<open>The map of column updates \<open>doRefund\<close> builds for the team.\<close>

definition refund_updates ::
    "call_env \<Rightarrow> GroupBuyProgressVO \<Rightarrow> bool \<Rightarrow> bool \<Rightarrow> GroupBuyOrder \<Rightarrow> GroupBuyOrder" where
  "refund_updates E progress decLock decComplete g =
     (let g = g\<lparr>o_UpdateTime := ce_now E 1\<rparr>;
          g = (if decLock then g\<lparr>o_LockCount := o_LockCount g + gp_LockCount progress\<rparr> else g)
      in if decComplete
         then g\<lparr>o_CompleteCount := o_CompleteCount g + gp_CompleteCount progress\<rparr>
         else g)"

definition doRefund_tx ::
    "TradeRepository \<Rightarrow> call_env \<Rightarrow> GroupBuyRefundAggregate \<Rightarrow> int \<Rightarrow> string \<Rightarrow> string \<Rightarrow>
     bool \<Rightarrow> bool \<Rightarrow> (db, NotifyTaskEntity option) go" where
  "doRefund_tx r E agg fromStatus category refundType decLock decComplete =
     (let M = rp_db r;
          order = agr_TradeRefundOrderEntity agg;
          progress = agr_GroupBuyProgress agg
      in go_bind (close_order r E order fromStatus)
           (\<lambda>_. go_bind
              (one_row (dbUpdates db_orders put_orders (my_orders M)
                 (\<lambda>g. sqlEq M (o_TeamID g) (ro_TeamID order))
                 (refund_updates E progress decLock decComplete)))
              (\<lambda>_. insertRefundNotify r E order category refundType)))"

definition doRefund ::
    "TradeRepository \<Rightarrow> call_env \<Rightarrow> GroupBuyRefundAggregate \<Rightarrow> int \<Rightarrow> string \<Rightarrow> string \<Rightarrow>
     bool \<Rightarrow> bool \<Rightarrow> (db, NotifyTaskEntity option) go" where
  "doRefund r E agg fromStatus category refundType decLock decComplete =
     my_txTask (rp_db r) (doRefund_tx r E agg fromStatus category refundType decLock decComplete)"

definition repo_Unpaid2Refund ::
    "TradeRepository \<Rightarrow> call_env \<Rightarrow> GroupBuyRefundAggregate \<Rightarrow> (db, NotifyTaskEntity option) go" where
  "repo_Unpaid2Refund r E agg =
     doRefund r E agg 0 TaskTradeUnpaid2Refund (rt_Code RefundUnpaidUnlock) True False"

definition repo_Paid2Refund ::
    "TradeRepository \<Rightarrow> call_env \<Rightarrow> GroupBuyRefundAggregate \<Rightarrow> (db, NotifyTaskEntity option) go" where
  "repo_Paid2Refund r E agg =
     doRefund r E agg 1 TaskTradePaid2Refund (rt_Code RefundPaidUnformed) True True"

definition paidTeam2Refund_tx ::
    "TradeRepository \<Rightarrow> call_env \<Rightarrow> GroupBuyRefundAggregate \<Rightarrow> (db, NotifyTaskEntity option) go" where
  "paidTeam2Refund_tx r E agg =
     (let M = rp_db r;
          order = agr_TradeRefundOrderEntity agg;
          progress = agr_GroupBuyProgress agg
      in go_bind (close_order r E order 1)
           (\<lambda>_. go_bind
              (dbFirst db_orders (my_orders M) (\<lambda>g. sqlEq M (o_TeamID g) (ro_TeamID order)))
              (\<lambda>row. case row of
                 None \<Rightarrow> go_err (OtherError ''record not found'')
               | Some team \<Rightarrow>
                   let newComplete = o_CompleteCount team + gp_CompleteCount progress;
                       newLock = o_LockCount team + gp_LockCount progress;
                       newStatus = (if newComplete \<le> 0 then GroupBuyFail else GroupBuyCompleteFail)
                   in go_bind
                        (one_row (dbUpdates db_orders put_orders (my_orders M)
                           (\<lambda>g. sqlEq M (o_TeamID g) (ro_TeamID order))
                           (\<lambda>g. g\<lparr>o_LockCount := newLock, o_CompleteCount := newComplete,
                                  o_Status := newStatus, o_UpdateTime := ce_now E 1\<rparr>)))
                        (\<lambda>_. insertRefundNotify r E order TaskTradePaidTeam2Refund
                               (rt_Code RefundPaidFormed)))))"

definition repo_PaidTeam2Refund ::
    "TradeRepository \<Rightarrow> call_env \<Rightarrow> GroupBuyRefundAggregate \<Rightarrow> (db, NotifyTaskEntity option) go" where
  "repo_PaidTeam2Refund r E agg = my_txTask (rp_db r) (paidTeam2Refund_tx r E agg)"

section \<open>The status of a notify task\<close>

definition set_task_status ::
    "TradeRepository \<Rightarrow> call_env \<Rightarrow> int \<Rightarrow> NotifyTaskEntity \<Rightarrow> (db, int) go" where
  "set_task_status r E status task =
     dbUpdates db_tasks put_tasks (my_tasks (rp_db r))
       (\<lambda>t. sqlEq (rp_db r) (t_TeamID t) (nt_TeamID task) \<and> sqlEq (rp_db r) (t_UUID t) (nt_UUID task))
       (\<lambda>t. t\<lparr>t_NotifyStatus := status, t_NotifyCount := t_NotifyCount t + 1,
              t_UpdateTime := ce_now E 0\<rparr>)"

definition repo_UpdateNotifyTaskStatusSuccess ::
    "TradeRepository \<Rightarrow> call_env \<Rightarrow> NotifyTaskEntity \<Rightarrow> (db, int) go" where
  "repo_UpdateNotifyTaskStatusSuccess r E task = set_task_status r E 1 task"

definition repo_UpdateNotifyTaskStatusError ::
    "TradeRepository \<Rightarrow> call_env \<Rightarrow> NotifyTaskEntity \<Rightarrow> (db, int) go" where
  "repo_UpdateNotifyTaskStatusError r E task = set_task_status r E 3 task"

definition repo_UpdateNotifyTaskStatusRetry ::
    "TradeRepository \<Rightarrow> call_env \<Rightarrow> NotifyTaskEntity \<Rightarrow> (db, int) go" where
  "repo_UpdateNotifyTaskStatusRetry r E task = set_task_status r E 2 task"

section \<open>The stock of a team in Redis\<close>

text \<open>
  The Lua script, command by command: an error reply of a command ends the script there, with the
  commands before it done. \<open>tonumber\<close> and the concatenation read and print integers, which Lua's
  numbers hold exactly up to \<open>2 ^ 53\<close>.
\<close>

definition occupyTeamStockScript ::
    "redis \<Rightarrow> string \<Rightarrow> string \<Rightarrow> int \<Rightarrow> int \<Rightarrow> keyspace \<Rightarrow> reply \<times> keyspace" where
  "occupyTeamStockScript R key1 key2 target lockTTL K =
     (case rs_cmd R (INCR key1) K of
        (RInt occupy, K1) \<Rightarrow>
          (case rs_cmd R (GET key2) K1 of
             (RErr m, K2) \<Rightarrow> (RErr m, K2)
           | (got, K2) \<Rightarrow>
               let recovery = (case got of RInt n \<Rightarrow> n | _ \<Rightarrow> 0);
                   giveBack = (\<lambda>K. case rs_cmd R (DECR key1) K of
                      (RErr m, K') \<Rightarrow> (RErr m, K')
                    | (_, K') \<Rightarrow> (RInt 0, K'))
               in if occupy > target + recovery then giveBack K2
                  else let lockKey = key1 @ ''_'' @ showInt occupy in
                       (case rs_cmd R (SETNX lockKey lockTTL) K2 of
                          (RErr m, K3) \<Rightarrow> (RErr m, K3)
                        | (RNil, K3) \<Rightarrow> giveBack K3
                        | (RInt _, K3) \<Rightarrow> (RInt 1, K3)))
      | (RErr m, K1) \<Rightarrow> (RErr m, K1)
      | (RNil, K1) \<Rightarrow> (RErr ''attempt to compare nil with number'', K1))"

definition repo_OccupyTeamStock ::
    "TradeRepository \<Rightarrow> string \<Rightarrow> string \<Rightarrow> int \<Rightarrow> int \<Rightarrow> (keyspace, bool) go" where
  "repo_OccupyTeamStock r teamStockKey recoveryTeamStockKey target validTime =
     go_bind
       (Eval (rp_redis r)
          (occupyTeamStockScript (rp_redis r) teamStockKey recoveryTeamStockKey
             target ((validTime + 60) * 60)))
       (\<lambda>res. go_ret (case res of RInt n \<Rightarrow> n = 1 | _ \<Rightarrow> False))"

definition repo_RecoveryTeamStock :: "TradeRepository \<Rightarrow> string \<Rightarrow> int \<Rightarrow> (keyspace, unit) go" where
  "repo_RecoveryTeamStock r recoveryTeamStockKey validTime =
     (if recoveryTeamStockKey = '''' then go_ret ()
      else go_bind (Incr (rp_redis r) recoveryTeamStockKey) (\<lambda>_. go_ret ()))"

definition refund_lock_key :: "string \<Rightarrow> string" where
  "refund_lock_key orderID = ''refund_lock_'' @ orderID"

definition repo_Refund2AddRecovery ::
    "TradeRepository \<Rightarrow> string \<Rightarrow> string \<Rightarrow> (keyspace, unit) go" where
  "repo_Refund2AddRecovery r recoveryTeamStockKey orderID =
     (if recoveryTeamStockKey = '''' \<or> orderID = '''' then go_ret ()
      else let lockKey = refund_lock_key orderID in
        go_bind (SetNX (rp_redis r) lockKey (30 * 24 * 3600))
          (\<lambda>ok. if \<not> ok then go_ret ()
             else (\<lambda>K. case Incr (rp_redis r) recoveryTeamStockKey K of
                 (Inl err, K') \<Rightarrow>
                   go_bind (go_ignore (Del (rp_redis r) lockKey)) (\<lambda>_. go_err err) K'
               | (Inr _, K') \<Rightarrow> (Inr (), K'))))"

section \<open>The repository as the port\<close>

text \<open>\<open>E\<close> is what the call reads from the clock and the random source.\<close>

definition NewTradeRepository :: "TradeRepository \<Rightarrow> call_env \<Rightarrow> world ITradeRepository" where
  "NewTradeRepository r E =
     \<lparr>QueryMarketPayOrderEntityByOutTradeNo =
        (\<lambda>u n. on_db (repo_QueryMarketPayOrderEntityByOutTradeNo r u n)),
      LockMarketPayOrder = (\<lambda>agg. on_db (repo_LockMarketPayOrder r E agg)),
      QueryGroupBuyProgress = (\<lambda>t. on_db (repo_QueryGroupBuyProgress r t)),
      QueryGroupBuyActivityEntityByActivityID =
        (\<lambda>a. on_db (repo_QueryGroupBuyActivityEntityByActivityID r a)),
      QueryOrderCountByActivityID = (\<lambda>a u. on_db (repo_QueryOrderCountByActivityID r a u)),
      QueryGroupBuyTeamByTeamID = (\<lambda>t. on_db (repo_QueryGroupBuyTeamByTeamID r t)),
      SettlementMarketPayOrder = (\<lambda>agg. on_db (repo_SettlementMarketPayOrder r E agg)),
      RepoIsSCBlackIntercept = (\<lambda>s c w. (Inr (IsSCBlackIntercept (w_dcc w) s c), w)),
      QueryUnExecutedNotifyTaskList = on_db (repo_QueryUnExecutedNotifyTaskList r),
      QueryUnExecutedNotifyTaskListByTeamID =
        (\<lambda>t. on_db (repo_QueryUnExecutedNotifyTaskListByTeamID r t)),
      UpdateNotifyTaskStatusSuccess = (\<lambda>t. on_db (repo_UpdateNotifyTaskStatusSuccess r E t)),
      UpdateNotifyTaskStatusError = (\<lambda>t. on_db (repo_UpdateNotifyTaskStatusError r E t)),
      UpdateNotifyTaskStatusRetry = (\<lambda>t. on_db (repo_UpdateNotifyTaskStatusRetry r E t)),
      OccupyTeamStock = (\<lambda>k k' target v. on_redis (repo_OccupyTeamStock r k k' target v)),
      RecoveryTeamStock = (\<lambda>k v. on_redis (repo_RecoveryTeamStock r k v)),
      Unpaid2Refund = (\<lambda>agg. on_db (repo_Unpaid2Refund r E agg)),
      Paid2Refund = (\<lambda>agg. on_db (repo_Paid2Refund r E agg)),
      PaidTeam2Refund = (\<lambda>agg. on_db (repo_PaidTeam2Refund r E agg)),
      QueryTimeoutUnpaidOrderList = on_db (repo_QueryTimeoutUnpaidOrderList r E),
      RefundOrderExist = (\<lambda>t c oid. on_db (repo_RefundOrderExist r t c oid)),
      Refund2AddRecovery = (\<lambda>k oid. on_redis (repo_Refund2AddRecovery r k oid))\<rparr>"

section \<open>Which methods only read\<close>

lemma repo_reads [go_frames]:
  "reads (repo_QueryMarketPayOrderEntityByOutTradeNo r u n)"
  "reads (repo_QueryGroupBuyProgress r t)"
  "reads (repo_QueryGroupBuyActivityEntityByActivityID r a)"
  "reads (repo_QueryOrderCountByActivityID r a u)"
  "reads (repo_QueryGroupBuyTeamByTeamID r t)"
  "reads (repo_QueryUnExecutedNotifyTaskList r)"
  "reads (repo_QueryUnExecutedNotifyTaskListByTeamID r t)"
  "reads (repo_QueryTimeoutUnpaidOrderList r E)"
  unfolding repo_QueryMarketPayOrderEntityByOutTradeNo_def repo_QueryGroupBuyProgress_def
    repo_QueryGroupBuyActivityEntityByActivityID_def repo_QueryOrderCountByActivityID_def
    repo_QueryGroupBuyTeamByTeamID_def repo_QueryUnExecutedNotifyTaskList_def
    repo_QueryUnExecutedNotifyTaskListByTeamID_def repo_QueryTimeoutUnpaidOrderList_def Let_def
  by (auto intro!: go_frames split: option.splits)

lemma on_db_reads [go_frames]: "reads f \<Longrightarrow> reads (on_db f)"
  unfolding reads_def on_db_def by (simp add: case_prod_beta)

lemma port_reads [go_frames]:
  "reads (QueryMarketPayOrderEntityByOutTradeNo (NewTradeRepository r E) u n)"
  "reads (QueryGroupBuyProgress (NewTradeRepository r E) t)"
  "reads (QueryGroupBuyActivityEntityByActivityID (NewTradeRepository r E) a)"
  "reads (QueryOrderCountByActivityID (NewTradeRepository r E) a u)"
  "reads (QueryGroupBuyTeamByTeamID (NewTradeRepository r E) t)"
  "reads (RepoIsSCBlackIntercept (NewTradeRepository r E) s c)"
  "reads (QueryUnExecutedNotifyTaskList (NewTradeRepository r E))"
  "reads (QueryUnExecutedNotifyTaskListByTeamID (NewTradeRepository r E) t)"
  "reads (QueryTimeoutUnpaidOrderList (NewTradeRepository r E))"
  unfolding NewTradeRepository_def by (simp_all add: go_frames) (simp add: reads_def)

lemma lock_tx_no_panic: "no_panic (lock_tx r E agg)"
proof -
  have team: "no_panic (lock_team r E agg)"
    unfolding lock_team_def Let_def by (auto intro!: go_frames simp: NewAppException_def)
  have rest: "no_panic (\<lambda>d. case dbCreate db_lists put_lists (my_lists (rp_db r)) x d of
        (Inl err, d') \<Rightarrow> if isDuplicate (Some err) then (Inl (NewAppException INDEX_EXCEPTION), d')
          else (Inl err, d')
      | (Inr _, d') \<Rightarrow> (Inr y, d'))" for x y
    using dbCreate_no_panic [of db_lists put_lists "my_lists (rp_db r)" x]
    by (auto simp: no_panic_def NewAppException_def split: prod.splits sum.splits) (metis fst_conv)
  show ?thesis unfolding lock_tx_def Let_def by (intro go_frames team rest)
qed

text \<open>A concrete repository, for closed instances.\<close>

definition refRepository :: TradeRepository where
  "refRepository =
     \<lparr>rp_db = refMySQL, rp_redis = refRedis, rp_topicTeamSuccess = TopicTeamSuccess,
      rp_topicTeamRefund = TopicTeamRefund\<rparr>"

lemma refRepository_simps [simp]:
  "rp_db refRepository = refMySQL" "rp_redis refRepository = refRedis"
  "rp_topicTeamSuccess refRepository = TopicTeamSuccess"
  "rp_topicTeamRefund refRepository = TopicTeamRefund"
  by (simp_all add: refRepository_def)

end
