(* ===== verification/Team_Stock.thy ===== *)
theory Team_Stock
  imports Keys Trade_Repository
begin

text \<open>
  The places of a team in Redis (\<open>OccupyTeamStock\<close>, \<open>RecoveryTeamStock\<close>, \<open>Refund2AddRecovery\<close> of
  \<open>internal/infrastructure/repository/trade_repository.go\<close>): a stock counter that occupies places,
  a recovery counter that gives places back, and one slot key per occupied number.

  \<open>stock_ok\<close> is what the keys of a team satisfy; under it the Lua script is the abstract operation
  "take a place if one is left" (\<open>occupy_script\<close>), which the locale \<open>team_stock\<close> states as a
  contract, and the slot key is always free. \<open>stock_steps\<close> are the runs of the three operations of
  any clients, with lost replies, expired slots and other keys changing in between.
\<close>

section \<open>The keys of a team\<close>

abbreviation (input) skey :: "int64 \<Rightarrow> string \<Rightarrow> string" where
  "skey \<equiv> GenerateTeamStockKey"
abbreviation (input) rkey :: "int64 \<Rightarrow> string \<Rightarrow> string" where
  "rkey \<equiv> GenerateRecoveryTeamStockKey"

lemma own_keys [simp]:
  "skey a t \<noteq> rkey a t" "rkey a t \<noteq> skey a t"
  "skey a t \<noteq> slot_key a t n" "slot_key a t n \<noteq> skey a t"
  "rkey a t \<noteq> slot_key a t n" "slot_key a t n \<noteq> rkey a t"
  "slot_key a t n = slot_key a t m \<longleftrightarrow> n = m"
  using recovery_not_number [of n] showInt_inject [of n m]
  by (auto simp: slot_key_def GenerateTeamStockKey_def GenerateRecoveryTeamStockKey_def)

lemma refund_lock_keys [simp]:
  "refund_lock_key oid \<noteq> skey a t" "refund_lock_key oid \<noteq> rkey a t"
  "refund_lock_key oid \<noteq> slot_key a t n" "skey a t \<noteq> refund_lock_key oid"
  "rkey a t \<noteq> refund_lock_key oid" "slot_key a t n \<noteq> refund_lock_key oid"
  by (simp_all add: refund_lock_key_def GenerateTeamStockKey_def GenerateRecoveryTeamStockKey_def
      slot_key_def TeamStockKeyPrefix_def)

lemma rkey_nonempty [simp]: "rkey a t \<noteq> ''''"
  by (simp add: GenerateRecoveryTeamStockKey_def)

definition used :: "int64 \<Rightarrow> string \<Rightarrow> keyspace \<Rightarrow> int" where
  "used a t K = (case counter_of (K (skey a t)) of Some n \<Rightarrow> n | None \<Rightarrow> 0)"

definition recovered :: "int64 \<Rightarrow> string \<Rightarrow> keyspace \<Rightarrow> int" where
  "recovered a t K = (case counter_of (K (rkey a t)) of Some n \<Rightarrow> n | None \<Rightarrow> 0)"

text \<open>
  The two counters are counters that never expire, and the slots above the stock counter are free.
\<close>

definition stock_ok :: "int64 \<Rightarrow> string \<Rightarrow> keyspace \<Rightarrow> bool" where
  "stock_ok a t K \<longleftrightarrow>
     counter_of (K (skey a t)) = Some (used a t K) \<and> ttl_of (K (skey a t)) = None \<and> 0 \<le> used a t K \<and>
     counter_of (K (rkey a t)) = Some (recovered a t K) \<and> ttl_of (K (rkey a t)) = None \<and>
     0 \<le> recovered a t K \<and> (\<forall>n. used a t K < n \<longrightarrow> K (slot_key a t n) = None)"

lemma used_upd [simp]:
  "used a t (K(skey a t \<mapsto> VInt n ttl)) = n"
  "used a t (K(rkey a t := v)) = used a t K" "used a t (K(slot_key a t m := v)) = used a t K"
  "used a t (K(refund_lock_key oid := v)) = used a t K"
  by (simp_all add: used_def)

lemma recovered_upd [simp]:
  "recovered a t (K(rkey a t \<mapsto> VInt n ttl)) = n"
  "recovered a t (K(skey a t := v)) = recovered a t K"
  "recovered a t (K(slot_key a t m := v)) = recovered a t K"
  "recovered a t (K(refund_lock_key oid := v)) = recovered a t K"
  by (simp_all add: recovered_def)

lemma used_cong: "K' (skey a t) = K (skey a t) \<Longrightarrow> used a t K' = used a t K"
  by (simp add: used_def)

lemma recovered_cong: "K' (rkey a t) = K (rkey a t) \<Longrightarrow> recovered a t K' = recovered a t K"
  by (simp add: recovered_def)

definition fresh_stock :: "int64 \<Rightarrow> string \<Rightarrow> keyspace \<Rightarrow> bool" where
  "fresh_stock a t K \<longleftrightarrow>
     K (skey a t) = None \<and> K (rkey a t) = None \<and> (\<forall>n. K (slot_key a t n) = None)"

lemma fresh_stock_ok: "fresh_stock a t K \<Longrightarrow> stock_ok a t K \<and> used a t K = 0 \<and> recovered a t K = 0"
  by (simp add: fresh_stock_def stock_ok_def used_def recovered_def)

section \<open>The script\<close>

definition occupied :: "int64 \<Rightarrow> string \<Rightarrow> int \<Rightarrow> int \<Rightarrow> keyspace \<Rightarrow> keyspace" where
  "occupied a t target life K =
     (if used a t K < target + recovered a t K then
        K(skey a t \<mapsto> VInt (used a t K + 1) None, slot_key a t (used a t K + 1) \<mapsto> VInt 1 (Some life))
      else K(skey a t \<mapsto> VInt (used a t K) None))"

lemma occupied_simps:
  "used a t (occupied a t target life K) =
    (if used a t K < target + recovered a t K then used a t K + 1 else used a t K)"
  "recovered a t (occupied a t target life K) = recovered a t K"
  by (simp_all add: occupied_def)

lemma occupied_ok: "stock_ok a t K \<Longrightarrow> stock_ok a t (occupied a t target life K)"
  unfolding stock_ok_def occupied_simps by (simp add: occupied_def)

lemma occupy_script:
  assumes R: "redis_ok R" and ok: "stock_ok a t K" and life: "0 < life"
    and bound: "used a t K + 1 < int64_max"
  shows "occupyTeamStockScript R (skey a t) (rkey a t) target life K =
    (RInt (if used a t K < target + recovered a t K then 1 else 0), occupied a t target life K)"
proof -
  let ?S = "skey a t" and ?s = "used a t K"
  let ?K1 = "K(?S \<mapsto> VInt (?s + 1) None)"
  have c: "counter_of (K ?S) = Some ?s" "ttl_of (K ?S) = None" "0 \<le> ?s"
    "counter_of (K (rkey a t)) = Some (recovered a t K)" "\<forall>n. ?s < n \<longrightarrow> K (slot_key a t n) = None"
    using ok by (simp_all add: stock_ok_def)
  have abs: "\<bar>?s\<bar> < int64_max" "\<bar>?s + 1\<bar> < int64_max" using c(3) bound by simp_all
  have incr: "rs_cmd R (INCR ?S) K = (RInt (?s + 1), ?K1)"
    using redis_INCR [where K = K and k = ?S, OF R c(1) abs(1)] c(2) by simp
  have get: "rs_cmd R (GET (rkey a t)) ?K1 =
      (if K (rkey a t) = None then RNil else RInt (recovered a t K), ?K1)"
    using redis_GET_counter [where K = ?K1 and k = "rkey a t", OF R] c(4) by simp
  have rec: "K (rkey a t) = None \<Longrightarrow> recovered a t K = 0" by (simp add: recovered_def)
  have decr: "rs_cmd R (DECR ?S) ?K1 = (RInt ?s, K(?S \<mapsto> VInt ?s None))"
    using redis_DECR [where K = ?K1 and k = ?S, OF R _ abs(2)] by simp
  have setnx: "rs_cmd R (SETNX (slot_key a t (?s + 1)) life) ?K1 =
      (RInt 1, ?K1(slot_key a t (?s + 1) \<mapsto> VInt 1 (Some life)))"
    using redis_SETNX [OF R life, of "slot_key a t (?s + 1)" ?K1] c(5) by simp
  show ?thesis
    unfolding occupyTeamStockScript_def occupied_def
    using incr get rec decr setnx by (auto simp: slot_key_def Let_def)
qed

lemma Occupy_cases:
  assumes "repo_OccupyTeamStock r (skey a t) (rkey a t) target v K = (q, K')"
    and "redis_ok (rp_redis r)" and "stock_ok a t K" and "0 \<le> v" and "used a t K + 1 < int64_max"
  obtains (lost) m where "q = Inl (OtherError m)" "K' = K"
  | (unheard) m where "q = Inl (OtherError m)" "K' = occupied a t target ((v + 60) * 60) K"
  | (ran) "q = Inr (used a t K < target + recovered a t K)"
      "K' = occupied a t target ((v + 60) * 60) K"
proof -
  let ?f = "occupyTeamStockScript (rp_redis r) (skey a t) (rkey a t) target ((v + 60) * 60)"
  note script = occupy_script [OF assms(2,3) _ assms(5), where target = target and life = "(v + 60) * 60"]
  from assms(1) obtain x where x: "redisDo (rp_redis r) ?f K = (x, K')"
    and q: "q = (case x of Inl e \<Rightarrow> Inl e | Inr y \<Rightarrow> Inr (case y of RInt n \<Rightarrow> n = 1 | _ \<Rightarrow> False))"
    by (auto simp: repo_OccupyTeamStock_def Eval_def go_bind_def split: prod.splits sum.splits)
  from x assms(2) show ?thesis
    by (cases rule: redisDo_cases) (use q script assms(4) that in \<open>simp_all\<close>)
qed

lemma Occupy_up:
  assumes "redis_ok (rp_redis r)" and "redis_up (rp_redis r)" and "stock_ok a t K" and "0 \<le> v"
    and "used a t K + 1 < int64_max"
  shows "repo_OccupyTeamStock r (skey a t) (rkey a t) target v K =
    (Inr (used a t K < target + recovered a t K), occupied a t target ((v + 60) * 60) K)"
proof -
  let ?f = "occupyTeamStockScript (rp_redis r) (skey a t) (rkey a t) target ((v + 60) * 60)"
  have "?f K = (RInt (if used a t K < target + recovered a t K then 1 else 0),
      occupied a t target ((v + 60) * 60) K)"
    by (rule occupy_script [OF assms(1,3) _ assms(5)]) (use assms(4) in simp)
  from redisDo_up [where f = ?f, OF assms(2) this] show ?thesis
    by (simp add: repo_OccupyTeamStock_def Eval_def go_bind_def)
qed

section \<open>Giving places back\<close>

lemma recover_ok:
  assumes "stock_ok a t K"
  shows "stock_ok a t (K(rkey a t \<mapsto> VInt (recovered a t K + 1) (ttl_of (K (rkey a t)))))"
  using assms by (simp add: stock_ok_def)

lemma Recovery_cases:
  assumes "repo_RecoveryTeamStock r (rkey a t) v K = (q, K')" and "redis_ok (rp_redis r)"
    and "stock_ok a t K" and "recovered a t K + 1 < int64_max"
  obtains (lost) m where "q = Inl (OtherError m)" "K' = K"
  | (unheard) m where "q = Inl (OtherError m)"
      "K' = K(rkey a t \<mapsto> VInt (recovered a t K + 1) (ttl_of (K (rkey a t))))"
  | (ran) "q = Inr ()" "K' = K(rkey a t \<mapsto> VInt (recovered a t K + 1) (ttl_of (K (rkey a t))))"
proof -
  have c: "counter_of (K (rkey a t)) = Some (recovered a t K)" "\<bar>recovered a t K\<bar> < int64_max"
    using assms(3,4) by (simp_all add: stock_ok_def)
  from assms(1) obtain x where x: "Incr (rp_redis r) (rkey a t) K = (x, K')"
    and q: "q = (case x of Inl e \<Rightarrow> Inl e | Inr _ \<Rightarrow> Inr ())"
    by (auto simp: repo_RecoveryTeamStock_def go_bind_def split: prod.splits sum.splits)
  from x assms(2) c show ?thesis by (cases rule: Incr_cases) (use q that in \<open>simp_all\<close>)
qed

lemma Recovery_up:
  assumes "redis_ok (rp_redis r)" and "redis_up (rp_redis r)" and "stock_ok a t K"
    and "recovered a t K + 1 < int64_max"
  shows "repo_RecoveryTeamStock r (rkey a t) v K =
    (Inr (), K(rkey a t \<mapsto> VInt (recovered a t K + 1) (ttl_of (K (rkey a t)))))"
proof -
  have "counter_of (K (rkey a t)) = Some (recovered a t K)" "\<bar>recovered a t K\<bar> < int64_max"
    using assms(3,4) by (simp_all add: stock_ok_def)
  from Incr_up [where K = K and k = "rkey a t", OF assms(1,2) this] show ?thesis by (simp add: repo_RecoveryTeamStock_def go_bind_def)
qed

text \<open>Whatever a recovery of a refund returns, it has added at most one place and nothing else.\<close>

definition added_place :: "int64 \<Rightarrow> string \<Rightarrow> keyspace \<Rightarrow> keyspace \<Rightarrow> bool" where
  "added_place a t K K' \<longleftrightarrow>
     K' (skey a t) = K (skey a t) \<and> (\<forall>n. K' (slot_key a t n) = K (slot_key a t n)) \<and>
     (K' (rkey a t) = K (rkey a t) \<or>
      K' (rkey a t) = Some (VInt (recovered a t K + 1) (ttl_of (K (rkey a t)))))"

lemma added_place_ok:
  assumes "added_place a t K K'" and "stock_ok a t K"
  shows "stock_ok a t K' \<and> used a t K' = used a t K \<and> recovered a t K \<le> recovered a t K' \<and>
    recovered a t K' \<le> recovered a t K + 1"
proof -
  have u: "used a t K' = used a t K" using assms(1) by (simp add: used_def added_place_def)
  from assms(1) consider "K' (rkey a t) = K (rkey a t)"
    | "K' (rkey a t) = Some (VInt (recovered a t K + 1) (ttl_of (K (rkey a t))))"
    unfolding added_place_def by blast
  then have "counter_of (K' (rkey a t)) = Some (recovered a t K') \<and> ttl_of (K' (rkey a t)) = None \<and>
      recovered a t K \<le> recovered a t K' \<and> recovered a t K' \<le> recovered a t K + 1"
    using assms(2) by cases (simp_all add: stock_ok_def recovered_def)
  with u assms show ?thesis by (auto simp: stock_ok_def added_place_def)
qed

lemma locked_incr_effect:
  assumes inc: "Incr (rp_redis r) (rkey a t) (K(refund_lock_key oid := v)) = (x, K1)"
    and R: "redis_ok (rp_redis r)" and ok: "stock_ok a t K" and bound: "recovered a t K + 1 < int64_max"
    and K': "K' = K1 \<or> K' = K1(refund_lock_key oid := None)"
  shows "added_place a t K K'"
proof -
  have "counter_of ((K(refund_lock_key oid := v)) (rkey a t)) = Some (recovered a t K)"
    "\<bar>recovered a t K\<bar> < int64_max"
    using ok bound by (simp_all add: stock_ok_def)
  from inc R this K' show ?thesis by (cases rule: Incr_cases) (auto simp: added_place_def)
qed

lemma Refund2AddRecovery_effect:
  assumes run: "repo_Refund2AddRecovery r (rkey a t) oid K = (q, K')" and R: "redis_ok (rp_redis r)"
    and ok: "stock_ok a t K" and bound: "recovered a t K + 1 < int64_max"
  shows "added_place a t K K'"
proof (cases "oid = ''''")
  case True
  with run show ?thesis by (simp add: repo_Refund2AddRecovery_def added_place_def)
next
  case oid: False
  let ?L = "refund_lock_key oid"
  have lock: "added_place a t K K" "added_place a t K (K(?L := v))" for v by (simp_all add: added_place_def)
  note incr = locked_incr_effect [OF _ R ok bound]
  obtain s K1 where s: "SetNX (rp_redis r) ?L (30 * 24 * 3600) K = (s, K1)" by force
  from s R have K1: "s = Inr True \<and> K1 = K(?L \<mapsto> VInt 1 (Some (30 * 24 * 3600))) \<or>
      s \<noteq> Inr True \<and> (K1 = K \<or> K1 = K(?L \<mapsto> VInt 1 (Some (30 * 24 * 3600))))"
    by (cases rule: SetNX_cases) simp_all
  show ?thesis
  proof (cases "s = Inr True")
    case True
    obtain x K2 where x: "Incr (rp_redis r) (rkey a t) K1 = (x, K2)" by force
    show ?thesis
    proof (cases x)
      case (Inl e)
      obtain d K3 where d: "Del (rp_redis r) ?L K2 = (d, K3)" by force
      from d R have "K3 = K2 \<or> K3 = K2(?L := None)" by (cases rule: Del_cases) simp_all
      moreover have "K' = K3"
        using run oid s True x Inl d
        by (simp add: repo_Refund2AddRecovery_def Let_def go_bind_def go_ignore_def go_err_def
            split: sum.splits go_error.splits)
      ultimately show ?thesis using incr x K1 True by blast
    next
      case (Inr y)
      then have "K' = K2" using run oid s True x by (simp add: repo_Refund2AddRecovery_def Let_def go_bind_def)
      with incr x K1 True show ?thesis by blast
    qed
  next
    case no: False
    then have "K' = K1"
      using run oid s
      by (auto simp: repo_Refund2AddRecovery_def Let_def go_bind_def split: sum.splits if_splits)
    with K1 no lock show ?thesis by auto
  qed
qed

text \<open>With the server up, an order gives its place back once: the first call takes the order's lock.\<close>

lemma Refund2AddRecovery_up:
  assumes "redis_ok (rp_redis r)" and "redis_up (rp_redis r)" and "stock_ok a t K"
    and "recovered a t K + 1 < int64_max" and "oid \<noteq> ''''"
  shows "repo_Refund2AddRecovery r (rkey a t) oid K =
    (Inr (), if K (refund_lock_key oid) = None
       then K(refund_lock_key oid \<mapsto> VInt 1 (Some 2592000),
              rkey a t \<mapsto> VInt (recovered a t K + 1) (ttl_of (K (rkey a t))))
       else K)"
proof (cases "K (refund_lock_key oid) = None")
  case True
  let ?K1 = "K(refund_lock_key oid \<mapsto> VInt 1 (Some 2592000))"
  have set: "SetNX (rp_redis r) (refund_lock_key oid) 2592000 K = (Inr True, ?K1)"
    using SetNX_up [OF assms(1,2), of 2592000 "refund_lock_key oid" K] True by simp
  have "counter_of (?K1 (rkey a t)) = Some (recovered a t K)" "\<bar>recovered a t K\<bar> < int64_max"
    using assms(3,4) by (simp_all add: stock_ok_def)
  from Incr_up [where K = ?K1 and k = "rkey a t", OF assms(1,2) this] set assms(5) True show ?thesis
    by (simp add: repo_Refund2AddRecovery_def Let_def go_bind_def)
next
  case False
  with SetNX_up [OF assms(1,2), of 2592000 "refund_lock_key oid" K] assms(5) show ?thesis
    by (auto simp: repo_Refund2AddRecovery_def Let_def go_bind_def)
qed

section \<open>What a call changes\<close>

text \<open>The places of a team that are taken: occupied and not given back.\<close>

definition places_taken :: "int64 \<Rightarrow> string \<Rightarrow> keyspace \<Rightarrow> int" where
  "places_taken a t K = used a t K - recovered a t K"

definition team_keys :: "int64 \<Rightarrow> string \<Rightarrow> string set" where
  "team_keys a t = {skey a t, rkey a t} \<union> range (slot_key a t)"

text \<open>The stock counter goes up by \<open>m\<close>, the recovery counter by \<open>n\<close>, and no key of anyone else changes.\<close>

definition stock_change :: "int64 \<Rightarrow> string \<Rightarrow> int \<Rightarrow> int \<Rightarrow> keyspace \<Rightarrow> keyspace \<Rightarrow> bool" where
  "stock_change a t m n K K' \<longleftrightarrow>
     stock_ok a t K' \<and> used a t K' = used a t K + m \<and> recovered a t K' = recovered a t K + n \<and>
     (\<forall>k. k \<notin> team_keys a t \<longrightarrow> K' k = K k)"

lemma stock_change_refl: "stock_ok a t K \<Longrightarrow> stock_change a t 0 0 K K"
  by (simp add: stock_change_def)

lemma stock_change_trans:
  "stock_change a t m n K K1 \<Longrightarrow> stock_change a t m' n' K1 K2 \<Longrightarrow> stock_change a t (m + m') (n + n') K K2"
  by (simp add: stock_change_def)

lemma stock_change_occupied:
  "stock_ok a t K \<Longrightarrow>
   stock_change a t (if used a t K < target + recovered a t K then 1 else 0) 0 K (occupied a t target life K)"
  using occupied_ok [of a t K target life]
  by (auto simp: stock_change_def occupied_simps team_keys_def occupied_def)

lemma stock_change_recovered:
  "stock_ok a t K \<Longrightarrow>
   stock_change a t 0 1 K (K(rkey a t \<mapsto> VInt (recovered a t K + 1) (ttl_of (K (rkey a t)))))"
  using recover_ok [of a t K] by (auto simp: stock_change_def team_keys_def)

lemma stock_change_taken: "stock_change a t m n K K' \<Longrightarrow> places_taken a t K' = places_taken a t K + m - n"
  by (simp add: stock_change_def places_taken_def)

lemma team_keys_apart:
  assumes "plain_id t" "plain_id u" and "(b, u) \<noteq> (a, t)"
  shows "team_keys a t \<inter> team_keys b u = {}"
proof -
  note k = team_keys_never_collide [OF assms(1,2), of a b] team_keys_never_collide [OF assms(2,1), of b a]
  have "skey a t \<noteq> skey b u" "rkey a t \<noteq> rkey b u" "skey a t \<noteq> rkey b u" "rkey a t \<noteq> skey b u"
    using k assms(3) by metis+
  moreover have "slot_key a t n \<noteq> slot_key b u m" "skey a t \<noteq> slot_key b u n" "rkey a t \<noteq> slot_key b u n"
    "slot_key a t n \<noteq> skey b u" "slot_key a t n \<noteq> rkey b u" for n m
    using k [of n m] k [of m n] assms(3) by metis+
  ultimately have "x \<notin> team_keys b u" if "x \<in> team_keys a t" for x
    using that unfolding team_keys_def by (elim UnE insertE emptyE rangeE) (simp_all add: image_iff)
  then show ?thesis by blast
qed

lemma stock_cong:
  assumes "\<And>k. k \<in> team_keys a t \<Longrightarrow> K' k = K k"
  shows "stock_ok a t K' = stock_ok a t K" "used a t K' = used a t K" "recovered a t K' = recovered a t K"
  using assms by (simp_all add: team_keys_def stock_ok_def used_def recovered_def)

text \<open>A change of one team is none of another.\<close>

lemma stock_change_other:
  assumes "stock_change a t m n K K'" and "plain_id t" "plain_id u" and "(b, u) \<noteq> (a, t)"
  shows "stock_ok b u K' = stock_ok b u K \<and> used b u K' = used b u K \<and> recovered b u K' = recovered b u K"
proof -
  have same: "K' k = K k" if "k \<in> team_keys b u" for k
    using assms(1) team_keys_apart [OF assms(2-4)] that unfolding stock_change_def by blast
  show ?thesis using stock_cong [of b u K' K] same by blast
qed

lemma refund_lock_not_team [simp]: "refund_lock_key oid \<notin> team_keys a t"
  by (auto simp: team_keys_def)

section \<open>The contract\<close>

text \<open>How many of \<open>n\<close> calls in a row are granted.\<close>

primrec attempts :: "('k \<Rightarrow> bool res \<times> 'k) \<Rightarrow> nat \<Rightarrow> 'k \<Rightarrow> nat \<times> 'k" where
  "attempts occ 0 k = (0, k)"
| "attempts occ (Suc n) k =
     (let (r, k1) = occ k; (g, k2) = attempts occ n k1
      in (if r = Inr True then Suc g else g, k2))"

text \<open>
  What the lock service relies on: a place is granted exactly while the places in use are fewer
  than the quota, and giving a place back raises the quota by one.
\<close>

locale team_stock =
  fixes good :: "nat \<Rightarrow> 'k \<Rightarrow> bool"  \<comment> \<open>in order, with room for that many further calls\<close>
    and in_use :: "'k \<Rightarrow> int" and quota :: "'k \<Rightarrow> int"
    and occupy :: "'k \<Rightarrow> bool res \<times> 'k" and release :: "'k \<Rightarrow> unit res \<times> 'k"
  assumes occupy_law: "good (Suc n) k \<Longrightarrow> \<exists>k'. occupy k = (Inr (in_use k < quota k), k') \<and> good n k' \<and>
      in_use k' = in_use k + (if in_use k < quota k then 1 else 0) \<and> quota k' = quota k"
    and release_law: "good (Suc n) k \<Longrightarrow> \<exists>k'. release k = (Inr (), k') \<and> good n k' \<and>
      in_use k' = in_use k \<and> quota k' = quota k + 1"
begin

lemma attempts_grant:
  "good n k \<Longrightarrow> in_use k \<le> quota k \<Longrightarrow>
   int (fst (attempts occupy n k)) = min (int n) (quota k - in_use k) \<and>
   quota (snd (attempts occupy n k)) = quota k \<and>
   in_use (snd (attempts occupy n k)) = in_use k + int (fst (attempts occupy n k))"
proof (induction n arbitrary: k)
  case (Suc n)
  from occupy_law [OF Suc.prems(1)] obtain k' where
    k': "occupy k = (Inr (in_use k < quota k), k')" "good n k'"
      "in_use k' = in_use k + (if in_use k < quota k then 1 else 0)" "quota k' = quota k"
    by blast
  have "in_use k' \<le> quota k'" using k'(3,4) Suc.prems(2) by (simp split: if_splits)
  from Suc.IH [OF k'(2) this] k' Suc.prems(2) show ?case
    by (cases "in_use k < quota k") (simp_all add: case_prod_beta Let_def)
qed simp

text \<open>A place given back can be taken again.\<close>

lemma release_then_occupy:
  assumes "good (Suc (Suc n)) k" and "in_use k \<le> quota k"
  shows "fst (occupy (snd (release k))) = Inr True"
proof -
  from release_law [OF assms(1)] obtain k' where
    k': "release k = (Inr (), k')" "good (Suc n) k'" "in_use k' = in_use k" "quota k' = quota k + 1"
    by blast
  from occupy_law [OF k'(2)] k' assms(2) show ?thesis by fastforce
qed

end

text \<open>The model meets it, for every server that is up and keeps the documented behaviour.\<close>

definition stock_good :: "TradeRepository \<Rightarrow> int64 \<Rightarrow> string \<Rightarrow> int \<Rightarrow> nat \<Rightarrow> keyspace \<Rightarrow> bool" where
  "stock_good r a t v n K \<longleftrightarrow>
     redis_ok (rp_redis r) \<and> redis_up (rp_redis r) \<and> stock_ok a t K \<and> 0 \<le> v \<and>
     used a t K + int n < int64_max \<and> recovered a t K + int n < int64_max"

interpretation stock: team_stock "stock_good r a t v" "used a t" "\<lambda>K. target + recovered a t K"
  "repo_OccupyTeamStock r (GenerateTeamStockKey a t) (GenerateRecoveryTeamStockKey a t) target v"
  "repo_RecoveryTeamStock r (GenerateRecoveryTeamStockKey a t) v"
  for r a t v target
proof
  fix n K
  assume g: "stock_good r a t v (Suc n) K"
  then have g': "redis_ok (rp_redis r)" "redis_up (rp_redis r)" "stock_ok a t K" "0 \<le> v"
    "used a t K + 1 < int64_max" "recovered a t K + 1 < int64_max"
    by (simp_all add: stock_good_def)
  show "\<exists>K'. repo_OccupyTeamStock r (skey a t) (rkey a t) target v K =
        (Inr (used a t K < target + recovered a t K), K') \<and> stock_good r a t v n K' \<and>
        used a t K' = used a t K + (if used a t K < target + recovered a t K then 1 else 0) \<and>
        target + recovered a t K' = target + recovered a t K"
    using Occupy_up [OF g'(1-5)] occupied_ok [OF g'(3)] g
    by (simp add: stock_good_def occupied_simps)
  show "\<exists>K'. repo_RecoveryTeamStock r (rkey a t) v K = (Inr (), K') \<and> stock_good r a t v n K' \<and>
        used a t K' = used a t K \<and> target + recovered a t K' = target + recovered a t K + 1"
    using Recovery_up [OF g'(1-3,6)] recover_ok [OF g'(3)] g by (simp add: stock_good_def)
qed

section \<open>Runs of any clients\<close>

text \<open>
  From a team's fresh keys: \<open>g\<close> counts the calls that were told they have a place, \<open>q\<close> the calls
  that give one back, whatever these returned. In between, slots expire and other keys change.
\<close>

inductive stock_steps ::
    "TradeRepository \<Rightarrow> int64 \<Rightarrow> string \<Rightarrow> int \<Rightarrow> keyspace \<Rightarrow> nat \<Rightarrow> nat \<Rightarrow> bool"
  for r a t target where
  start: "fresh_stock a t K \<Longrightarrow> stock_steps r a t target K 0 0"
| occupy: "stock_steps r a t target K g q \<Longrightarrow> 0 \<le> v \<Longrightarrow>
    repo_OccupyTeamStock r (GenerateTeamStockKey a t) (GenerateRecoveryTeamStockKey a t) target v K
      = (res, K') \<Longrightarrow>
    stock_steps r a t target K' (if res = Inr True then Suc g else g) q"
| recover: "stock_steps r a t target K g q \<Longrightarrow>
    repo_RecoveryTeamStock r (GenerateRecoveryTeamStockKey a t) v K = (res, K') \<Longrightarrow>
    stock_steps r a t target K' g (Suc q)"
| refund: "stock_steps r a t target K g q \<Longrightarrow>
    repo_Refund2AddRecovery r (GenerateRecoveryTeamStockKey a t) oid K = (res, K') \<Longrightarrow>
    stock_steps r a t target K' g (Suc q)"
| others: "stock_steps r a t target K g q \<Longrightarrow>
    K' (GenerateTeamStockKey a t) = K (GenerateTeamStockKey a t) \<Longrightarrow>
    K' (GenerateRecoveryTeamStockKey a t) = K (GenerateRecoveryTeamStockKey a t) \<Longrightarrow>
    (\<forall>n. K' (slot_key a t n) = K (slot_key a t n) \<or> K' (slot_key a t n) = None) \<Longrightarrow>
    stock_steps r a t target K' g q"

definition stock_inv :: "int64 \<Rightarrow> string \<Rightarrow> int \<Rightarrow> keyspace \<Rightarrow> nat \<Rightarrow> nat \<Rightarrow> bool" where
  "stock_inv a t target K g q \<longleftrightarrow>
     stock_ok a t K \<and> int g \<le> used a t K \<and> used a t K \<le> target + recovered a t K \<and>
     recovered a t K \<le> int q"

lemma stock_steps_inv:
  assumes "stock_steps r a t target K g q" and R: "redis_ok (rp_redis r)" and target: "0 \<le> target"
  shows "target + int q + 1 < int64_max \<Longrightarrow> stock_inv a t target K g q"
  using assms(1)
proof induction
  case (start K)
  then show ?case using fresh_stock_ok [of a t K] target by (simp add: stock_inv_def)
next
  case (occupy K g q v res K')
  then have inv: "stock_inv a t target K g q" by simp
  then have ok: "stock_ok a t K" "used a t K + 1 < int64_max"
    using occupy.prems by (simp_all add: stock_inv_def)
  note ok' = occupied_ok [OF ok(1), of target "(v + 60) * 60"]
  from occupy.hyps(3) R ok(1) occupy.hyps(2) ok(2) show ?case
    by (cases rule: Occupy_cases)
      (use inv ok' in \<open>auto simp: stock_inv_def occupied_simps\<close>)
next
  case (recover K g q v res K')
  then have inv: "stock_inv a t target K g q" by simp
  then have ok: "stock_ok a t K" "recovered a t K + 1 < int64_max"
    using recover.prems target by (simp_all add: stock_inv_def)
  from recover.hyps(2) R ok have "added_place a t K K'"
    by (cases rule: Recovery_cases) (simp_all add: added_place_def)
  from added_place_ok [OF this ok(1)] inv show ?case by (simp add: stock_inv_def)
next
  case (refund K g q oid res K')
  then have inv: "stock_inv a t target K g q" by simp
  then have ok: "stock_ok a t K" "recovered a t K + 1 < int64_max"
    using refund.prems target by (simp_all add: stock_inv_def)
  from added_place_ok [OF Refund2AddRecovery_effect [OF refund.hyps(2) R ok] ok(1)] inv show ?case
    by (simp add: stock_inv_def)
next
  case (others K g q K')
  then have inv: "stock_inv a t target K g q" by simp
  have eq: "used a t K' = used a t K" "recovered a t K' = recovered a t K"
    using used_cong [of K' a t K] recovered_cong [of K' a t K] others.hyps(2,3) by simp_all
  have "K' (slot_key a t n) = None" if "used a t K < n" for n
    using others.hyps(4) [rule_format, of n] inv that by (auto simp: stock_inv_def stock_ok_def)
  with inv eq others.hyps(2,3) show ?case by (simp add: stock_inv_def stock_ok_def)
qed

section \<open>Properties\<close>

text \<open>
  C10. The places of a team are never oversold: however the calls of all clients interleave, and
  whichever replies are lost, the calls that were told they have a place are at most the target
  plus the places given back, the stock counter is between these two numbers, and every slot key
  above it is free, so the slot lock of the script never refuses a place that is left.
\<close>

theorem places_never_oversold:
  assumes "stock_steps r a t target K g q" and "redis_ok (rp_redis r)" and "0 \<le> target"
    and "target + int q + 1 < int64_max"
  shows "int g \<le> used a t K \<and> used a t K \<le> target + recovered a t K \<and> recovered a t K \<le> int q \<and>
    (\<forall>n. used a t K < n \<longrightarrow> K (slot_key a t n) = None)"
  using stock_steps_inv [OF assms] by (simp add: stock_inv_def stock_ok_def)

text \<open>
  C11. With the server up, calls to occupy a place are granted exactly as long as places are left:
  of \<open>n\<close> calls in a row the smaller of \<open>n\<close> and the places left are, and a place given back can be
  taken again.
\<close>

theorem occupy_grants_what_is_left:
  assumes "stock_good r a t v n K" and "used a t K \<le> target + recovered a t K"
  shows "int (fst (attempts (repo_OccupyTeamStock r (GenerateTeamStockKey a t)
      (GenerateRecoveryTeamStockKey a t) target v) n K)) =
    min (int n) (target + recovered a t K - used a t K)"
  using stock.attempts_grant [OF assms] by blast

text \<open>
  A refund gives the place of its order back once: with the server up, a repeated recovery for
  the same order succeeds and changes nothing, whatever became of the other keys in between.
\<close>

lemma refund_recovery_is_idempotent:
  assumes "redis_ok (rp_redis r)" and "redis_up (rp_redis r)" and "stock_ok a t K"
    and "recovered a t K + 1 < int64_max" and "oid \<noteq> ''''"
    and "repo_Refund2AddRecovery r (GenerateRecoveryTeamStockKey a t) oid K = (res, K1)"
    and "K2 (refund_lock_key oid) = K1 (refund_lock_key oid)"
  shows "res = Inr () \<and> (K (refund_lock_key oid) = None \<longrightarrow> recovered a t K1 = recovered a t K + 1) \<and>
    repo_Refund2AddRecovery r (GenerateRecoveryTeamStockKey a t) oid K2 = (Inr (), K2)"
proof -
  note first = Refund2AddRecovery_up [OF assms(1-5)]
  with assms(6) have r: "res = Inr ()" "K1 (refund_lock_key oid) \<noteq> None"
    "K (refund_lock_key oid) = None \<longrightarrow> recovered a t K1 = recovered a t K + 1"
    by (auto split: if_splits)
  from SetNX_up [OF assms(1,2), of 2592000 "refund_lock_key oid" K2] r(2) assms(7)
  have "SetNX (rp_redis r) (refund_lock_key oid) 2592000 K2 = (Inr False, K2)" by simp
  with r assms(5) show ?thesis by (simp add: repo_Refund2AddRecovery_def Let_def go_bind_def)
qed

lemma ex_stock_fresh: "fresh_stock a t Map.empty"
  by (simp add: fresh_stock_def)

lemma ex_good: "stock_good refRepository a t 30 9 Map.empty"
  using fresh_stock_ok [OF ex_stock_fresh, of a t] redis_ok_ref redis_up_ref
  by (simp add: stock_good_def int64_max_def)

lemma places_never_oversold_witness:
  "used 100123 ''11111111'' (snd (repo_OccupyTeamStock refRepository (GenerateTeamStockKey 100123 ''11111111'')
     (GenerateRecoveryTeamStockKey 100123 ''11111111'') 3 30 Map.empty)) \<le> 3"
proof -
  obtain q K where run: "repo_OccupyTeamStock refRepository (GenerateTeamStockKey 100123 ''11111111'')
     (GenerateRecoveryTeamStockKey 100123 ''11111111'') 3 30 Map.empty = (q, K)"
    by force
  have "stock_steps refRepository 100123 ''11111111'' 3 Map.empty 0 0"
    by (rule stock_steps.start [OF ex_stock_fresh])
  from places_never_oversold [OF stock_steps.occupy [OF this _ run]] redis_ok_ref run
  show ?thesis by (simp add: int64_max_def)
qed

lemma occupy_grants_witness:
  "int (fst (attempts (repo_OccupyTeamStock refRepository (GenerateTeamStockKey 100123 ''11111111'')
      (GenerateRecoveryTeamStockKey 100123 ''11111111'') 3 30) 9 Map.empty)) = 3"
  using occupy_grants_what_is_left [OF ex_good, of 100123 "''11111111''" 3]
    fresh_stock_ok [OF ex_stock_fresh, of 100123 "''11111111''"]
  by simp

lemma refund_recovery_witness:
  "fst (repo_Refund2AddRecovery refRepository (GenerateRecoveryTeamStockKey 100123 ''11111111'')
     ''000000000001'' (snd (repo_Refund2AddRecovery refRepository
       (GenerateRecoveryTeamStockKey 100123 ''11111111'') ''000000000001'' Map.empty))) = Inr ()"
proof -
  obtain q K1 where run: "repo_Refund2AddRecovery refRepository
      (GenerateRecoveryTeamStockKey 100123 ''11111111'') ''000000000001'' Map.empty = (q, K1)"
    by force
  have "stock_ok 100123 ''11111111'' Map.empty" "recovered 100123 ''11111111'' Map.empty = 0"
    using fresh_stock_ok [OF ex_stock_fresh] by blast+
  with refund_recovery_is_idempotent [of refRepository 100123 "''11111111''" Map.empty "''000000000001''" q K1 K1]
    redis_ok_ref redis_up_ref run
  show ?thesis by (simp add: int64_max_def)
qed

end
