(* ===== verification/Team_Invariant.thy ===== *)
theory Team_Invariant
  imports Trade_Repository
begin

text \<open>
  The counters of a team against the orders of the team. A lock, a settlement and a refund each
  change an order row and a team row in one transaction; \<open>teams_ok\<close> states that after each of them
  the lock count of every team is the number of its orders that are not closed, the complete
  count the number of its paid orders, and no team is locked beyond its target. The transactions
  act on what a service read before (the aggregate), which may be stale: the invariant only needs
  what no later transaction changes, the team an order belongs to.
\<close>

section \<open>The invariant\<close>

definition open_count :: "mysql \<Rightarrow> db \<Rightarrow> string \<Rightarrow> nat" where
  "open_count M d t = cnt (\<lambda>l. sqlEq M (l_TeamID l) t \<and> l_Status l \<noteq> TradeOrderClose) (db_lists d)"

definition paid_count :: "mysql \<Rightarrow> db \<Rightarrow> string \<Rightarrow> nat" where
  "paid_count M d t = cnt (\<lambda>l. sqlEq M (l_TeamID l) t \<and> l_Status l = TradeOrderComplete) (db_lists d)"

definition team_ok :: "mysql \<Rightarrow> db \<Rightarrow> GroupBuyOrder \<Rightarrow> bool" where
  "team_ok M d g \<longleftrightarrow>
     o_LockCount g = int (open_count M d (o_TeamID g)) \<and>
     o_CompleteCount g = int (paid_count M d (o_TeamID g)) \<and>
     o_LockCount g \<le> o_TargetCount g"

definition teams_ok :: "mysql \<Rightarrow> db \<Rightarrow> bool" where
  "teams_ok M d \<longleftrightarrow>
     (\<forall>g \<in> set (db_orders d). team_ok M d g) \<and>
     distinct (map (\<lambda>g. my_ck M (o_TeamID g)) (db_orders d)) \<and>
     distinct (map (\<lambda>l. my_ck M (l_OrderID l)) (db_lists d)) \<and>
     (\<forall>l \<in> set (db_lists d). \<exists>g \<in> set (db_orders d). sqlEq M (l_TeamID l) (o_TeamID g))"

lemma paid_le_open: "paid_count M d t \<le> open_count M d t"
  unfolding paid_count_def open_count_def by (rule cnt_mono) simp

section \<open>Updates that must hit one row\<close>

lemma one_row_Inr:
  assumes "one_row (dbUpdates tab put G P f) d = (Inr u, d')"
    and "gorm_ok ident setid clash G" and "\<And>r. r \<in> set (tab d) \<Longrightarrow> P r \<Longrightarrow> f r \<noteq> r"
  shows "d' = put (upd_where P f (tab d)) d \<and> cnt P (tab d) = 1"
proof -
  obtain n d1 where upd: "dbUpdates tab put G P f d = (Inr n, d1)"
    and n: "(if n \<noteq> 1 then go_err (NewAppException UPDATE_ZERO) else go_ret ()) d1 = (Inr u, d')"
    using assms(1) unfolding one_row_def by (rule go_bind_Inr_cases)
  from n have n1: "n = 1" "d' = d1" by (auto split: if_splits)
  from upd assms(2) show ?thesis
  proof (cases rule: dbUpdates_cases)
    case ran
    have "cnt (\<lambda>r. P r \<and> f r \<noteq> r) (tab d) = cnt P (tab d)"
      by (rule cnt_cong) (use assms(3) in blast)
    with ran n1 show ?thesis by simp
  qed simp
qed

text \<open>Closing or paying one order: what it does to the counts of every team.\<close>

lemma one_order_counts:
  assumes "cnt P (db_lists d) = 1" and "d' = d\<lparr>db_lists := upd_where P f (db_lists d)\<rparr>"
    and "\<And>l. P l \<Longrightarrow> sqlEq M (l_TeamID l) t" and "\<And>l. l_TeamID (f l) = l_TeamID l"
    and "\<And>l. P l \<Longrightarrow> l_Status l = s" and "\<And>l. l_Status (f l) = s'"
  shows "int (open_count M d' u) = int (open_count M d u)
      + (if sqlEq M u t then (if s' \<noteq> 2 then 1 else 0) - (if s \<noteq> 2 then 1 else 0) else 0)"
    and "int (paid_count M d' u) = int (paid_count M d u)
      + (if sqlEq M u t then (if s' = 1 then 1 else 0) - (if s = 1 then 1 else 0) else 0)"
proof -
  obtain r where r: "r \<in> set (db_lists d)" "P r"
    and cnt: "\<And>Q. int (cnt Q (upd_where P f (db_lists d))) =
        int (cnt Q (db_lists d)) - (if Q r then 1 else 0) + (if Q (f r) then 1 else 0)"
    using cnt_upd_one [OF assms(1), where f = f] by blast
  have team: "sqlEq M (l_TeamID r) u \<longleftrightarrow> sqlEq M u t"
    using assms(3) [OF r(2)] by (auto simp: sqlEq_def)
  show "int (open_count M d' u) = int (open_count M d u)
      + (if sqlEq M u t then (if s' \<noteq> 2 then 1 else 0) - (if s \<noteq> 2 then 1 else 0) else 0)"
    using cnt [of "\<lambda>l. sqlEq M (l_TeamID l) u \<and> l_Status l \<noteq> TradeOrderClose"] assms(5) [OF r(2)]
    by (simp add: open_count_def assms(2,4,6) team)
  show "int (paid_count M d' u) = int (paid_count M d u)
      + (if sqlEq M u t then (if s' = 1 then 1 else 0) - (if s = 1 then 1 else 0) else 0)"
    using cnt [of "\<lambda>l. sqlEq M (l_TeamID l) u \<and> l_Status l = TradeOrderComplete"] assms(5) [OF r(2)]
    by (simp add: paid_count_def assms(2,4,6) team)
qed

lemma counts_cong:
  "db_lists d = db_lists d' \<Longrightarrow> open_count M d t = open_count M d' t"
  "db_lists d = db_lists d' \<Longrightarrow> paid_count M d t = paid_count M d' t"
  by (simp_all add: open_count_def paid_count_def)

lemma counts_sqlEq:
  "sqlEq M t u \<Longrightarrow> open_count M d t = open_count M d u"
  "sqlEq M t u \<Longrightarrow> paid_count M d t = paid_count M d u"
  unfolding open_count_def paid_count_def sqlEq_def by simp_all

text \<open>
  A transaction that moves one order of the team \<open>t\<close> from status \<open>s\<close> to \<open>s'\<close> and changes the
  counters of the team by the same amount keeps the invariant.
\<close>

lemma teams_ok_move:
  assumes inv: "teams_ok M d" and one: "cnt P (db_lists d) = 1"
    and d': "db_lists d' = upd_where P f (db_lists d)" "db_orders d' = upd_where Q h (db_orders d)"
    and P: "\<And>l. P l \<Longrightarrow> l_Status l = s" "\<And>l. l \<in> set (db_lists d) \<Longrightarrow> P l \<Longrightarrow> sqlEq M (l_TeamID l) t"
    and f: "\<And>l. l_TeamID (f l) = l_TeamID l" "\<And>l. l_OrderID (f l) = l_OrderID l"
      "\<And>l. l_Status (f l) = s'"
    and Q: "\<And>g. g \<in> set (db_orders d) \<Longrightarrow> Q g \<longleftrightarrow> sqlEq M (o_TeamID g) t"
    and h: "\<And>g. o_TeamID (h g) = o_TeamID g" "\<And>g. o_TargetCount (h g) = o_TargetCount g"
      "\<And>g. g \<in> set (db_orders d) \<Longrightarrow> Q g \<Longrightarrow> o_LockCount (h g) =
        o_LockCount g + (if s' \<noteq> 2 then 1 else 0) - (if s \<noteq> 2 then 1 else 0)"
      "\<And>g. g \<in> set (db_orders d) \<Longrightarrow> Q g \<Longrightarrow> o_CompleteCount (h g) =
        o_CompleteCount g + (if s' = 1 then 1 else 0) - (if s = 1 then 1 else 0)"
    and s: "s' \<noteq> 2 \<Longrightarrow> s \<noteq> 2"
  shows "teams_ok M d'"
proof -
  let ?P = "\<lambda>l. P l \<and> sqlEq M (l_TeamID l) t"
  have PP: "upd_where P f (db_lists d) = upd_where ?P f (db_lists d)"
    unfolding upd_where_def by (rule map_cong) (use P(2) in auto)
  have one': "cnt ?P (db_lists d) = 1"
    using one P(2) by (metis (no_types, lifting) cnt_cong)
  have counts: "int (open_count M d' u) = int (open_count M d u)
      + (if sqlEq M u t then (if s' \<noteq> 2 then 1 else 0) - (if s \<noteq> 2 then 1 else 0) else 0)"
    "int (paid_count M d' u) = int (paid_count M d u)
      + (if sqlEq M u t then (if s' = 1 then 1 else 0) - (if s = 1 then 1 else 0) else 0)" for u
    using one_order_counts [OF one' refl, of M t f s s' u] f(1,3) P(1)
    by (simp_all add: counts_cong [of d' "d\<lparr>db_lists := upd_where ?P f (db_lists d)\<rparr>"] d'(1) PP)
  have "team_ok M d' g'" if g': "g' \<in> set (db_orders d')" for g'
  proof -
    from g' consider g where "g \<in> set (db_orders d)" "Q g" "g' = h g"
      | "g' \<in> set (db_orders d)" "\<not> Q g'"
      unfolding d'(2) by (rule set_upd_whereE)
    then show ?thesis
    proof cases
      case (1 g)
      with inv have "team_ok M d g" unfolding teams_ok_def by blast
      with 1 Q [OF 1(1)] h(1,2) h(3) [OF 1(1,2)] h(4) [OF 1(1,2)] s show ?thesis
        unfolding team_ok_def by (auto simp: counts)
    next
      case 2
      with inv have "team_ok M d g'" unfolding teams_ok_def by blast
      with 2 Q [OF 2(1)] show ?thesis unfolding team_ok_def by (simp add: counts)
    qed
  qed
  moreover have "distinct (map (\<lambda>g. my_ck M (o_TeamID g)) (db_orders d'))"
    "distinct (map (\<lambda>l. my_ck M (l_OrderID l)) (db_lists d'))"
    using inv unfolding teams_ok_def d' by (simp_all add: h(1) f(2))
  moreover have "\<exists>g \<in> set (db_orders d'). sqlEq M (l_TeamID l) (o_TeamID g)"
    if l: "l \<in> set (db_lists d')" for l
  proof -
    from l obtain l0 where "l0 \<in> set (db_lists d)" "l_TeamID l0 = l_TeamID l"
      unfolding d'(1) using f(1) by (metis set_upd_whereE)
    then obtain g where "g \<in> set (db_orders d)" "sqlEq M (l_TeamID l) (o_TeamID g)"
      using inv unfolding teams_ok_def by metis
    moreover from this(1) have "(if Q g then h g else g) \<in> set (db_orders d')"
      unfolding d'(2) upd_where_def by auto
    ultimately show ?thesis using h(1) by (metis (full_types))
  qed
  ultimately show ?thesis unfolding teams_ok_def by blast
qed

section \<open>The transactions keep it\<close>

lemma rp_ok:
  assumes "mysql_ok (rp_db r)"
  shows "gorm_ok o_ID (\<lambda>i. o_ID_update (\<lambda>_. i)) (order_clash (rp_db r)) (my_orders (rp_db r))"
    and "gorm_ok l_ID (\<lambda>i. l_ID_update (\<lambda>_. i)) (list_clash (rp_db r)) (my_lists (rp_db r))"
    and "gorm_ok t_ID (\<lambda>i. t_ID_update (\<lambda>_. i)) no_clash (my_tasks (rp_db r))"
    and "txn_ok (my_txOrder (rp_db r))" and "txn_ok (my_txTask (rp_db r))"
  using mysql_okD [OF assms] by blast+

text \<open>What a refund and a settlement know of the order: it belongs to the team they name.\<close>

definition order_in_team :: "mysql \<Rightarrow> db \<Rightarrow> string \<Rightarrow> string \<Rightarrow> bool" where
  "order_in_team M d orderID t \<longleftrightarrow>
     (\<forall>l \<in> set (db_lists d). sqlEq M (l_OrderID l) orderID \<longrightarrow> sqlEq M (l_TeamID l) t)"

definition pay_in_team :: "mysql \<Rightarrow> db \<Rightarrow> string \<Rightarrow> string \<Rightarrow> string \<Rightarrow> bool" where
  "pay_in_team M d userID outTradeNo t \<longleftrightarrow>
     (\<forall>l \<in> set (db_lists d). sqlEq M (l_UserID l) userID \<and> sqlEq M (l_OutTradeNo l) outTradeNo \<longrightarrow>
        sqlEq M (l_TeamID l) t)"

abbreviation close_hit :: "mysql \<Rightarrow> TradeRefundOrderEntity \<Rightarrow> int \<Rightarrow> GroupBuyOrderList \<Rightarrow> bool" where
  "close_hit M order s \<equiv> \<lambda>l. sqlEq M (l_UserID l) (ro_UserID order) \<and>
     sqlEq M (l_OrderID l) (ro_OrderID order) \<and> l_Status l = s"

abbreviation close_set :: "call_env \<Rightarrow> GroupBuyOrderList \<Rightarrow> GroupBuyOrderList" where
  "close_set E \<equiv> \<lambda>l. l\<lparr>l_Status := 2, l_UpdateTime := ce_now E 0\<rparr>"

lemma close_order_Inr:
  assumes "close_order r E order s d = (Inr u, d')" and "mysql_ok (rp_db r)" and "s \<noteq> 2"
  shows "d' = d\<lparr>db_lists := upd_where (close_hit (rp_db r) order s) (close_set E) (db_lists d)\<rparr> \<and>
    cnt (close_hit (rp_db r) order s) (db_lists d) = 1"
  using assms(1) unfolding close_order_def Let_def
proof (rule one_row_Inr [OF _ rp_ok(2) [OF assms(2)]])
  fix l :: GroupBuyOrderList
  assume "close_hit (rp_db r) order s l"
  then show "close_set E l \<noteq> l"
    using assms(3) by (metis GroupBuyOrderList.select_convs(14) GroupBuyOrderList.surjective
        GroupBuyOrderList.update_convs(14,19))
qed

lemma insertRefundNotify_Inr:
  assumes "insertRefundNotify r E order category rt d = (Inr x, d')" and "mysql_ok (rp_db r)"
  obtains i where "d' = d\<lparr>db_tasks := db_tasks d @
      [(refund_task r E order category rt)\<lparr>t_ID := i\<rparr>]\<rparr>"
    and "x = Some (toNotifyEntity (refund_task r E order category rt))"
proof -
  from assms(1) obtain u d1 where
    c: "dbCreate db_tasks put_tasks (my_tasks (rp_db r)) (refund_task r E order category rt) d = (Inr u, d1)"
    and x: "x = Some (toNotifyEntity (refund_task r E order category rt))" "d' = d1"
    unfolding insertRefundNotify_def Let_def by (rule go_bind_Inr_cases) auto
  from c rp_ok(3) [OF assms(2)] show ?thesis
    by (cases rule: dbCreate_cases) (use x that in auto)
qed

lemma teams_ok_tasks [simp]: "teams_ok M (d\<lparr>db_tasks := ts\<rparr>) = teams_ok M d"
  by (simp add: teams_ok_def team_ok_def open_count_def paid_count_def)

lemma refund_updates_simps:
  "o_TeamID (refund_updates E p dl dc g) = o_TeamID g"
  "o_TargetCount (refund_updates E p dl dc g) = o_TargetCount g"
  "o_Status (refund_updates E p dl dc g) = o_Status g"
  "o_LockCount (refund_updates E p dl dc g) =
     (if dl then o_LockCount g + gp_LockCount p else o_LockCount g)"
  "o_CompleteCount (refund_updates E p dl dc g) =
     (if dc then o_CompleteCount g + gp_CompleteCount p else o_CompleteCount g)"
  by (simp_all add: refund_updates_def Let_def)

text \<open>The refund of an order of an unformed team: \<open>doRefund\<close> with the deltas of its callers.\<close>

lemma doRefund_tx_Inr:
  assumes step: "doRefund_tx r E agg s category rt True decComplete d = (Inr x, d')"
    and M: "mysql_ok (rp_db r)" and lock: "gp_LockCount (agr_GroupBuyProgress agg) \<noteq> 0" and s: "s \<noteq> 2"
  obtains i where
    "d' = d\<lparr>db_lists := upd_where (close_hit (rp_db r) (agr_TradeRefundOrderEntity agg) s)
              (close_set E) (db_lists d),
            db_orders := upd_where
              (\<lambda>g. sqlEq (rp_db r) (o_TeamID g) (ro_TeamID (agr_TradeRefundOrderEntity agg)))
              (refund_updates E (agr_GroupBuyProgress agg) True decComplete) (db_orders d),
            db_tasks := db_tasks d @
              [(refund_task r E (agr_TradeRefundOrderEntity agg) category rt)\<lparr>t_ID := i\<rparr>]\<rparr>"
    "x = Some (toNotifyEntity (refund_task r E (agr_TradeRefundOrderEntity agg) category rt))"
    "cnt (close_hit (rp_db r) (agr_TradeRefundOrderEntity agg) s) (db_lists d) = 1"
    "cnt (\<lambda>g. sqlEq (rp_db r) (o_TeamID g) (ro_TeamID (agr_TradeRefundOrderEntity agg)))
       (db_orders d) = 1"
proof -
  let ?M = "rp_db r" let ?order = "agr_TradeRefundOrderEntity agg"
  let ?upd = "refund_updates E (agr_GroupBuyProgress agg) True decComplete"
  from step obtain u1 d1 u2 d2 where
    close: "close_order r E ?order s d = (Inr u1, d1)"
    and upd: "one_row (dbUpdates db_orders put_orders (my_orders ?M)
         (\<lambda>g. sqlEq ?M (o_TeamID g) (ro_TeamID ?order)) ?upd) d1 = (Inr u2, d2)"
    and ins: "insertRefundNotify r E ?order category rt d2 = (Inr x, d')"
    unfolding doRefund_tx_def Let_def by (elim go_bind_Inr_cases)
  note d1 = close_order_Inr [OF close M s]
  have "?upd g \<noteq> g" for g
    using lock refund_updates_simps(4) [of E "agr_GroupBuyProgress agg" True decComplete g]
    by (metis add_cancel_right_right)
  note d2 = one_row_Inr [OF upd rp_ok(1) [OF M] this]
  obtain i where "d' = d2\<lparr>db_tasks := db_tasks d2 @ [(refund_task r E ?order category rt)\<lparr>t_ID := i\<rparr>]\<rparr>"
    and "x = Some (toNotifyEntity (refund_task r E ?order category rt))"
    using insertRefundNotify_Inr [OF ins M] .
  then show ?thesis by (intro that [of i]) (use d1 d2 in simp_all)
qed

lemma doRefund_teams_ok:
  assumes inv: "teams_ok (rp_db r) d" and M: "mysql_ok (rp_db r)"
    and step: "doRefund r E agg s category rt True decComplete d = (res, d')"
    and agg: "gp_LockCount (agr_GroupBuyProgress agg) = -1"
      "decComplete \<Longrightarrow> gp_CompleteCount (agr_GroupBuyProgress agg) = -1"
    and s: "s = (if decComplete then 1 else 0)"
    and team: "order_in_team (rp_db r) d (ro_OrderID (agr_TradeRefundOrderEntity agg))
      (ro_TeamID (agr_TradeRefundOrderEntity agg))"
  shows "teams_ok (rp_db r) d'"
proof -
  from step have "my_txTask (rp_db r) (doRefund_tx r E agg s category rt True decComplete) d = (res, d')"
    by (simp add: doRefund_def)
  with rp_ok(5) [OF M] show ?thesis
  proof (cases rule: txn_cases)
    case (committed x)
    from committed(2) M obtain i where
      d': "d' = d\<lparr>db_lists := upd_where (close_hit (rp_db r) (agr_TradeRefundOrderEntity agg) s)
              (close_set E) (db_lists d),
            db_orders := upd_where
              (\<lambda>g. sqlEq (rp_db r) (o_TeamID g) (ro_TeamID (agr_TradeRefundOrderEntity agg)))
              (refund_updates E (agr_GroupBuyProgress agg) True decComplete) (db_orders d),
            db_tasks := db_tasks d @
              [(refund_task r E (agr_TradeRefundOrderEntity agg) category rt)\<lparr>t_ID := i\<rparr>]\<rparr>"
      and one: "cnt (close_hit (rp_db r) (agr_TradeRefundOrderEntity agg) s) (db_lists d) = 1"
      by (rule doRefund_tx_Inr) (use agg(1) s in simp_all)
    show ?thesis
      by (rule teams_ok_move [OF inv one, where t = "ro_TeamID (agr_TradeRefundOrderEntity agg)"
          and s' = 2 and s = s and f = "close_set E"
          and Q = "\<lambda>g. sqlEq (rp_db r) (o_TeamID g) (ro_TeamID (agr_TradeRefundOrderEntity agg))"
          and h = "refund_updates E (agr_GroupBuyProgress agg) True decComplete"])
        (use team s agg in \<open>auto simp: d' order_in_team_def refund_updates_simps\<close>)
  qed (use inv in simp)
qed

text \<open>The refund of an order of a formed team.\<close>

abbreviation paidTeam_set ::
    "call_env \<Rightarrow> int \<Rightarrow> int \<Rightarrow> int \<Rightarrow> GroupBuyOrder \<Rightarrow> GroupBuyOrder" where
  "paidTeam_set E lock complete status \<equiv>
     \<lambda>g. g\<lparr>o_LockCount := lock, o_CompleteCount := complete, o_Status := status,
           o_UpdateTime := ce_now E 1\<rparr>"

lemma paidTeam2Refund_tx_Inr:
  assumes step: "paidTeam2Refund_tx r E agg d = (Inr x, d')"
    and M: "mysql_ok (rp_db r)" and lock: "gp_LockCount (agr_GroupBuyProgress agg) \<noteq> 0"
    and key: "distinct (map (\<lambda>g. my_ck (rp_db r) (o_TeamID g)) (db_orders d))"
  obtains i g where
    "g \<in> set (db_orders d)"
    "sqlEq (rp_db r) (o_TeamID g) (ro_TeamID (agr_TradeRefundOrderEntity agg))"
    "d' = d\<lparr>db_lists := upd_where (close_hit (rp_db r) (agr_TradeRefundOrderEntity agg) 1)
              (close_set E) (db_lists d),
            db_orders := upd_where
              (\<lambda>g. sqlEq (rp_db r) (o_TeamID g) (ro_TeamID (agr_TradeRefundOrderEntity agg)))
              (paidTeam_set E (o_LockCount g + gp_LockCount (agr_GroupBuyProgress agg))
                 (o_CompleteCount g + gp_CompleteCount (agr_GroupBuyProgress agg))
                 (if o_CompleteCount g + gp_CompleteCount (agr_GroupBuyProgress agg) \<le> 0
                  then GroupBuyFail else GroupBuyCompleteFail)) (db_orders d),
            db_tasks := db_tasks d @ [(refund_task r E (agr_TradeRefundOrderEntity agg)
              TaskTradePaidTeam2Refund (rt_Code RefundPaidFormed))\<lparr>t_ID := i\<rparr>]\<rparr>"
    "x = Some (toNotifyEntity (refund_task r E (agr_TradeRefundOrderEntity agg)
       TaskTradePaidTeam2Refund (rt_Code RefundPaidFormed)))"
    "cnt (close_hit (rp_db r) (agr_TradeRefundOrderEntity agg) 1) (db_lists d) = 1"
proof -
  let ?M = "rp_db r" let ?order = "agr_TradeRefundOrderEntity agg"
  let ?p = "agr_GroupBuyProgress agg"
  from step obtain u1 d1 row d1' where
    close: "close_order r E ?order 1 d = (Inr u1, d1)"
    and first: "dbFirst db_orders (my_orders ?M) (\<lambda>g. sqlEq ?M (o_TeamID g) (ro_TeamID ?order)) d1
      = (Inr row, d1')"
    and rest: "(case row of None \<Rightarrow> go_err (OtherError ''record not found'')
       | Some team \<Rightarrow> go_bind
          (one_row (dbUpdates db_orders put_orders (my_orders ?M)
            (\<lambda>g. sqlEq ?M (o_TeamID g) (ro_TeamID ?order))
            (paidTeam_set E (o_LockCount team + gp_LockCount ?p) (o_CompleteCount team + gp_CompleteCount ?p)
              (if o_CompleteCount team + gp_CompleteCount ?p \<le> 0 then GroupBuyFail else GroupBuyCompleteFail))))
          (\<lambda>_. insertRefundNotify r E ?order TaskTradePaidTeam2Refund (rt_Code RefundPaidFormed))) d1'
      = (Inr x, d')"
    unfolding paidTeam2Refund_tx_def Let_def by (elim go_bind_Inr_cases)
  note d1 = close_order_Inr [OF close M, simplified]
  from first rp_ok(1) [OF M] rest obtain g where
    row: "row = Some g" "d1' = d1" "find (\<lambda>g. sqlEq ?M (o_TeamID g) (ro_TeamID ?order)) (db_orders d1) = Some g"
    by (cases rule: dbFirst_cases) auto
  have g: "g \<in> set (db_orders d)" "sqlEq ?M (o_TeamID g) (ro_TeamID ?order)"
    using row(3) d1 by (auto simp: find_Some_iff)
  let ?set = "paidTeam_set E (o_LockCount g + gp_LockCount ?p) (o_CompleteCount g + gp_CompleteCount ?p)
    (if o_CompleteCount g + gp_CompleteCount ?p \<le> 0 then GroupBuyFail else GroupBuyCompleteFail)"
  from rest row obtain u2 d2 where
    upd: "one_row (dbUpdates db_orders put_orders (my_orders ?M)
      (\<lambda>g. sqlEq ?M (o_TeamID g) (ro_TeamID ?order)) ?set) d1 = (Inr u2, d2)"
    and ins: "insertRefundNotify r E ?order TaskTradePaidTeam2Refund (rt_Code RefundPaidFormed) d2 = (Inr x, d')"
    by (auto elim: go_bind_Inr_cases)
  have "?set g' \<noteq> g'" if "g' \<in> set (db_orders d1)" "sqlEq ?M (o_TeamID g') (ro_TeamID ?order)" for g'
  proof -
    have "g' = g"
      using filter_key_unique [OF key _ g(1), of g'] that g(2) d1 by (simp add: sqlEq_def)
    moreover have "o_LockCount (?set g) \<noteq> o_LockCount g" using lock by simp
    ultimately show ?thesis by metis
  qed
  note d2 = one_row_Inr [OF upd rp_ok(1) [OF M] this]
  obtain i where "d' = d2\<lparr>db_tasks := db_tasks d2 @ [(refund_task r E ?order
      TaskTradePaidTeam2Refund (rt_Code RefundPaidFormed))\<lparr>t_ID := i\<rparr>]\<rparr>"
    and "x = Some (toNotifyEntity (refund_task r E ?order TaskTradePaidTeam2Refund (rt_Code RefundPaidFormed)))"
    using insertRefundNotify_Inr [OF ins M] .
  then show ?thesis by (intro that [of g i] g) (use d1 d2 in simp_all)
qed

lemma repo_PaidTeam2Refund_teams_ok:
  assumes inv: "teams_ok (rp_db r) d" and M: "mysql_ok (rp_db r)"
    and step: "repo_PaidTeam2Refund r E agg d = (res, d')"
    and agg: "gp_LockCount (agr_GroupBuyProgress agg) = -1"
      "gp_CompleteCount (agr_GroupBuyProgress agg) = -1"
    and team: "order_in_team (rp_db r) d (ro_OrderID (agr_TradeRefundOrderEntity agg))
      (ro_TeamID (agr_TradeRefundOrderEntity agg))"
  shows "teams_ok (rp_db r) d'"
proof -
  have key: "distinct (map (\<lambda>g. my_ck (rp_db r) (o_TeamID g)) (db_orders d))"
    using inv unfolding teams_ok_def by blast
  from step have "my_txTask (rp_db r) (paidTeam2Refund_tx r E agg) d = (res, d')"
    by (simp add: repo_PaidTeam2Refund_def)
  with rp_ok(5) [OF M] show ?thesis
  proof (cases rule: txn_cases)
    case (committed x)
    from committed(2) M _ key obtain i g where
      g: "g \<in> set (db_orders d)"
        "sqlEq (rp_db r) (o_TeamID g) (ro_TeamID (agr_TradeRefundOrderEntity agg))"
      and d': "d' = d\<lparr>db_lists := upd_where (close_hit (rp_db r) (agr_TradeRefundOrderEntity agg) 1)
              (close_set E) (db_lists d),
            db_orders := upd_where
              (\<lambda>g. sqlEq (rp_db r) (o_TeamID g) (ro_TeamID (agr_TradeRefundOrderEntity agg)))
              (paidTeam_set E (o_LockCount g + gp_LockCount (agr_GroupBuyProgress agg))
                 (o_CompleteCount g + gp_CompleteCount (agr_GroupBuyProgress agg))
                 (if o_CompleteCount g + gp_CompleteCount (agr_GroupBuyProgress agg) \<le> 0
                  then GroupBuyFail else GroupBuyCompleteFail)) (db_orders d),
            db_tasks := db_tasks d @ [(refund_task r E (agr_TradeRefundOrderEntity agg)
              TaskTradePaidTeam2Refund (rt_Code RefundPaidFormed))\<lparr>t_ID := i\<rparr>]\<rparr>"
      and one: "cnt (close_hit (rp_db r) (agr_TradeRefundOrderEntity agg) 1) (db_lists d) = 1"
      by (rule paidTeam2Refund_tx_Inr) (use agg in simp)
    have same: "g' = g" if "g' \<in> set (db_orders d)"
      "sqlEq (rp_db r) (o_TeamID g') (ro_TeamID (agr_TradeRefundOrderEntity agg))" for g'
      using filter_key_unique [OF key that(1) g(1)] that(2) g(2) by (simp add: sqlEq_def)
    show ?thesis
      by (rule teams_ok_move [OF inv one, where t = "ro_TeamID (agr_TradeRefundOrderEntity agg)"
          and s' = 2 and s = 1 and f = "close_set E"
          and Q = "\<lambda>g. sqlEq (rp_db r) (o_TeamID g) (ro_TeamID (agr_TradeRefundOrderEntity agg))"
          and h = "\<lambda>g'. (paidTeam_set E (o_LockCount g - 1) (o_CompleteCount g - 1)
             (if o_CompleteCount g - 1 \<le> 0 then GroupBuyFail else GroupBuyCompleteFail)) g'"])
        (use team agg same in \<open>auto simp: d' order_in_team_def\<close>)
  qed (use inv in simp)
qed

section \<open>Settlement\<close>

abbreviation pay_hit :: "mysql \<Rightarrow> GroupBuyTeamSettlementAggregate \<Rightarrow> GroupBuyOrderList \<Rightarrow> bool" where
  "pay_hit M agg \<equiv> \<lambda>l. sqlEq M (l_OutTradeNo l) (ps_OutTradeNo (ags_TradePaySuccessEntity agg)) \<and>
     sqlEq M (l_UserID l) (ue_UserID (ags_UserEntity agg)) \<and> l_Status l = 0"

abbreviation pay_set ::
    "call_env \<Rightarrow> GroupBuyTeamSettlementAggregate \<Rightarrow> GroupBuyOrderList \<Rightarrow> GroupBuyOrderList" where
  "pay_set E agg \<equiv> \<lambda>l. l\<lparr>l_Status := 1,
     l_OutTradeTime := Some (ps_OutTradeTime (ags_TradePaySuccessEntity agg)),
     l_UpdateTime := ce_now E 0\<rparr>"

abbreviation join_hit :: "mysql \<Rightarrow> GroupBuyTeamSettlementAggregate \<Rightarrow> GroupBuyOrder \<Rightarrow> bool" where
  "join_hit M agg \<equiv> \<lambda>g. sqlEq M (o_TeamID g) (gt_TeamID (ags_GroupBuyTeamEntity agg)) \<and>
     o_CompleteCount g < o_TargetCount g"

abbreviation join_set :: "call_env \<Rightarrow> GroupBuyOrder \<Rightarrow> GroupBuyOrder" where
  "join_set E \<equiv> \<lambda>g. g\<lparr>o_CompleteCount := o_CompleteCount g + 1, o_UpdateTime := ce_now E 1\<rparr>"

abbreviation formed_hit :: "mysql \<Rightarrow> GroupBuyTeamSettlementAggregate \<Rightarrow> GroupBuyOrder \<Rightarrow> bool" where
  "formed_hit M agg \<equiv> \<lambda>g. sqlEq M (o_TeamID g) (gt_TeamID (ags_GroupBuyTeamEntity agg)) \<and> o_Status g = 0"

abbreviation formed_set :: "call_env \<Rightarrow> GroupBuyOrder \<Rightarrow> GroupBuyOrder" where
  "formed_set E \<equiv> \<lambda>g. g\<lparr>o_Status := 1, o_UpdateTime := ce_now E 2\<rparr>"

text \<open>The settlement without the last step: the order paid, the team's complete count raised.\<close>

definition settled_db ::
    "mysql \<Rightarrow> call_env \<Rightarrow> GroupBuyTeamSettlementAggregate \<Rightarrow> db \<Rightarrow> db" where
  "settled_db M E agg d =
     d\<lparr>db_lists := upd_where (pay_hit M agg) (pay_set E agg) (db_lists d),
       db_orders := upd_where (join_hit M agg) (join_set E) (db_orders d)\<rparr>"

lemma mset_eq_of_size: "A \<subseteq># B \<Longrightarrow> size A = size B \<Longrightarrow> A = B"
  using mset_subset_size [of A B] by (auto simp: subset_mset.less_le)

lemma settle_complete_Inr:
  assumes step: "settle_complete r E agg d = (Inr x, d')" and M: "mysql_ok (rp_db r)"
  obtains i rows where
    "d' = d\<lparr>db_orders := upd_where (formed_hit (rp_db r) agg) (formed_set E) (db_orders d),
            db_tasks := db_tasks d @ [(settle_task r E agg (map l_OutTradeNo rows))\<lparr>t_ID := i\<rparr>]\<rparr>"
    "x = Some (toNotifyEntity (settle_task r E agg (map l_OutTradeNo rows)))"
    "mset rows = mset (filter (\<lambda>l. sqlEq (rp_db r) (l_TeamID l)
       (gt_TeamID (ags_GroupBuyTeamEntity agg)) \<and> l_Status l = 1) (db_lists d))"
    "cnt (formed_hit (rp_db r) agg) (db_orders d) = 1"
proof -
  let ?M = "rp_db r"
  let ?paid = "\<lambda>l. sqlEq ?M (l_TeamID l) (gt_TeamID (ags_GroupBuyTeamEntity agg)) \<and> l_Status l = 1"
  from step obtain u1 d1 rows d2 u3 d3 where
    upd: "one_row (dbUpdates db_orders put_orders (my_orders ?M) (formed_hit ?M agg) (formed_set E)) d
      = (Inr u1, d1)"
    and find: "dbFind db_lists (my_lists ?M) ?paid Unordered None d1 = (Inr rows, d2)"
    and cre: "dbCreate db_tasks put_tasks (my_tasks ?M) (settle_task r E agg (map l_OutTradeNo rows)) d2
      = (Inr u3, d3)"
    and x: "go_ret (Some (toNotifyEntity (settle_task r E agg (map l_OutTradeNo rows)))) d3 = (Inr x, d')"
    unfolding settle_complete_def Let_def by (elim go_bind_Inr_cases)
  have "formed_set E g \<noteq> g" if "formed_hit ?M agg g" for g
  proof -
    have "o_Status (formed_set E g) \<noteq> o_Status g" using that by simp
    then show ?thesis by metis
  qed
  note d1 = one_row_Inr [OF upd rp_ok(1) [OF M] this]
  have "d2 = d1 \<and> find_ok ?paid Unordered None (db_lists d1) rows"
    using find rp_ok(2) [OF M] by (rule dbFind_cases) simp_all
  then have d2: "d2 = d1" and ok: "find_ok ?paid Unordered None (db_lists d1) rows" by simp_all
  have "mset rows = mset (filter ?paid (db_lists d))"
  proof -
    have "mset rows \<subseteq># mset (filter ?paid (db_lists d))" "length rows = cnt ?paid (db_lists d)"
      using ok d1 by (simp_all add: find_ok_def del: mset_filter)
    moreover from this(2) have "size (mset rows) = size (mset (filter ?paid (db_lists d)))"
      by (simp add: cnt_def del: mset_filter)
    ultimately show ?thesis by (simp only: mset_eq_of_size)
  qed
  moreover from cre rp_ok(3) [OF M] obtain i where
    "d3 = d2\<lparr>db_tasks := db_tasks d2 @ [(settle_task r E agg (map l_OutTradeNo rows))\<lparr>t_ID := i\<rparr>]\<rparr>"
    by (cases rule: dbCreate_cases) auto
  ultimately show ?thesis by (intro that [of i rows]) (use d1 d2 x in simp_all)
qed

text \<open>What a settlement that succeeds did: the two updates, and the last step when it was due.\<close>

lemma settle_tx_Inr:
  assumes step: "settle_tx r E agg d = (Inr x, d')" and M: "mysql_ok (rp_db r)"
  shows "cnt (pay_hit (rp_db r) agg) (db_lists d) = 1"
    and "cnt (join_hit (rp_db r) agg) (db_orders d) = 1"
    and "if gt_TargetCount (ags_GroupBuyTeamEntity agg) - gt_CompleteCount (ags_GroupBuyTeamEntity agg) = 1
      then settle_complete r E agg (settled_db (rp_db r) E agg d) = (Inr x, d')
      else x = None \<and> d' = settled_db (rp_db r) E agg d"
proof -
  let ?M = "rp_db r"
  from step obtain u1 d1 u2 d2 where
    pay: "one_row (dbUpdates db_lists put_lists (my_lists ?M) (pay_hit ?M agg) (pay_set E agg)) d
      = (Inr u1, d1)"
    and join: "one_row (dbUpdates db_orders put_orders (my_orders ?M) (join_hit ?M agg) (join_set E)) d1
      = (Inr u2, d2)"
    and rest: "(if gt_TargetCount (ags_GroupBuyTeamEntity agg) -
        gt_CompleteCount (ags_GroupBuyTeamEntity agg) = 1 then settle_complete r E agg else go_ret None) d2
      = (Inr x, d')"
    unfolding settle_tx_def Let_def by (elim go_bind_Inr_cases)
  have "pay_set E agg l \<noteq> l" if "pay_hit ?M agg l" for l
  proof -
    have "l_Status (pay_set E agg l) \<noteq> l_Status l" using that by simp
    then show ?thesis by metis
  qed
  note d1 = one_row_Inr [OF pay rp_ok(2) [OF M] this]
  have "join_set E g \<noteq> g" for g
  proof -
    have "o_CompleteCount (join_set E g) \<noteq> o_CompleteCount g" by simp
    then show ?thesis by metis
  qed
  note d2 = one_row_Inr [OF join rp_ok(1) [OF M] this]
  from d1 show "cnt (pay_hit ?M agg) (db_lists d) = 1" by simp
  from d1 d2 show "cnt (join_hit ?M agg) (db_orders d) = 1" by simp
  from d1 d2 have "d2 = settled_db ?M E agg d" by (simp add: settled_db_def)
  with rest show "if gt_TargetCount (ags_GroupBuyTeamEntity agg) -
      gt_CompleteCount (ags_GroupBuyTeamEntity agg) = 1
      then settle_complete r E agg (settled_db ?M E agg d) = (Inr x, d')
      else x = None \<and> d' = settled_db ?M E agg d"
    by (auto split: if_splits)
qed

text \<open>Changing the status of team rows alone is nothing to the invariant.\<close>

lemma teams_ok_status:
  assumes "teams_ok M d" and "\<And>g. o_TeamID (h g) = o_TeamID g" "\<And>g. o_TargetCount (h g) = o_TargetCount g"
    "\<And>g. o_LockCount (h g) = o_LockCount g" "\<And>g. o_CompleteCount (h g) = o_CompleteCount g"
  shows "teams_ok M (d\<lparr>db_orders := upd_where P h (db_orders d)\<rparr>)"
proof -
  have counts: "open_count M (d\<lparr>db_orders := t\<rparr>) = open_count M d"
    "paid_count M (d\<lparr>db_orders := t\<rparr>) = paid_count M d" for t
    by (simp_all add: fun_eq_iff open_count_def paid_count_def)
  have "team_ok M (d\<lparr>db_orders := t\<rparr>) (h g) = team_ok M d g"
    "team_ok M (d\<lparr>db_orders := t\<rparr>) g = team_ok M d g" for g t
    by (simp_all add: team_ok_def assms counts)
  with assms(1) have "\<forall>g \<in> set (upd_where P h (db_orders d)).
      team_ok M (d\<lparr>db_orders := upd_where P h (db_orders d)\<rparr>) g"
    unfolding teams_ok_def by (metis set_upd_whereE)
  moreover have "\<exists>g' \<in> set (upd_where P h (db_orders d)). sqlEq M t (o_TeamID g')"
    if team: "\<exists>g \<in> set (db_orders d). sqlEq M t (o_TeamID g)" for t
  proof -
    from team obtain g where g: "g \<in> set (db_orders d)" "sqlEq M t (o_TeamID g)" by blast
    then have "(if P g then h g else g) \<in> set (upd_where P h (db_orders d))"
      by (simp add: upd_where_def)
    with g(2) show ?thesis by (metis assms(2))
  qed
  ultimately show ?thesis using assms(1) unfolding teams_ok_def by (simp add: assms(2))
qed

lemma settled_db_teams_ok:
  assumes inv: "teams_ok M d" and one: "cnt (pay_hit M agg) (db_lists d) = 1"
    "cnt (join_hit M agg) (db_orders d) = 1"
    and team: "pay_in_team M d (ue_UserID (ags_UserEntity agg))
      (ps_OutTradeNo (ags_TradePaySuccessEntity agg)) (gt_TeamID (ags_GroupBuyTeamEntity agg))"
  shows "teams_ok M (settled_db M E agg d)"
proof -
  have key: "distinct (map (\<lambda>g. my_ck M (o_TeamID g)) (db_orders d))"
    using inv unfolding teams_ok_def by blast
  from one(2) have "0 < cnt (join_hit M agg) (db_orders d)" by simp
  then obtain g where g: "g \<in> set (db_orders d)" "join_hit M agg g"
    unfolding cnt_pos_iff by blast
  have hit: "join_hit M agg g' \<longleftrightarrow> sqlEq M (o_TeamID g') (gt_TeamID (ags_GroupBuyTeamEntity agg))"
    if "g' \<in> set (db_orders d)" for g'
    using filter_key_unique [OF key that g(1)] g(2) unfolding sqlEq_def by metis
  show ?thesis
    by (rule teams_ok_move [OF inv one(1), where t = "gt_TeamID (ags_GroupBuyTeamEntity agg)"
        and s = 0 and s' = 1 and f = "pay_set E agg" and Q = "join_hit M agg" and h = "join_set E"])
      (use team hit in \<open>auto simp: settled_db_def pay_in_team_def\<close>)
qed

lemma repo_Settlement_teams_ok:
  assumes inv: "teams_ok (rp_db r) d" and M: "mysql_ok (rp_db r)"
    and step: "repo_SettlementMarketPayOrder r E agg d = (res, d')"
    and team: "pay_in_team (rp_db r) d (ue_UserID (ags_UserEntity agg))
      (ps_OutTradeNo (ags_TradePaySuccessEntity agg)) (gt_TeamID (ags_GroupBuyTeamEntity agg))"
  shows "teams_ok (rp_db r) d'"
proof -
  from step have "my_txTask (rp_db r) (settle_tx r E agg) d = (res, d')"
    by (simp add: repo_SettlementMarketPayOrder_def)
  with rp_ok(5) [OF M] show ?thesis
  proof (cases rule: txn_cases)
    case (committed x)
    note ran = settle_tx_Inr [OF committed(2) M]
    note inv' = settled_db_teams_ok [OF inv ran(1,2) team, of E]
    show ?thesis
    proof (cases "gt_TargetCount (ags_GroupBuyTeamEntity agg) -
        gt_CompleteCount (ags_GroupBuyTeamEntity agg) = 1")
      case True
      with ran(3) have "settle_complete r E agg (settled_db (rp_db r) E agg d) = (Inr x, d')" by simp
      then obtain i and rows :: "GroupBuyOrderList list" where "d' = (settled_db (rp_db r) E agg d)
          \<lparr>db_orders := upd_where (formed_hit (rp_db r) agg) (formed_set E)
             (db_orders (settled_db (rp_db r) E agg d)),
           db_tasks := db_tasks (settled_db (rp_db r) E agg d) @
             [(settle_task r E agg (map l_OutTradeNo rows))\<lparr>t_ID := i\<rparr>]\<rparr>"
        using M by (rule settle_complete_Inr) blast
      moreover have "teams_ok (rp_db r) ((settled_db (rp_db r) E agg d)
          \<lparr>db_orders := upd_where (formed_hit (rp_db r) agg) (formed_set E)
             (db_orders (settled_db (rp_db r) E agg d))\<rparr>)"
        by (rule teams_ok_status [OF inv']) simp_all
      ultimately show ?thesis by simp
    next
      case False
      with ran(3) inv' show ?thesis by simp
    qed
  qed (use inv in simp)
qed

section \<open>Locking\<close>

abbreviation room_hit :: "mysql \<Rightarrow> string \<Rightarrow> GroupBuyOrder \<Rightarrow> bool" where
  "room_hit M t \<equiv> \<lambda>g. sqlEq M (o_TeamID g) t \<and> o_LockCount g < o_TargetCount g"

abbreviation room_set :: "call_env \<Rightarrow> GroupBuyOrder \<Rightarrow> GroupBuyOrder" where
  "room_set E \<equiv> \<lambda>g. g\<lparr>o_LockCount := o_LockCount g + 1, o_UpdateTime := ce_now E 0\<rparr>"

definition lock_result :: "call_env \<Rightarrow> GroupBuyOrderAggregate \<Rightarrow> string \<Rightarrow> MarketPayOrderEntity" where
  "lock_result E agg teamID =
     \<lparr>mo_TeamID = teamID,
      mo_OrderID = lock_orderID E agg,
      mo_OriginalPrice = pd_OriginalPrice (agl_PayDiscountEntity agg),
      mo_DeductionPrice = pd_DeductionPrice (agl_PayDiscountEntity agg),
      mo_PayPrice = pd_PayPrice (agl_PayDiscountEntity agg),
      mo_TradeOrderStatus = TradeOrderCreate\<rparr>"

lemma lock_team_Inr:
  assumes step: "lock_team r E agg d = (Inr t, d')" and M: "mysql_ok (rp_db r)"
  obtains (new) i where "pa_TeamID (agl_PayActivityEntity agg) = ''''" "t = randomNumeric E 0 8"
      "d' = d\<lparr>db_orders := db_orders d @ [(new_team E agg t)\<lparr>o_ID := i\<rparr>]\<rparr>"
      "\<forall>g \<in> set (db_orders d). \<not> sqlEq (rp_db r) t (o_TeamID g)"
  | (join) "pa_TeamID (agl_PayActivityEntity agg) = t" "t \<noteq> ''''"
      "d' = d\<lparr>db_orders := upd_where (room_hit (rp_db r) t) (room_set E) (db_orders d)\<rparr>"
      "cnt (room_hit (rp_db r) t) (db_orders d) = 1"
proof (cases "pa_TeamID (agl_PayActivityEntity agg) = ''''")
  case True
  with step obtain u where t: "t = randomNumeric E 0 8"
    and cre: "dbCreate db_orders put_orders (my_orders (rp_db r)) (new_team E agg t) d = (Inr u, d')"
    unfolding lock_team_def Let_def by (auto elim: go_bind_Inr_cases)
  have "o_TeamID (new_team E agg t) = t" by (simp add: new_team_def Let_def)
  with cre rp_ok(1) [OF M] show ?thesis
    by (cases rule: dbCreate_cases) (use True t in \<open>auto simp: order_clash_def intro: new\<close>)
next
  case False
  with step obtain n d1 where
    upd: "dbUpdates db_orders put_orders (my_orders (rp_db r))
      (room_hit (rp_db r) (pa_TeamID (agl_PayActivityEntity agg))) (room_set E) d = (Inr n, d1)"
    and n: "n = 1" "d1 = d'" and t: "t = pa_TeamID (agl_PayActivityEntity agg)"
    unfolding lock_team_def Let_def by (auto elim!: go_bind_Inr_cases split: if_splits)
  have ne: "room_set E g \<noteq> g" for g
  proof -
    have "o_LockCount (room_set E g) \<noteq> o_LockCount g" by simp
    then show ?thesis by metis
  qed
  from upd rp_ok(1) [OF M] show ?thesis
    by (cases rule: dbUpdates_cases) (use n t False ne join in simp_all)
qed

lemma lock_tx_Inr:
  assumes step: "lock_tx r E agg d = (Inr x, d')" and M: "mysql_ok (rp_db r)"
  obtains t d1 j where "lock_team r E agg d = (Inr t, d1)"
    "d' = d1\<lparr>db_lists := db_lists d1 @ [(new_order E agg t (lock_orderID E agg))\<lparr>l_ID := j\<rparr>]\<rparr>"
    "\<forall>l \<in> set (db_lists d1). \<not> list_clash (rp_db r) (new_order E agg t (lock_orderID E agg)) l"
    "x = lock_result E agg t"
proof -
  let ?order = "\<lambda>t. new_order E agg t (lock_orderID E agg)"
  from step obtain t d1 where team: "lock_team r E agg d = (Inr t, d1)"
    and rest: "(case dbCreate db_lists put_lists (my_lists (rp_db r)) (?order t) d1 of
               (Inl err, d') \<Rightarrow>
                 if isDuplicate (Some err) then (Inl (NewAppException INDEX_EXCEPTION), d')
                 else (Inl err, d')
             | (Inr _, d') \<Rightarrow> (Inr (lock_result E agg t), d')) = (Inr x, d')"
    unfolding lock_tx_def Let_def lock_result_def by (elim go_bind_Inr_cases)
  obtain q d2 where cre: "dbCreate db_lists put_lists (my_lists (rp_db r)) (?order t) d1 = (q, d2)"
    by force
  from cre rp_ok(2) [OF M] show ?thesis
    by (cases rule: dbCreate_cases) (use rest cre team that in \<open>auto split: if_splits\<close>)
qed

lemma new_order_simps [simp]:
  "l_TeamID (new_order E agg t n) = t" "l_OrderID (new_order E agg t n) = n"
  "l_Status (new_order E agg t n) = 0" "l_BizID (new_order E agg t n) = lock_bizID agg"
  "l_UserID (new_order E agg t n) = ue_UserID (agl_UserEntity agg)"
  "l_OutTradeNo (new_order E agg t n) = pd_OutTradeNo (agl_PayDiscountEntity agg)"
  "l_ActivityID (new_order E agg t n) = pa_ActivityID (agl_PayActivityEntity agg)"
  "l_OutTradeTime (new_order E agg t n) = None"
  by (simp_all add: new_order_def Let_def)

lemma new_team_simps [simp]:
  "o_TeamID (new_team E agg t) = t" "o_LockCount (new_team E agg t) = 1"
  "o_CompleteCount (new_team E agg t) = 0" "o_Status (new_team E agg t) = 0"
  "o_TargetCount (new_team E agg t) = pa_TargetCount (agl_PayActivityEntity agg)"
  by (simp_all add: new_team_def Let_def)

text \<open>A new order in a team whose lock count goes up with it keeps the invariant.\<close>

lemma teams_ok_add:
  assumes inv: "teams_ok M d" and l: "l_Status l = 0"
    and new: "\<forall>l' \<in> set (db_lists d). \<not> sqlEq M (l_OrderID l) (l_OrderID l')"
    and d': "db_lists d' = db_lists d @ [l]"
    and key: "distinct (map (\<lambda>g. my_ck M (o_TeamID g)) (db_orders d'))"
    and old: "\<And>g'. g' \<in> set (db_orders d') \<Longrightarrow>
      (g' \<in> set (db_orders d) \<and> \<not> sqlEq M (l_TeamID l) (o_TeamID g')) \<or>
      (\<exists>g \<in> set (db_orders d). g' = g\<lparr>o_LockCount := o_LockCount g + 1, o_UpdateTime := now\<rparr> \<and>
         sqlEq M (l_TeamID l) (o_TeamID g) \<and> o_LockCount g < o_TargetCount g) \<or>
      (sqlEq M (l_TeamID l) (o_TeamID g') \<and> o_LockCount g' = 1 \<and> o_CompleteCount g' = 0 \<and>
         1 \<le> o_TargetCount g' \<and> (\<forall>g \<in> set (db_orders d). \<not> sqlEq M (o_TeamID g') (o_TeamID g)))"
    and keep: "\<And>t. \<exists>g \<in> set (db_orders d). sqlEq M t (o_TeamID g) \<Longrightarrow>
      \<exists>g \<in> set (db_orders d'). sqlEq M t (o_TeamID g)"
    and has: "\<exists>g \<in> set (db_orders d'). sqlEq M (l_TeamID l) (o_TeamID g)"
  shows "teams_ok M d'"
proof -
  have counts: "open_count M d' t = open_count M d t + (if sqlEq M (l_TeamID l) t then 1 else 0)"
    "paid_count M d' t = paid_count M d t" for t
    using l by (simp_all add: open_count_def paid_count_def d')
  have empty: "open_count M d t = 0 \<and> paid_count M d t = 0"
    if "\<forall>g \<in> set (db_orders d). \<not> sqlEq M t (o_TeamID g)" for t
    using inv that unfolding teams_ok_def open_count_def paid_count_def cnt_0_iff
    by (metis sqlEq_sym sqlEq_trans)
  have "team_ok M d' g'" if g': "g' \<in> set (db_orders d')" for g'
  proof -
    from old [OF g'] consider "g' \<in> set (db_orders d)" "\<not> sqlEq M (l_TeamID l) (o_TeamID g')"
      | g where "g \<in> set (db_orders d)" "g' = g\<lparr>o_LockCount := o_LockCount g + 1, o_UpdateTime := now\<rparr>"
         "sqlEq M (l_TeamID l) (o_TeamID g)" "o_LockCount g < o_TargetCount g"
      | "sqlEq M (l_TeamID l) (o_TeamID g')" "o_LockCount g' = 1" "o_CompleteCount g' = 0"
         "1 \<le> o_TargetCount g'" "\<forall>g \<in> set (db_orders d). \<not> sqlEq M (o_TeamID g') (o_TeamID g)"
      by blast
    then show ?thesis
    proof cases
      case 1
      with inv have "team_ok M d g'" unfolding teams_ok_def by blast
      with 1 show ?thesis unfolding team_ok_def by (simp add: counts)
    next
      case (2 g)
      with inv have "team_ok M d g" unfolding teams_ok_def by blast
      with 2 show ?thesis unfolding team_ok_def by (simp add: counts)
    next
      case 3
      then show ?thesis using empty [OF 3(5)] unfolding team_ok_def by (simp add: counts)
    qed
  qed
  moreover have "distinct (map (\<lambda>l. my_ck M (l_OrderID l)) (db_lists d'))"
    using inv new unfolding teams_ok_def d' by (auto simp: sqlEq_def)
  moreover have "\<forall>l' \<in> set (db_lists d'). \<exists>g \<in> set (db_orders d'). sqlEq M (l_TeamID l') (o_TeamID g)"
    using inv keep has unfolding teams_ok_def d' by auto
  ultimately show ?thesis unfolding teams_ok_def using key by blast
qed

lemma lock_new_teams_ok:
  assumes inv: "teams_ok M d" and target: "1 \<le> pa_TargetCount (agl_PayActivityEntity agg)"
    and new: "\<forall>g \<in> set (db_orders d). \<not> sqlEq M t (o_TeamID g)"
    and fresh: "\<forall>l \<in> set (db_lists d). \<not> sqlEq M n (l_OrderID l)"
  shows "teams_ok M (d\<lparr>db_orders := db_orders d @ [(new_team E agg t)\<lparr>o_ID := i\<rparr>],
    db_lists := db_lists d @ [(new_order E agg t n)\<lparr>l_ID := j\<rparr>]\<rparr>)" (is "teams_ok M ?d")
proof (rule teams_ok_add [OF inv, where l = "(new_order E agg t n)\<lparr>l_ID := j\<rparr>" and now = 0])
  show "distinct (map (\<lambda>g. my_ck M (o_TeamID g)) (db_orders ?d))"
    using inv new unfolding teams_ok_def by (auto simp: sqlEq_def)
next
  fix g' assume "g' \<in> set (db_orders ?d)"
  then consider "g' \<in> set (db_orders d)" | "g' = (new_team E agg t)\<lparr>o_ID := i\<rparr>" by auto
  then show "(g' \<in> set (db_orders d) \<and>
         \<not> sqlEq M (l_TeamID ((new_order E agg t n)\<lparr>l_ID := j\<rparr>)) (o_TeamID g')) \<or>
      (\<exists>g \<in> set (db_orders d). g' = g\<lparr>o_LockCount := o_LockCount g + 1, o_UpdateTime := 0\<rparr> \<and>
         sqlEq M (l_TeamID ((new_order E agg t n)\<lparr>l_ID := j\<rparr>)) (o_TeamID g) \<and>
         o_LockCount g < o_TargetCount g) \<or>
      (sqlEq M (l_TeamID ((new_order E agg t n)\<lparr>l_ID := j\<rparr>)) (o_TeamID g') \<and>
         o_LockCount g' = 1 \<and> o_CompleteCount g' = 0 \<and> 1 \<le> o_TargetCount g' \<and>
         (\<forall>g \<in> set (db_orders d). \<not> sqlEq M (o_TeamID g') (o_TeamID g)))"
    by cases (use new target in simp_all)
qed (use fresh in simp_all)

lemma lock_join_teams_ok:
  assumes inv: "teams_ok M d" and one: "cnt (room_hit M t) (db_orders d) = 1"
    and fresh: "\<forall>l \<in> set (db_lists d). \<not> sqlEq M n (l_OrderID l)"
  shows "teams_ok M (d\<lparr>db_orders := upd_where (room_hit M t) (room_set E) (db_orders d),
    db_lists := db_lists d @ [(new_order E agg t n)\<lparr>l_ID := j\<rparr>]\<rparr>)" (is "teams_ok M ?d")
proof (rule teams_ok_add [OF inv, where l = "(new_order E agg t n)\<lparr>l_ID := j\<rparr>" and now = "ce_now E 0"])
  have key: "distinct (map (\<lambda>g. my_ck M (o_TeamID g)) (db_orders d))"
    using inv unfolding teams_ok_def by blast
  then show "distinct (map (\<lambda>g. my_ck M (o_TeamID g)) (db_orders ?d))" by simp
  from one have "0 < cnt (room_hit M t) (db_orders d)" by simp
  then obtain g where g: "g \<in> set (db_orders d)" "room_hit M t g" unfolding cnt_pos_iff by blast
  show keep: "\<exists>g \<in> set (db_orders ?d). sqlEq M u (o_TeamID g)"
    if team: "\<exists>g \<in> set (db_orders d). sqlEq M u (o_TeamID g)" for u
  proof -
    from team obtain h where "h \<in> set (db_orders d)" "sqlEq M u (o_TeamID h)" by blast
    then have "(if room_hit M t h then room_set E h else h) \<in> set (db_orders ?d)"
      "sqlEq M u (o_TeamID (if room_hit M t h then room_set E h else h))"
      by (simp_all add: upd_where_def)
    then show ?thesis by blast
  qed
  show "\<exists>g \<in> set (db_orders ?d). sqlEq M (l_TeamID ((new_order E agg t n)\<lparr>l_ID := j\<rparr>)) (o_TeamID g)"
    by (rule keep) (use g in \<open>auto simp: sqlEq_sym [of M t]\<close>)
  fix g' assume "g' \<in> set (db_orders ?d)"
  then have "g' \<in> set (upd_where (room_hit M t) (room_set E) (db_orders d))" by simp
  then show "(g' \<in> set (db_orders d) \<and>
         \<not> sqlEq M (l_TeamID ((new_order E agg t n)\<lparr>l_ID := j\<rparr>)) (o_TeamID g')) \<or>
      (\<exists>g \<in> set (db_orders d). g' = g\<lparr>o_LockCount := o_LockCount g + 1, o_UpdateTime := ce_now E 0\<rparr> \<and>
         sqlEq M (l_TeamID ((new_order E agg t n)\<lparr>l_ID := j\<rparr>)) (o_TeamID g) \<and>
         o_LockCount g < o_TargetCount g) \<or>
      (sqlEq M (l_TeamID ((new_order E agg t n)\<lparr>l_ID := j\<rparr>)) (o_TeamID g') \<and>
         o_LockCount g' = 1 \<and> o_CompleteCount g' = 0 \<and> 1 \<le> o_TargetCount g' \<and>
         (\<forall>g \<in> set (db_orders d). \<not> sqlEq M (o_TeamID g') (o_TeamID g)))"
  proof (cases rule: set_upd_whereE)
    case (hit x)
    then show ?thesis by (auto simp: sqlEq_sym [of M t])
  next
    case miss
    then have "\<not> sqlEq M t (o_TeamID g')"
      using g filter_key_unique [OF key miss(1) g(1)] unfolding sqlEq_def by metis
    with miss show ?thesis by simp
  qed
qed (use fresh in simp_all)

lemma repo_Lock_teams_ok:
  assumes inv: "teams_ok (rp_db r) d" and M: "mysql_ok (rp_db r)"
    and step: "repo_LockMarketPayOrder r E agg d = (res, d')"
    and target: "1 \<le> pa_TargetCount (agl_PayActivityEntity agg)"
  shows "teams_ok (rp_db r) d'"
proof -
  from step have "my_txOrder (rp_db r) (lock_tx r E agg) d = (res, d')"
    by (simp add: repo_LockMarketPayOrder_def)
  with rp_ok(4) [OF M] show ?thesis
  proof (cases rule: txn_cases)
    case (committed x)
    from committed(2) M obtain t d1 j where team: "lock_team r E agg d = (Inr t, d1)"
      and d': "d' = d1\<lparr>db_lists := db_lists d1 @ [(new_order E agg t (lock_orderID E agg))\<lparr>l_ID := j\<rparr>]\<rparr>"
      and "\<forall>l \<in> set (db_lists d1). \<not> list_clash (rp_db r) (new_order E agg t (lock_orderID E agg)) l"
      by (rule lock_tx_Inr) blast
    then have fresh: "\<forall>l \<in> set (db_lists d1). \<not> sqlEq (rp_db r) (lock_orderID E agg) (l_OrderID l)"
      by (simp add: list_clash_def)
    from team M show ?thesis
    proof (cases rule: lock_team_Inr)
      case (new i)
      with lock_new_teams_ok [OF inv target new(4), where n = "lock_orderID E agg" and E = E and i = i and j = j] fresh
      show ?thesis by (simp add: d')
    next
      case join
      with lock_join_teams_ok [OF inv join(4), where n = "lock_orderID E agg" and E = E and agg = agg and j = j] fresh
      show ?thesis by (simp add: d')
    qed
  qed (use inv in simp)
qed

end
