(* ===== verification/Team_Steps.thy ===== *)
theory Team_Steps
  imports Team_Invariant
begin

text \<open>
  The database under any sequence of the five trade transactions, each on whatever aggregate a
  service built from its earlier reads, successful or not, and of the status updates of notify
  tasks. The guards: a lock is for a team of at least one place, a refund names the team its order is
  in, and so does a settlement for every order its payment may hit. The services keep to them as long as
  no trade number is used for orders of two teams (C15 is about one that is). Then what a lock
  transaction does on each of its branches.
\<close>

inductive trade_step :: "TradeRepository \<Rightarrow> db \<Rightarrow> db \<Rightarrow> bool" for r where
  lock: "repo_LockMarketPayOrder r E agg d = (res, d') \<Longrightarrow>
     1 \<le> pa_TargetCount (agl_PayActivityEntity agg) \<Longrightarrow> trade_step r d d'"
| settle: "repo_SettlementMarketPayOrder r E sagg d = (rest, d') \<Longrightarrow>
     pay_in_team (rp_db r) d (ue_UserID (ags_UserEntity sagg))
       (ps_OutTradeNo (ags_TradePaySuccessEntity sagg)) (gt_TeamID (ags_GroupBuyTeamEntity sagg)) \<Longrightarrow>
     trade_step r d d'"
| unpaid: "repo_Unpaid2Refund r E (BuildUnpaid2RefundAggregate order (-1)) d = (rest, d') \<Longrightarrow>
     order_in_team (rp_db r) d (ro_OrderID order) (ro_TeamID order) \<Longrightarrow> trade_step r d d'"
| paid: "repo_Paid2Refund r E (BuildPaid2RefundAggregate order (-1) (-1)) d = (rest, d') \<Longrightarrow>
     order_in_team (rp_db r) d (ro_OrderID order) (ro_TeamID order) \<Longrightarrow> trade_step r d d'"
| paidTeam: "repo_PaidTeam2Refund r E (BuildPaidTeam2RefundAggregate order (-1) (-1)) d = (rest, d') \<Longrightarrow>
     order_in_team (rp_db r) d (ro_OrderID order) (ro_TeamID order) \<Longrightarrow> trade_step r d d'"
| task: "set_task_status r E status t d = (n, d') \<Longrightarrow> trade_step r d d'"

lemma set_task_status_teams_ok:
  assumes "teams_ok (rp_db r) d" and "mysql_ok (rp_db r)" and "set_task_status r E status t d = (n, d')"
  shows "teams_ok (rp_db r) d'"
  using assms(3) rp_ok(3) [OF assms(2)] unfolding set_task_status_def
  by (rule dbUpdates_cases) (use assms(1) in simp_all)

lemma Build_simps [simp]:
  "agr_TradeRefundOrderEntity (BuildUnpaid2RefundAggregate order a) = order"
  "gp_LockCount (agr_GroupBuyProgress (BuildUnpaid2RefundAggregate order a)) = a"
  "gp_CompleteCount (agr_GroupBuyProgress (BuildUnpaid2RefundAggregate order a)) = 0"
  "agr_TradeRefundOrderEntity (BuildPaid2RefundAggregate order a b) = order"
  "gp_LockCount (agr_GroupBuyProgress (BuildPaid2RefundAggregate order a b)) = a"
  "gp_CompleteCount (agr_GroupBuyProgress (BuildPaid2RefundAggregate order a b)) = b"
  "agr_TradeRefundOrderEntity (BuildPaidTeam2RefundAggregate order a b) = order"
  "gp_LockCount (agr_GroupBuyProgress (BuildPaidTeam2RefundAggregate order a b)) = a"
  "gp_CompleteCount (agr_GroupBuyProgress (BuildPaidTeam2RefundAggregate order a b)) = b"
  by (simp_all add: BuildUnpaid2RefundAggregate_def BuildPaid2RefundAggregate_def
      BuildPaidTeam2RefundAggregate_def)

lemma trade_step_teams_ok:
  assumes "trade_step r d d'" and inv: "teams_ok (rp_db r) d" and M: "mysql_ok (rp_db r)"
  shows "teams_ok (rp_db r) d'"
  using assms(1)
proof cases
  case lock
  then show ?thesis using repo_Lock_teams_ok [OF inv M] by blast
next
  case settle
  then show ?thesis using repo_Settlement_teams_ok [OF inv M] by blast
next
  case unpaid
  then show ?thesis
    by (intro doRefund_teams_ok [OF inv M unpaid(1) [unfolded repo_Unpaid2Refund_def]]) simp_all
next
  case paid
  then show ?thesis
    by (intro doRefund_teams_ok [OF inv M paid(1) [unfolded repo_Paid2Refund_def]]) simp_all
next
  case paidTeam
  then show ?thesis
    by (intro repo_PaidTeam2Refund_teams_ok [OF inv M paidTeam(1)]) simp_all
next
  case task
  then show ?thesis using set_task_status_teams_ok [OF inv M] by blast
qed

lemma trade_steps_teams_ok:
  assumes "(trade_step r)\<^sup>*\<^sup>* d d'" and "teams_ok (rp_db r) d" and "mysql_ok (rp_db r)"
  shows "teams_ok (rp_db r) d'"
  using assms by (induction rule: rtranclp_induct) (auto intro: trade_step_teams_ok)

lemma teams_ok_bounds:
  assumes "teams_ok M d" and "g \<in> set (db_orders d)"
  shows "0 \<le> o_CompleteCount g \<and> o_CompleteCount g \<le> o_LockCount g \<and> o_LockCount g \<le> o_TargetCount g"
proof -
  have "team_ok M d g" using assms unfolding teams_ok_def by blast
  then show ?thesis using paid_le_open [of M d "o_TeamID g"] unfolding team_ok_def by simp
qed

section \<open>Closed instances\<close>

text \<open>A database with an open activity, and what a lock, a settlement and a refund of it look like.\<close>

definition ex_db :: db where
  "ex_db = \<lparr>db_activities = [], db_discounts = [], db_skus = [], db_scskus = [], db_orders = [],
     db_lists = [], db_tasks = [], db_ctags = [], db_cdetails = [], db_cjobs = []\<rparr>"

definition ex_env :: "nat \<Rightarrow> call_env" where
  "ex_env k = \<lparr>ce_now = (\<lambda>_. 1000), ce_rand = (\<lambda>_. k)\<rparr>"

definition ex_lock :: "string \<Rightarrow> string \<Rightarrow> GroupBuyOrderAggregate" where
  "ex_lock user teamID =
     \<lparr>agl_UserEntity = \<lparr>ue_UserID = user\<rparr>,
      agl_PayActivityEntity =
        \<lparr>pa_TeamID = teamID, pa_ActivityID = 100123, pa_ActivityName = ''a'', pa_StartTime = 0,
         pa_EndTime = 100000, pa_ValidTime = 15, pa_TargetCount = 2\<rparr>,
      agl_PayDiscountEntity =
        \<lparr>pd_Source = ''s01'', pd_Channel = ''c01'', pd_GoodsID = ''9890001'', pd_GoodsName = ''g'',
         pd_OriginalPrice = Decimal 100 0, pd_DeductionPrice = Decimal 20 0,
         pd_PayPrice = Decimal 80 0, pd_OutTradeNo = user @ ''-1'', pd_NotifyConfig = None\<rparr>,
      agl_UserTakeOrderCount = 0\<rparr>"

definition ex_settle :: "string \<Rightarrow> int \<Rightarrow> GroupBuyTeamSettlementAggregate" where
  "ex_settle user complete =
     \<lparr>ags_UserEntity = \<lparr>ue_UserID = user\<rparr>,
      ags_GroupBuyTeamEntity =
        \<lparr>gt_TeamID = ''11111111'', gt_ActivityID = 100123, gt_TargetCount = 2,
         gt_CompleteCount = complete, gt_LockCount = 2, gt_Status = 0, gt_ValidStartTime = 1000,
         gt_ValidEndTime = 900000001000, gt_NotifyConfig = None\<rparr>,
      ags_TradePaySuccessEntity =
        \<lparr>ps_Source = ''s01'', ps_Channel = ''c01'', ps_UserID = user, ps_OutTradeNo = user @ ''-1'',
         ps_OutTradeTime = 1200\<rparr>\<rparr>"

text \<open>Two users in one team of two: \<open>ann\<close> opens it, \<open>bob\<close> joins it.\<close>

definition ex_team :: "int \<Rightarrow> int \<Rightarrow> int \<Rightarrow> GroupBuyOrder" where
  "ex_team lock complete status =
     \<lparr>o_ID = 1, o_TeamID = ''11111111'', o_ActivityID = 100123, o_Source = ''s01'', o_Channel = ''c01'',
      o_OriginalPrice = Decimal 100 0, o_DeductionPrice = Decimal 20 0, o_PayPrice = Decimal 80 0,
      o_TargetCount = 2, o_CompleteCount = complete, o_LockCount = lock, o_Status = status,
      o_ValidStartTime = 1000, o_ValidEndTime = 900000001000, o_NotifyType = NotifyHTTP, o_NotifyURL = None,
      o_CreateTime = 1000, o_UpdateTime = 1000\<rparr>"

definition ex_row :: "nat \<Rightarrow> string \<Rightarrow> string \<Rightarrow> int \<Rightarrow> time option \<Rightarrow> GroupBuyOrderList" where
  "ex_row i user orderID status paid =
     \<lparr>l_ID = i, l_UserID = user, l_TeamID = ''11111111'', l_OrderID = orderID, l_ActivityID = 100123,
      l_StartTime = 0, l_EndTime = 100000, l_GoodsID = ''9890001'', l_Source = ''s01'',
      l_Channel = ''c01'', l_OriginalPrice = Decimal 100 0, l_DeductionPrice = Decimal 20 0,
      l_PayPrice = Decimal 80 0, l_Status = status, l_OutTradeNo = user @ ''-1'',
      l_OutTradeTime = paid, l_BizID = ''100123_'' @ user @ ''_1'', l_CreateTime = 1000,
      l_UpdateTime = 1000\<rparr>"

definition ex_db1 :: db where
  "ex_db1 = ex_db\<lparr>db_orders := [ex_team 1 0 0], db_lists := [ex_row 1 ''ann'' ''111111111111'' 0 None]\<rparr>"

definition ex_db2 :: db where
  "ex_db2 = ex_db\<lparr>db_orders := [ex_team 2 0 0],
     db_lists := [ex_row 1 ''ann'' ''111111111111'' 0 None, ex_row 2 ''bob'' ''222222222222'' 0 None]\<rparr>"

definition ex_db3 :: db where
  "ex_db3 = ex_db\<lparr>db_orders := [ex_team 2 1 0],
     db_lists := [ex_row 1 ''ann'' ''111111111111'' 1 (Some 1200), ex_row 2 ''bob'' ''222222222222'' 0 None]\<rparr>"

lemmas trade_eval = repo_LockMarketPayOrder_def lock_tx_def lock_team_def new_team_def new_order_def
  lock_bizID_def lock_orderID_def randomNumeric_def repo_SettlementMarketPayOrder_def settle_tx_def
  settle_complete_def one_row_def repo_Unpaid2Refund_def repo_Paid2Refund_def doRefund_def
  doRefund_tx_def close_order_def refund_updates_def insertRefundNotify_def
  repo_PaidTeam2Refund_def paidTeam2Refund_tx_def refTxn_def go_bind_def Let_def
  showInt_def showNat.simps digit_def upt_rec no_clash_def

lemmas ex_defs = ex_db_def ex_env_def ex_lock_def ex_settle_def ex_team_def ex_row_def
  ex_db1_def ex_db2_def ex_db3_def

lemma ex_lock_ann:
  "repo_LockMarketPayOrder refRepository (ex_env 1) (ex_lock ''ann'' '''') ex_db
   = (Inr (lock_result (ex_env 1) (ex_lock ''ann'' '''') ''11111111''), ex_db1)"
  by (simp add: trade_eval ex_defs lock_result_def)

lemma ex_lock_bob:
  "repo_LockMarketPayOrder refRepository (ex_env 2) (ex_lock ''bob'' ''11111111'') ex_db1
   = (Inr (lock_result (ex_env 2) (ex_lock ''bob'' ''11111111'') ''11111111''), ex_db2)"
  by (simp add: trade_eval ex_defs lock_result_def)

lemma ex_settle_ann:
  "repo_SettlementMarketPayOrder refRepository (ex_env 1) (ex_settle ''ann'' 0) ex_db2
   = (Inr None, ex_db3)"
  by (simp add: trade_eval ex_defs)

lemma ex_reach: "(trade_step refRepository)\<^sup>*\<^sup>* ex_db ex_db3"
proof -
  have "trade_step refRepository ex_db ex_db1"
    by (rule trade_step.lock [OF ex_lock_ann]) (simp add: ex_lock_def)
  moreover have "trade_step refRepository ex_db1 ex_db2"
    by (rule trade_step.lock [OF ex_lock_bob]) (simp add: ex_lock_def)
  moreover have "trade_step refRepository ex_db2 ex_db3"
    by (rule trade_step.settle [OF ex_settle_ann]) (simp add: pay_in_team_def ex_defs)
  ultimately show ?thesis by (meson converse_rtranclp_into_rtranclp r_into_rtranclp)
qed

section \<open>Properties\<close>

text \<open>
  C1. Start from an empty market and run trade transactions in any order, on stale reads and with
  any failures of the database, as long as each keeps to its guard in \<open>trade_step\<close>: a
  lock is for a team of at least one place, a settlement is for a payment whose orders are all in
  the team it credits, a refund names the team its order is in. Then in every team the lock count is
  the number of its orders that are not closed, the complete count the number of its paid orders,
  and complete \<open>\<le>\<close> lock \<open>\<le>\<close> target. The second guard is needed:
  C15 shows the code's own settlement without it.
\<close>

theorem team_counters_count_orders:
  assumes "mysql_ok (rp_db r)" and "db_orders d0 = []" and "db_lists d0 = []"
    and "(trade_step r)\<^sup>*\<^sup>* d0 d" and "g \<in> set (db_orders d)"
  shows "o_LockCount g = int (open_count (rp_db r) d (o_TeamID g)) \<and>
    o_CompleteCount g = int (paid_count (rp_db r) d (o_TeamID g)) \<and>
    0 \<le> o_CompleteCount g \<and> o_CompleteCount g \<le> o_LockCount g \<and> o_LockCount g \<le> o_TargetCount g"
proof -
  have "teams_ok (rp_db r) d0" using assms(2,3) by (simp add: teams_ok_def)
  from trade_steps_teams_ok [OF assms(4) this assms(1)] have "teams_ok (rp_db r) d" .
  with assms(5) teams_ok_bounds [OF this assms(5)] show ?thesis
    unfolding teams_ok_def team_ok_def by blast
qed

lemma team_counters_witness:
  "o_LockCount (ex_team 2 1 0) = int (open_count refMySQL ex_db3 ''11111111'') \<and>
   o_CompleteCount (ex_team 2 1 0) = int (paid_count refMySQL ex_db3 ''11111111'') \<and>
   o_LockCount (ex_team 2 1 0) \<le> 2"
  using team_counters_count_orders [of refRepository ex_db ex_db3 "ex_team 2 1 0"]
    mysql_ok_ref ex_reach
  by (simp add: ex_db_def ex_db3_def) (simp add: ex_team_def)

text \<open>
  MySQL tells a violated unique key of the order list by error 1062 (or the driver by its name), whose
  text the code looks for.
\<close>

definition duplicates_told :: "mysql \<Rightarrow> bool" where
  "duplicates_told M \<longleftrightarrow>
     (\<forall>r t m. list_ex (list_clash M r) t \<and> g_Create (my_lists M) r t = Inl m \<longrightarrow> isDuplicate (Some (OtherError m)))"

text \<open>The order a lock adds to a team, and the orders it collides with: same order id or same business id.\<close>

abbreviation locked_order :: "call_env \<Rightarrow> GroupBuyOrderAggregate \<Rightarrow> string \<Rightarrow> GroupBuyOrderList" where
  "locked_order E agg t \<equiv> new_order E agg t (lock_orderID E agg)"

abbreviation order_collides :: "mysql \<Rightarrow> call_env \<Rightarrow> GroupBuyOrderAggregate \<Rightarrow> string \<Rightarrow> db \<Rightarrow> bool" where
  "order_collides M E agg t d \<equiv> list_ex (list_clash M (locked_order E agg t)) (db_lists d)"

lemma lock_order_outcome:
  assumes M: "mysql_ok (rp_db r)" "mysql_up (rp_db r)" "duplicates_told (rp_db r)"
    and team: "lock_team r E agg d = (Inr t, d1)" and same: "db_lists d1 = db_lists d"
  shows "if order_collides (rp_db r) E agg t d
    then repo_LockMarketPayOrder r E agg d = (Inl (NewAppException INDEX_EXCEPTION), d)
    else \<exists>j. repo_LockMarketPayOrder r E agg d =
      (Inr (lock_result E agg t), d1\<lparr>db_lists := db_lists d @ [(locked_order E agg t)\<lparr>l_ID := j\<rparr>]\<rparr>)"
proof (cases "order_collides (rp_db r) E agg t d")
  case True
  then have "g_Create (my_lists (rp_db r)) (locked_order E agg t) (db_lists d1) \<noteq> Inr x" for x
    using gorm_Create [OF rp_ok(2) [OF M(1)]] same by (metis list_ex_iff)
  then obtain m where "g_Create (my_lists (rp_db r)) (locked_order E agg t) (db_lists d1) = Inl m"
    by (metis sum.exhaust_sel)
  with True same M(3) have "lock_tx r E agg d = (Inl (NewAppException INDEX_EXCEPTION), d1)"
    using team by (auto simp: lock_tx_def go_bind_def Let_def dbCreate_def duplicates_told_def)
  with True txn_error [OF rp_ok(4) [OF M(1)]] show ?thesis by (simp add: repo_LockMarketPayOrder_def)
next
  case False
  then obtain j where "dbCreate db_lists put_lists (my_lists (rp_db r)) (locked_order E agg t) d1 =
      (Inr (), put_lists (db_lists d1 @ [(locked_order E agg t)\<lparr>l_ID := j\<rparr>]) d1)"
    using dbCreate_up [OF rp_ok(2) [OF M(1)] mysql_upD(2) [OF M(2)], where tab = db_lists and put = put_lists
        and d = d1 and r = "locked_order E agg t"] same
    unfolding list_ex_iff by metis
  then have "lock_tx r E agg d =
      (Inr (lock_result E agg t), d1\<lparr>db_lists := db_lists d @ [(locked_order E agg t)\<lparr>l_ID := j\<rparr>]\<rparr>)"
    using team same by (simp add: lock_tx_def go_bind_def Let_def lock_result_def)
  from txn_commit [of _ "lock_tx r E agg", OF mysql_upD(6) [OF M(2)] this] False show ?thesis by (auto simp: repo_LockMarketPayOrder_def)
qed

text \<open>
  C3. What a lock transaction does, on every branch, with MySQL up and a violated unique key told as
  a duplicate. A request that names a team is refused with E0005 when the team has no row with a
  free place, and with "index exception" when its order id or its business id (activity, user and
  running number) is taken; else one place of the team is taken and one unpaid order added. A
  request that names none is refused when the drawn team id exists or its order collides; else a
  team of one taken place and its order are added. Every refusal leaves the database as it was, also
  the place or the team the transaction had already written.
\<close>

theorem lock_transaction_outcome:
  assumes M: "mysql_ok (rp_db r)" "mysql_up (rp_db r)" "duplicates_told (rp_db r)"
    and t: "t = (if pa_TeamID (agl_PayActivityEntity agg) = '''' then randomNumeric E 0 8
      else pa_TeamID (agl_PayActivityEntity agg))"
    and run: "repo_LockMarketPayOrder r E agg d = (q, d')"
  shows "if pa_TeamID (agl_PayActivityEntity agg) \<noteq> '''' then
      if cnt (room_hit (rp_db r) t) (db_orders d) \<noteq> 1 then q = Inl (NewAppException E0005) \<and> d' = d
      else if order_collides (rp_db r) E agg t d then q = Inl (NewAppException INDEX_EXCEPTION) \<and> d' = d
      else q = Inr (lock_result E agg t) \<and>
        (\<exists>j. d' = d\<lparr>db_orders := upd_where (room_hit (rp_db r) t) (room_set E) (db_orders d),
           db_lists := db_lists d @ [(locked_order E agg t)\<lparr>l_ID := j\<rparr>]\<rparr>)
    else
      if list_ex (\<lambda>g. sqlEq (rp_db r) t (o_TeamID g)) (db_orders d) then (\<exists>e. q = Inl e) \<and> d' = d
      else if order_collides (rp_db r) E agg t d then q = Inl (NewAppException INDEX_EXCEPTION) \<and> d' = d
      else q = Inr (lock_result E agg t) \<and>
        (\<exists>i j. d' = d\<lparr>db_orders := db_orders d @ [(new_team E agg t)\<lparr>o_ID := i\<rparr>],
           db_lists := db_lists d @ [(locked_order E agg t)\<lparr>l_ID := j\<rparr>]\<rparr>)"
proof (cases "pa_TeamID (agl_PayActivityEntity agg) = ''''")
  case False
  let ?n = "cnt (room_hit (rp_db r) t) (db_orders d)"
  have "room_set E g \<noteq> g" for g
  proof -
    have "o_LockCount (room_set E g) \<noteq> o_LockCount g" by simp
    then show ?thesis by metis
  qed
  then have team: "lock_team r E agg d = (if ?n \<noteq> 1 then Inl (NewAppException E0005) else Inr t,
      d\<lparr>db_orders := upd_where (room_hit (rp_db r) t) (room_set E) (db_orders d)\<rparr>)"
    using False t dbUpdates_up [OF rp_ok(1) [OF M(1)] mysql_upD(1) [OF M(2)],
        of db_orders put_orders "room_hit (rp_db r) t" "room_set E" d]
    by (simp add: lock_team_def go_bind_def Let_def)
  show ?thesis
  proof (cases "?n = 1")
    case True
    with team lock_order_outcome [OF M, of E agg d t] run False show ?thesis by (auto split: if_splits)
  next
    case full: False
    with team have "lock_tx r E agg d = (Inl (NewAppException E0005),
        d\<lparr>db_orders := upd_where (room_hit (rp_db r) t) (room_set E) (db_orders d)\<rparr>)"
      by (simp add: lock_tx_def go_bind_def)
    from txn_error [of _ "lock_tx r E agg", OF rp_ok(4) [OF M(1)] this] run full False show ?thesis by (simp add: repo_LockMarketPayOrder_def)
  qed
next
  case True
  show ?thesis
  proof (cases "list_ex (\<lambda>g. sqlEq (rp_db r) t (o_TeamID g)) (db_orders d)")
    case taken: True
    then have "g_Create (my_orders (rp_db r)) (new_team E agg t) (db_orders d) \<noteq> Inr x" for x
      using gorm_Create [OF rp_ok(1) [OF M(1)]]
      by (metis list_ex_iff order_clash_def new_team_simps(1))
    then obtain m where "g_Create (my_orders (rp_db r)) (new_team E agg t) (db_orders d) = Inl m"
      by (metis sum.exhaust_sel)
    with True t have "lock_tx r E agg d = (Inl (OtherError m), d)"
      by (simp add: lock_tx_def lock_team_def go_bind_def Let_def dbCreate_def)
    from txn_error [of _ "lock_tx r E agg", OF rp_ok(4) [OF M(1)] this] run taken True show ?thesis
      by (auto simp: repo_LockMarketPayOrder_def)
  next
    case free: False
    then obtain i where "dbCreate db_orders put_orders (my_orders (rp_db r)) (new_team E agg t) d =
        (Inr (), put_orders (db_orders d @ [(new_team E agg t)\<lparr>o_ID := i\<rparr>]) d)"
      using dbCreate_up [OF rp_ok(1) [OF M(1)] mysql_upD(1) [OF M(2)], where tab = db_orders and put = put_orders
          and d = d and r = "new_team E agg t"]
      unfolding list_ex_iff order_clash_def new_team_simps by metis
    with True t have "lock_team r E agg d = (Inr t, d\<lparr>db_orders := db_orders d @ [(new_team E agg t)\<lparr>o_ID := i\<rparr>]\<rparr>)"
      by (simp add: lock_team_def go_bind_def Let_def)
    from lock_order_outcome [OF M this] run True free show ?thesis by (auto split: if_splits)
  qed
qed

definition ex_refund :: "string \<Rightarrow> string \<Rightarrow> TradeRefundOrderEntity" where
  "ex_refund user orderID =
     \<lparr>ro_UserID = user, ro_OrderID = orderID, ro_TeamID = ''11111111'', ro_ActivityID = 100123,
      ro_OutTradeNo = user @ ''-1''\<rparr>"

lemma duplicates_told_ref: "duplicates_told refMySQL"
proof -
  have "isDuplicate (Some (OtherError ''Error 1062 (23000): Duplicate entry''))" by code_simp
  then show ?thesis by (simp add: duplicates_told_def refMySQL_def refTable_def split: if_splits)
qed

text \<open>Bob gets the second place of the team; then it is full for Carol, and Bob's order cannot be made twice.\<close>

lemma ex_lock_numbers:
  "lock_orderID (ex_env 2) (ex_lock ''bob'' ''11111111'') = ''222222222222''"
  "lock_bizID (ex_lock u t) = ''100123_'' @ u @ ''_1''"
  by (simp_all add: lock_orderID_def lock_bizID_def randomNumeric_def showInt_def showNat.simps digit_def upt_rec
      ex_lock_def ex_env_def)

lemma lock_transaction_witness:
  "fst (repo_LockMarketPayOrder refRepository (ex_env 2) (ex_lock ''bob'' ''11111111'') ex_db1) =
      Inr (lock_result (ex_env 2) (ex_lock ''bob'' ''11111111'') ''11111111'') \<and>
   repo_LockMarketPayOrder refRepository (ex_env 3) (ex_lock ''carol'' ''11111111'') ex_db3 =
      (Inl (NewAppException E0005), ex_db3) \<and>
   repo_LockMarketPayOrder refRepository (ex_env 2) (ex_lock ''bob'' ''33333333'')
      (ex_db3\<lparr>db_orders := [(ex_team 1 0 0)\<lparr>o_TeamID := ''33333333''\<rparr>]\<rparr>) =
      (Inl (NewAppException INDEX_EXCEPTION), ex_db3\<lparr>db_orders := [(ex_team 1 0 0)\<lparr>o_TeamID := ''33333333''\<rparr>]\<rparr>)"
proof -
  let ?run = "\<lambda>n u t d. repo_LockMarketPayOrder refRepository (ex_env n) (ex_lock u t) d"
  let ?d = "ex_db3\<lparr>db_orders := [(ex_team 1 0 0)\<lparr>o_TeamID := ''33333333''\<rparr>]\<rparr>"
  note ref = mysql_ok_ref mysql_up_ref duplicates_told_ref
  note out = lock_transaction_outcome [of refRepository, OF _ _ _ refl surjective_pairing]
  have team: "pa_TeamID (agl_PayActivityEntity (ex_lock u t)) = t" for u t by (simp add: ex_lock_def)
  have "fst (?run 2 ''bob'' ''11111111'' ex_db1) = Inr (lock_result (ex_env 2) (ex_lock ''bob'' ''11111111'') ''11111111'')"
    using out [of "ex_lock ''bob'' ''11111111''" "ex_env 2" ex_db1] ref
    by (simp add: team list_clash_def ex_lock_numbers ex_db1_def ex_row_def ex_team_def)
  moreover have "?run 3 ''carol'' ''11111111'' ex_db3 = (Inl (NewAppException E0005), ex_db3)"
    using out [of "ex_lock ''carol'' ''11111111''" "ex_env 3" ex_db3] ref
    by (simp add: team prod_eq_iff ex_db3_def ex_team_def)
  moreover have "?run 2 ''bob'' ''33333333'' ?d = (Inl (NewAppException INDEX_EXCEPTION), ?d)"
    using out [of "ex_lock ''bob'' ''33333333''" "ex_env 2" ?d] ref
    by (simp add: team prod_eq_iff list_clash_def ex_lock_numbers ex_db3_def ex_row_def ex_team_def)
  ultimately show ?thesis by blast
qed

end
