(* ===== verification/Lock_Service.thy ===== *)
theory Lock_Service
  imports Design Team_Stock Team_Steps
begin

text \<open>
  Locking an order: the chain of rules (\<open>internal/domain/trade/service/lock/filter\<close>) and the service
  (\<open>internal/domain/trade/service/lock/trade_lock_order_service.go\<close>), over any trade repository.
  \<open>now\<close> is what \<open>time.Now\<close> returns in the activity rule. Logging is left out.
\<close>

section \<open>The rules\<close>

type_synonym LockReq = TradeLockRuleCommandEntity
type_synonym LockRes = "TradeLockRuleFilterBackEntity option"

definition ActivityUsabilityRuleFilter_Apply ::
    "'w ITradeRepository \<Rightarrow> time \<Rightarrow> (LockReq, LockContext, 'w, LockRes) handler" where
  "ActivityUsabilityRuleFilter_Apply repo now Next req dc =
     go_bind (QueryGroupBuyActivityEntityByActivityID repo (lc_ActivityID req))
       (\<lambda>act. case act of
          None \<Rightarrow> go_err (NewAppException E0101)
        | Some act \<Rightarrow>
            if ga_Status act \<noteq> ActivityEffective then go_err (NewAppException E0101)
            else if now < ga_StartTime act \<or> now > ga_EndTime act then go_err (NewAppException E0102)
            else Next req (dc\<lparr>dc_GroupBuyActivity := Some act\<rparr>))"

definition UserTakeLimitRuleFilter_Apply ::
    "'w ITradeRepository \<Rightarrow> (LockReq, LockContext, 'w, LockRes) handler" where
  "UserTakeLimitRuleFilter_Apply repo Next req dc =
     go_bind (QueryOrderCountByActivityID repo (lc_ActivityID req) (lc_UserID req))
       (\<lambda>count.
          if (case dc_GroupBuyActivity dc of
                None \<Rightarrow> False
              | Some act \<Rightarrow> ga_TakeLimitCount act > 0 \<and> count \<ge> ga_TakeLimitCount act)
          then go_err (NewAppException E0103)
          else Next req (dc\<lparr>dc_UserTakeOrderCount := count\<rparr>))"

definition TeamStockOccupyRuleFilter_Apply ::
    "'w ITradeRepository \<Rightarrow> (LockReq, LockContext, 'w, LockRes) handler" where
  "TeamStockOccupyRuleFilter_Apply repo Next req dc =
     (if lc_TeamID req = '''' then
        go_ret (Some \<lparr>lb_UserTakeOrderCount = dc_UserTakeOrderCount dc, lb_RecoveryTeamStockKey = ''''\<rparr>)
      else
        let teamStockKey = dc_GenerateTeamStockKey dc (lc_TeamID req);
            recoveryKey = dc_GenerateRecoveryTeamStockKey dc (lc_TeamID req)
        in case dc_GroupBuyActivity dc of
             None \<Rightarrow> go_err (Panic ''nil pointer dereference'')
           | Some act \<Rightarrow>
               go_bind (OccupyTeamStock repo teamStockKey recoveryKey (ga_Target act) (ga_ValidTime act))
                 (\<lambda>ok. if \<not> ok then go_err (NewAppException E0008)
                    else go_ret (Some \<lparr>lb_UserTakeOrderCount = dc_UserTakeOrderCount dc,
                                       lb_RecoveryTeamStockKey = recoveryKey\<rparr>)))"

definition NewTradeLockRuleFilter ::
    "'w ITradeRepository \<Rightarrow> time \<Rightarrow> (LockReq, LockContext, 'w, LockRes) applier" where
  "NewTradeLockRuleFilter repo now =
     chain_of
      (      [CHR 0xE4, CHR 0xBA, CHR 0xA4, CHR 0xE6, CHR 0x98, CHR 0x93, CHR 0xE8, CHR 0xA7, CHR
      0x84, CHR 0xE5, CHR 0x88, CHR 0x99, CHR 0xE8, CHR 0xBF, CHR 0x87, CHR 0xE6, CHR 0xBB, CHR
      0xA4, CHR 0xE9, CHR 0x93, CHR 0xBE]) None
      [ActivityUsabilityRuleFilter_Apply repo now, UserTakeLimitRuleFilter_Apply repo,
       TeamStockOccupyRuleFilter_Apply repo]"

section \<open>The service\<close>

definition lock_QueryNoPayMarketPayOrderByOutTradeNo ::
    "'w ITradeRepository \<Rightarrow> string \<Rightarrow> string \<Rightarrow> ('w, MarketPayOrderEntity option) go" where
  "lock_QueryNoPayMarketPayOrderByOutTradeNo repo userID outTradeNo =
     QueryMarketPayOrderEntityByOutTradeNo repo userID outTradeNo"

definition lock_QueryGroupBuyProgress ::
    "'w ITradeRepository \<Rightarrow> string \<Rightarrow> ('w, GroupBuyProgressVO option) go" where
  "lock_QueryGroupBuyProgress repo teamID = QueryGroupBuyProgress repo teamID"

definition empty_lock_ctx :: LockContext where
  "empty_lock_ctx = \<lparr>dc_GroupBuyActivity = None, dc_UserTakeOrderCount = 0\<rparr>"

definition lock_LockMarketPayOrder ::
    "'w ITradeRepository \<Rightarrow> time \<Rightarrow> UserEntity \<Rightarrow> PayActivityEntity \<Rightarrow> PayDiscountEntity \<Rightarrow>
     ('w, MarketPayOrderEntity) go" where
  "lock_LockMarketPayOrder repo now user activity discount =
     go_bind
       (NewTradeLockRuleFilter repo now
          \<lparr>lc_UserID = ue_UserID user, lc_ActivityID = pa_ActivityID activity,
           lc_TeamID = pa_TeamID activity\<rparr> empty_lock_ctx)
       (\<lambda>back. case back of
          None \<Rightarrow> go_err (Panic ''nil pointer dereference'')
        | Some back \<Rightarrow>
            let agg = \<lparr>agl_UserEntity = user, agl_PayActivityEntity = activity,
                       agl_PayDiscountEntity = discount,
                       agl_UserTakeOrderCount = lb_UserTakeOrderCount back\<rparr>
            in (\<lambda>w. case LockMarketPayOrder repo agg w of
                 (Inl (Panic p), w') \<Rightarrow> (Inl (Panic p), w')
               | (Inl err, w') \<Rightarrow>
                   go_bind
                     (go_ignore (RecoveryTeamStock repo (lb_RecoveryTeamStockKey back) (pa_ValidTime activity)))
                     (\<lambda>_. go_err err) w'
               | (Inr order, w') \<Rightarrow> (Inr order, w')))"

section \<open>What a granted lock has passed\<close>

text \<open>What the rules rely on: the queries of the repository change nothing.\<close>

locale trade_queries =
  fixes repo :: "'w ITradeRepository"
  assumes order_reads: "reads (QueryMarketPayOrderEntityByOutTradeNo repo u n)"
    and activity_reads: "reads (QueryGroupBuyActivityEntityByActivityID repo a)"
    and count_reads: "reads (QueryOrderCountByActivityID repo a u)"
    and team_reads: "reads (QueryGroupBuyTeamByTeamID repo t)"
    and progress_reads: "reads (QueryGroupBuyProgress repo t)"
    and blacklist_reads: "reads (RepoIsSCBlackIntercept repo s c)"
begin

lemma usability_cases:
  assumes "ActivityUsabilityRuleFilter_Apply repo now Next req dc w = (q, w')"
  obtains (refused) e where "q = Inl e" "w' = w"
  | (passed) act where
      "QueryGroupBuyActivityEntityByActivityID repo (lc_ActivityID req) w = (Inr (Some act), w)"
      "ga_Status act = ActivityEffective" "ga_StartTime act \<le> now" "now \<le> ga_EndTime act"
      "Next req (dc\<lparr>dc_GroupBuyActivity := Some act\<rparr>) w = (q, w')"
  using assms activity_reads unfolding ActivityUsabilityRuleFilter_Apply_def
proof (cases rule: go_read_cases)
  case (goes_on x)
  with that show ?thesis by (cases x) (auto split: if_splits)
qed (rule that(1))

lemma take_limit_cases:
  assumes "UserTakeLimitRuleFilter_Apply repo Next req (dc\<lparr>dc_GroupBuyActivity := Some act\<rparr>) w = (q, w')"
  obtains (refused) e where "q = Inl e" "w' = w"
  | (passed) count where
      "QueryOrderCountByActivityID repo (lc_ActivityID req) (lc_UserID req) w = (Inr count, w)"
      "ga_TakeLimitCount act > 0 \<longrightarrow> count < ga_TakeLimitCount act"
      "Next req (dc\<lparr>dc_GroupBuyActivity := Some act, dc_UserTakeOrderCount := count\<rparr>) w = (q, w')"
  using assms count_reads unfolding UserTakeLimitRuleFilter_Apply_def
proof (cases rule: go_read_cases)
  case (goes_on n)
  with that show ?thesis by (auto split: if_splits)
qed (rule that(1))

lemma lock_rules_cases:
  assumes "NewTradeLockRuleFilter repo now req empty_lock_ctx w = (q, w')"
  obtains (refused) e where "q = Inl e" "w' = w"
  | (passed) act count where
      "QueryGroupBuyActivityEntityByActivityID repo (lc_ActivityID req) w = (Inr (Some act), w)"
      "QueryOrderCountByActivityID repo (lc_ActivityID req) (lc_UserID req) w = (Inr count, w)"
      "ga_Status act = ActivityEffective" "ga_StartTime act \<le> now" "now \<le> ga_EndTime act"
      "ga_TakeLimitCount act > 0 \<longrightarrow> count < ga_TakeLimitCount act"
      "TeamStockOccupyRuleFilter_Apply repo (zero_apply None) req
        \<lparr>dc_GroupBuyActivity = Some act, dc_UserTakeOrderCount = count\<rparr> w = (q, w')"
proof -
  from assms have "ActivityUsabilityRuleFilter_Apply repo now
      (UserTakeLimitRuleFilter_Apply repo (TeamStockOccupyRuleFilter_Apply repo (zero_apply None)))
      req empty_lock_ctx w = (q, w')"
    by (simp add: NewTradeLockRuleFilter_def chain_of_foldr)
  then show ?thesis
  proof (cases rule: usability_cases)
    case usable: (passed act)
    from usable(5) show ?thesis
    proof (cases rule: take_limit_cases)
      case (passed n)
      show ?thesis
        by (rule that(2) [of act n]) (use usable passed in \<open>simp_all add: empty_lock_ctx_def\<close>)
    qed (rule that(1))
  qed (rule that(1))
qed

end

interpretation trade_repo: trade_queries "NewTradeRepository r E" for r E
  by unfold_locales (rule port_reads)+

section \<open>The rules over the database and Redis\<close>

lemma find_activity:
  assumes "QueryGroupBuyActivityEntityByActivityID (NewTradeRepository r E) a w = (Inr (Some act), w')"
    and "mysql_ok (rp_db r)"
  obtains x where "x \<in> set (db_activities (w_db w))" "a_ActivityID x = a" "ga_ActivityID act = a"
    "ga_ValidTime act = a_ValidTime x" "ga_Target act = a_Target x" "ga_Status act = a_Status x"
    "ga_StartTime act = a_StartTime x" "ga_EndTime act = a_EndTime x"
    "ga_TakeLimitCount act = a_TakeLimitCount x"
proof -
  from assms(1) obtain row d where
    first: "dbFirst db_activities (my_activities (rp_db r)) (\<lambda>x. a_ActivityID x = a) (w_db w) = (Inr (Some row), d)"
    and act: "ga_ActivityID act = a_ActivityID row" "ga_ValidTime act = a_ValidTime row"
      "ga_Target act = a_Target row" "ga_Status act = a_Status row" "ga_StartTime act = a_StartTime row"
      "ga_EndTime act = a_EndTime row" "ga_TakeLimitCount act = a_TakeLimitCount row"
    by (auto simp: NewTradeRepository_def on_db_def repo_QueryGroupBuyActivityEntityByActivityID_def
        split: prod.splits elim!: go_bind_Inr_cases)
  from first mysql_okD(4) [OF assms(2)] have "find (\<lambda>x. a_ActivityID x = a) (db_activities (w_db w)) = Some row"
    by (cases rule: dbFirst_cases) simp_all
  then have "row \<in> set (db_activities (w_db w))" "a_ActivityID row = a"
    by (auto simp: find_Some_iff)
  with act show ?thesis by (intro that) simp_all
qed

lemma repo_Lock_no_panic:
  assumes "mysql_ok (rp_db r)"
  shows "no_panic (LockMarketPayOrder (NewTradeRepository r E) agg)"
proof -
  have "no_panic (my_txOrder (rp_db r) (lock_tx r E agg))"
    unfolding no_panic_def
  proof (intro allI)
    fix d p
    obtain q d' where body: "lock_tx r E agg d = (q, d')" by force
    show "fst (my_txOrder (rp_db r) (lock_tx r E agg) d) \<noteq> Inl (Panic p)"
    proof (cases q)
      case (Inl e)
      with body no_panicD [OF lock_tx_no_panic, of r E agg d p d']
        txn_error [OF rp_ok(4) [OF assms], of "lock_tx r E agg" d e d'] show ?thesis by auto
    next
      case (Inr x)
      with body txn_success [OF rp_ok(4) [OF assms], of "lock_tx r E agg" d x d'] show ?thesis by auto
    qed
  qed
  then show ?thesis
    by (auto simp: no_panic_def NewTradeRepository_def on_db_def repo_LockMarketPayOrder_def
        split: prod.splits) (metis fst_conv)
qed

lemma locked_row:
  assumes "repo_LockMarketPayOrder r E agg d = (Inr order, d')" and "mysql_ok (rp_db r)"
  obtains t j where "db_lists d' = db_lists d @ [(new_order E agg t (lock_orderID E agg))\<lparr>l_ID := j\<rparr>]"
    "order = lock_result E agg t"
    "\<forall>x \<in> set (db_lists d). \<not> list_clash (rp_db r) (new_order E agg t (lock_orderID E agg)) x"
    "pa_TeamID (agl_PayActivityEntity agg) \<noteq> '''' \<longrightarrow> t = pa_TeamID (agl_PayActivityEntity agg)"
proof -
  from assms(1) have "my_txOrder (rp_db r) (lock_tx r E agg) d = (Inr order, d')"
    by (simp add: repo_LockMarketPayOrder_def)
  with rp_ok(4) [OF assms(2)] have "lock_tx r E agg d = (Inr order, d')"
    by (cases rule: txn_cases) simp_all
  then obtain t d1 j where team: "lock_team r E agg d = (Inr t, d1)"
    and d': "d' = d1\<lparr>db_lists := db_lists d1 @ [(new_order E agg t (lock_orderID E agg))\<lparr>l_ID := j\<rparr>]\<rparr>"
    and clash: "\<forall>l \<in> set (db_lists d1). \<not> list_clash (rp_db r) (new_order E agg t (lock_orderID E agg)) l"
    and x: "order = lock_result E agg t"
    using assms(2) by (rule lock_tx_Inr) blast
  from team assms(2) have "db_lists d1 = db_lists d \<and>
      (pa_TeamID (agl_PayActivityEntity agg) \<noteq> '''' \<longrightarrow> t = pa_TeamID (agl_PayActivityEntity agg))"
    by (cases rule: lock_team_Inr) simp_all
  with d' clash x show ?thesis by (intro that [of j t]) simp_all
qed

lemma lock_row:
  assumes "repo_LockMarketPayOrder r E agg d = (Inr order, d')" and "mysql_ok (rp_db r)"
  obtains l where "db_lists d' = db_lists d @ [l]" "l_UserID l = ue_UserID (agl_UserEntity agg)"
    "l_ActivityID l = pa_ActivityID (agl_PayActivityEntity agg)" "l_Status l = 0"
    "l_OrderID l = mo_OrderID order" "l_TeamID l = mo_TeamID order" "l_BizID l = lock_bizID agg"
    "\<forall>x \<in> set (db_lists d). \<not> list_clash (rp_db r) l x"
    "pa_TeamID (agl_PayActivityEntity agg) \<noteq> '''' \<longrightarrow> mo_TeamID order = pa_TeamID (agl_PayActivityEntity agg)"
proof -
  obtain t j where row: "db_lists d' = db_lists d @ [(new_order E agg t (lock_orderID E agg))\<lparr>l_ID := j\<rparr>]"
    "order = lock_result E agg t"
    "\<forall>x \<in> set (db_lists d). \<not> list_clash (rp_db r) (new_order E agg t (lock_orderID E agg)) x"
    "pa_TeamID (agl_PayActivityEntity agg) \<noteq> '''' \<longrightarrow> t = pa_TeamID (agl_PayActivityEntity agg)"
    using assms by (rule locked_row)
  then show ?thesis
    by (intro that [of "(new_order E agg t (lock_orderID E agg))\<lparr>l_ID := j\<rparr>"])
      (simp_all add: lock_result_def list_clash_def)
qed

text \<open>
  The stock rule on the concrete repository: it grants a place exactly when one is left, and then
  hands over the key under which the place can be given back.
\<close>

lemma stock_rule_cases:
  assumes run: "TeamStockOccupyRuleFilter_Apply (NewTradeRepository r E) (zero_apply None) req
      \<lparr>dc_GroupBuyActivity = Some act, dc_UserTakeOrderCount = n\<rparr> w = (q, w')"
    and R: "redis_ok (rp_redis r)" "redis_up (rp_redis r)" and act: "ga_ActivityID act = a"
    and stock: "stock_ok a (lc_TeamID req) (w_redis w)" "0 \<le> ga_ValidTime act"
      "used a (lc_TeamID req) (w_redis w) + 1 < int64_max"
  obtains (fresh) "lc_TeamID req = ''''" "w' = w"
      "q = Inr (Some \<lparr>lb_UserTakeOrderCount = n, lb_RecoveryTeamStockKey = ''''\<rparr>)"
  | (full) K where "lc_TeamID req \<noteq> ''''" "q = Inl (NewAppException E0008)" "w' = w\<lparr>w_redis := K\<rparr>"
      "stock_change a (lc_TeamID req) 0 0 (w_redis w) K"
  | (granted) K where "lc_TeamID req \<noteq> ''''" "w' = w\<lparr>w_redis := K\<rparr>"
      "q = Inr (Some \<lparr>lb_UserTakeOrderCount = n,
         lb_RecoveryTeamStockKey = GenerateRecoveryTeamStockKey a (lc_TeamID req)\<rparr>)"
      "used a (lc_TeamID req) (w_redis w) < ga_Target act + recovered a (lc_TeamID req) (w_redis w)"
      "stock_change a (lc_TeamID req) 1 0 (w_redis w) K"
proof (cases "lc_TeamID req = ''''")
  case True
  with run fresh show ?thesis by (simp add: TeamStockOccupyRuleFilter_Apply_def)
next
  case False
  let ?t = "lc_TeamID req" and ?K = "w_redis w"
  let ?K' = "occupied a ?t (ga_Target act) ((ga_ValidTime act + 60) * 60) ?K"
  let ?ok = "used a ?t ?K < ga_Target act + recovered a ?t ?K"
  have "OccupyTeamStock (NewTradeRepository r E) (GenerateTeamStockKey a ?t)
      (GenerateRecoveryTeamStockKey a ?t) (ga_Target act) (ga_ValidTime act) w = (Inr ?ok, w\<lparr>w_redis := ?K'\<rparr>)"
    using Occupy_up [OF R stock(1,2,3)] by (simp add: NewTradeRepository_def on_redis_def)
  with run False act have "(q, w') = (if ?ok then Inr (Some \<lparr>lb_UserTakeOrderCount = n,
      lb_RecoveryTeamStockKey = GenerateRecoveryTeamStockKey a ?t\<rparr>) else Inl (NewAppException E0008),
      w\<lparr>w_redis := ?K'\<rparr>)"
    by (simp add: TeamStockOccupyRuleFilter_Apply_def Let_def go_bind_def dc_GenerateTeamStockKey_def
        dc_GenerateRecoveryTeamStockKey_def split: if_splits)
  then show ?thesis
    using full [OF False, of ?K'] granted [OF False, of ?K']
      stock_change_occupied [OF stock(1), of "ga_Target act" "(ga_ValidTime act + 60) * 60"]
    by (cases ?ok) simp_all
qed

text \<open>The outcome of the repository's call, with the place given back when it fails.\<close>

definition lock_tail ::
    "'w ITradeRepository \<Rightarrow> GroupBuyOrderAggregate \<Rightarrow> string \<Rightarrow> int \<Rightarrow> ('w, MarketPayOrderEntity) go" where
  "lock_tail repo agg key valid w =
     (case LockMarketPayOrder repo agg w of
        (Inl (Panic p), w') \<Rightarrow> (Inl (Panic p), w')
      | (Inl err, w') \<Rightarrow> go_bind (go_ignore (RecoveryTeamStock repo key valid)) (\<lambda>_. go_err err) w'
      | (Inr order, w') \<Rightarrow> (Inr order, w'))"

lemma lock_service_tail:
  "lock_LockMarketPayOrder repo now user activity discount =
     go_bind
       (NewTradeLockRuleFilter repo now
          \<lparr>lc_UserID = ue_UserID user, lc_ActivityID = pa_ActivityID activity,
           lc_TeamID = pa_TeamID activity\<rparr> empty_lock_ctx)
       (\<lambda>back. case back of
          None \<Rightarrow> go_err (Panic ''nil pointer dereference'')
        | Some back \<Rightarrow> lock_tail repo \<lparr>agl_UserEntity = user, agl_PayActivityEntity = activity,
              agl_PayDiscountEntity = discount, agl_UserTakeOrderCount = lb_UserTakeOrderCount back\<rparr>
            (lb_RecoveryTeamStockKey back) (pa_ValidTime activity))"
  unfolding lock_LockMarketPayOrder_def Let_def lock_tail_def [abs_def] by (rule refl)

lemma lock_tail_cases:
  assumes "lock_tail (NewTradeRepository r E) agg key valid w = (q, w')" and "mysql_ok (rp_db r)"
  obtains (locked) order d where "q = Inr order" "w' = w\<lparr>w_db := d\<rparr>"
      "repo_LockMarketPayOrder r E agg (w_db w) = (Inr order, d)"
  | (failed) e x K where "q = Inl e" "w' = w\<lparr>w_redis := K\<rparr>"
      "repo_LockMarketPayOrder r E agg (w_db w) = (Inl e, w_db w)"
      "repo_RecoveryTeamStock r key valid (w_redis w) = (x, K)"
  | (broken) p where "q = Inl (Panic p)" "\<exists>K. repo_RecoveryTeamStock r key valid (w_redis w) = (Inl (Panic p), K)"
proof -
  obtain x d where run: "repo_LockMarketPayOrder r E agg (w_db w) = (x, d)" by force
  then have port: "LockMarketPayOrder (NewTradeRepository r E) agg w = (x, w\<lparr>w_db := d\<rparr>)"
    by (simp add: NewTradeRepository_def on_db_def)
  show ?thesis
  proof (cases x)
    case (Inr order)
    with assms(1) port have "q = Inr order" "w' = w\<lparr>w_db := d\<rparr>" by (simp_all add: lock_tail_def)
    then show ?thesis using run Inr by (intro locked) simp_all
  next
    case (Inl e)
    have d: "d = w_db w"
      using run Inl rp_ok(4) [OF assms(2)] unfolding repo_LockMarketPayOrder_def
      by (auto elim: txn_cases)
    have e: "\<And>p. e \<noteq> Panic p"
      using no_panicD [OF repo_Lock_no_panic [OF assms(2), of E agg], of w] port Inl by blast
    obtain y K where rec: "repo_RecoveryTeamStock r key valid (w_redis w) = (y, K)" by force
    then have "RecoveryTeamStock (NewTradeRepository r E) key valid w = (y, w\<lparr>w_redis := K\<rparr>)"
      by (simp add: NewTradeRepository_def on_redis_def)
    with assms(1) port Inl d e have "(q, w') = (case y of Inl (Panic p) \<Rightarrow> Inl (Panic p) | _ \<Rightarrow> Inl e, w\<lparr>w_redis := K\<rparr>)"
      by (cases e) (auto simp: lock_tail_def go_bind_def go_ignore_def split: sum.splits go_error.splits)
    with failed [of e K y] broken rec run Inl d show ?thesis
      by (auto split: sum.splits go_error.splits)
  qed
qed

text \<open>
  The three rules on the concrete repository: a refusal takes no place; a pass is for an activity
  that is open, has taken one place of a named team, and knows the key that gives it back.
\<close>

lemma lock_rules_outcome:
  assumes rules: "NewTradeLockRuleFilter (NewTradeRepository r E) now
      \<lparr>lc_UserID = u, lc_ActivityID = a, lc_TeamID = t\<rparr> empty_lock_ctx w = (q, w')"
    and M: "mysql_ok (rp_db r)" and R: "redis_ok (rp_redis r)" "redis_up (rp_redis r)"
    and stock: "stock_ok a t (w_redis w)" "used a t (w_redis w) + 1 < int64_max"
    and valid: "\<forall>x \<in> set (db_activities (w_db w)). 0 \<le> a_ValidTime x"
  obtains (refused) e K where "q = Inl e" "w' = w\<lparr>w_redis := K\<rparr>"
      "stock_change a t 0 0 (w_redis w) K"
  | (granted) b K where "q = Inr (Some b)" "w' = w\<lparr>w_redis := K\<rparr>"
      "lb_RecoveryTeamStockKey b = (if t = '''' then '''' else GenerateRecoveryTeamStockKey a t)"
      "stock_change a t (if t = '''' then 0 else 1) 0 (w_redis w) K"
      "\<exists>x \<in> set (db_activities (w_db w)). a_ActivityID x = a \<and> a_Status x = ActivityEffective \<and>
         a_StartTime x \<le> now \<and> now \<le> a_EndTime x"
  using rules
proof (cases rule: trade_repo.lock_rules_cases)
  case (refused e)
  with that(1) [of e "w_redis w"] stock_change_refl [OF stock(1)] show ?thesis by simp
next
  case (passed act n)
  from find_activity [of r E a w act w] passed(1) M obtain x where
    x: "x \<in> set (db_activities (w_db w))" "a_ActivityID x = a" "ga_ActivityID act = a"
      "ga_ValidTime act = a_ValidTime x" "ga_Status act = a_Status x"
      "ga_StartTime act = a_StartTime x" "ga_EndTime act = a_EndTime x"
    by auto
  have v: "0 \<le> ga_ValidTime act" using x(1,4) valid by simp
  have open_now: "\<exists>x \<in> set (db_activities (w_db w)). a_ActivityID x = a \<and> a_Status x = ActivityEffective \<and>
      a_StartTime x \<le> now \<and> now \<le> a_EndTime x"
    using x passed(3-5) by auto
  let ?req = "\<lparr>lc_UserID = u, lc_ActivityID = a, lc_TeamID = t\<rparr>"
  from stock have rule: "stock_ok a (lc_TeamID ?req) (w_redis w)"
    "used a (lc_TeamID ?req) (w_redis w) + 1 < int64_max" by simp_all
  show ?thesis using passed(7) R x(3) rule(1) v rule(2)
  proof (cases rule: stock_rule_cases)
    case fresh
    with that(2) [of _ "w_redis w"] stock_change_refl [OF stock(1)] open_now show ?thesis by simp
  next
    case (full K)
    with that(1) [of _ K] show ?thesis by simp
  next
    case (granted K)
    with that(2) [of _ K] open_now show ?thesis by simp
  qed
qed

text \<open>A repository call that fails after a place was taken gives the place back.\<close>

lemma lock_tail_gives_back:
  assumes tail: "lock_tail (NewTradeRepository r E) agg key valid w = (Inl e, w')"
    and M: "mysql_ok (rp_db r)" and R: "redis_ok (rp_redis r)" "redis_up (rp_redis r)"
    and key: "key = (if t = '''' then '''' else GenerateRecoveryTeamStockKey a t)"
    and stock: "stock_ok a t (w_redis w)" "recovered a t (w_redis w) + 1 < int64_max"
  shows "w_db w' = w_db w \<and> stock_change a t 0 (if t = '''' then 0 else 1) (w_redis w) (w_redis w')"
  using tail M
proof (cases rule: lock_tail_cases)
  case (failed e x K)
  with key stock Recovery_up [OF R stock(1)] stock_change_recovered [OF stock(1)] stock_change_refl [OF stock(1)]
  show ?thesis by (cases "t = ''''") (auto simp: repo_RecoveryTeamStock_def)
next
  case (broken p)
  with key stock Recovery_up [OF R stock(1)] show ?thesis
    by (auto simp: repo_RecoveryTeamStock_def split: if_splits)
qed simp

text \<open>
  The service on the concrete repository: it fails with as many places taken as given back, or locks
  an order of an open activity and has taken one place of a named team.
\<close>

lemma lock_service_stock:
  assumes run: "lock_LockMarketPayOrder (NewTradeRepository r E) now user activity discount w = (q, w')"
    and M: "mysql_ok (rp_db r)" and R: "redis_ok (rp_redis r)" "redis_up (rp_redis r)"
    and stock: "stock_ok (pa_ActivityID activity) (pa_TeamID activity) (w_redis w)"
      "used (pa_ActivityID activity) (pa_TeamID activity) (w_redis w) + 1 < int64_max"
      "recovered (pa_ActivityID activity) (pa_TeamID activity) (w_redis w) + 1 < int64_max"
    and valid: "\<forall>x \<in> set (db_activities (w_db w)). 0 \<le> a_ValidTime x"
  obtains (failed) e n where "q = Inl e" "w_db w' = w_db w" "n = 0 \<or> n = 1"
      "stock_change (pa_ActivityID activity) (pa_TeamID activity) n n (w_redis w) (w_redis w')"
  | (locked) order agg where "q = Inr order" "agl_UserEntity agg = user" "agl_PayActivityEntity agg = activity"
      "agl_PayDiscountEntity agg = discount" "repo_LockMarketPayOrder r E agg (w_db w) = (Inr order, w_db w')"
      "stock_change (pa_ActivityID activity) (pa_TeamID activity) (if pa_TeamID activity = '''' then 0 else 1) 0
         (w_redis w) (w_redis w')"
      "\<exists>x \<in> set (db_activities (w_db w)). a_ActivityID x = pa_ActivityID activity \<and>
         a_Status x = ActivityEffective \<and> a_StartTime x \<le> now \<and> now \<le> a_EndTime x"
  using run unfolding lock_service_tail
proof (cases rule: go_bind_cases)
  case (fails e)
  from fails(1) M R stock(1,2) valid show ?thesis
    by (cases rule: lock_rules_outcome) (use fails(2) that(1) in auto)
next
  case (goes_on bk w1)
  from goes_on(1) M R stock(1,2) valid show ?thesis
  proof (cases rule: lock_rules_outcome)
    case (granted b K)
    let ?a = "pa_ActivityID activity" and ?t = "pa_TeamID activity"
    let ?agg = "\<lparr>agl_UserEntity = user, agl_PayActivityEntity = activity,
      agl_PayDiscountEntity = discount, agl_UserTakeOrderCount = lb_UserTakeOrderCount b\<rparr>"
    from goes_on(2) granted(1) have tail: "lock_tail (NewTradeRepository r E) ?agg
        (lb_RecoveryTeamStockKey b) (pa_ValidTime activity) w1 = (q, w')"
      by simp
    have ok: "stock_ok ?a ?t (w_redis w1)" "recovered ?a ?t (w_redis w1) + 1 < int64_max"
      using granted(2,4) stock(3) by (simp_all add: stock_change_def)
    show ?thesis
    proof (cases q)
      case (Inl e)
      let ?n = "if ?t = '''' then 0 else 1 :: int"
      have undo: "w_db w' = w_db w1" "stock_change ?a ?t 0 ?n (w_redis w1) (w_redis w')"
        using lock_tail_gives_back [OF tail [unfolded Inl] M R granted(3) ok] by blast+
      have "stock_change ?a ?t ?n 0 (w_redis w) (w_redis w1)" using granted(2,4) by simp
      from stock_change_trans [OF this undo(2)] undo(1) granted(2) show ?thesis
        by (intro that(1) [of e ?n] Inl) simp_all
    next
      case (Inr order)
      from tail M Inr have "w_redis w' = w_redis w1 \<and> repo_LockMarketPayOrder r E ?agg (w_db w1) = (Inr order, w_db w')"
        by (cases rule: lock_tail_cases) simp_all
      with granted(2,4,5) show ?thesis by (intro that(2) [of order ?agg] Inr) simp_all
    qed
  qed simp
qed

section \<open>Properties\<close>

text \<open>
  C12. With Redis up, the keys of the team as its requests leave them (\<open>stock_ok\<close>:
  counters without expiry, no slot above the counter), no counter at the limit of its width and no
  activity of negative validity, locking an order is all or nothing over the database and Redis.
  When it succeeds, one unpaid order of the user is added, the activity was effective and open, and
  for a named team exactly one more place is taken. When it fails, for whatever reason of the rules
  or of the database, the database is as before and no place is taken.
\<close>

theorem lock_is_all_or_nothing:
  assumes M: "mysql_ok (rp_db r)" and R: "redis_ok (rp_redis r)" "redis_up (rp_redis r)"
    and run: "lock_LockMarketPayOrder (NewTradeRepository r E) now user activity discount w = (q, w')"
    and stock: "stock_ok (pa_ActivityID activity) (pa_TeamID activity) (w_redis w)"
      "used (pa_ActivityID activity) (pa_TeamID activity) (w_redis w) + 1 < int64_max"
      "recovered (pa_ActivityID activity) (pa_TeamID activity) (w_redis w) + 1 < int64_max"
    and valid: "\<forall>x \<in> set (db_activities (w_db w)). 0 \<le> a_ValidTime x"
  shows "case q of
      Inl e \<Rightarrow> w_db w' = w_db w \<and>
        places_taken (pa_ActivityID activity) (pa_TeamID activity) (w_redis w') =
        places_taken (pa_ActivityID activity) (pa_TeamID activity) (w_redis w)
    | Inr order \<Rightarrow>
        (\<exists>l. db_lists (w_db w') = db_lists (w_db w) @ [l] \<and> l_UserID l = ue_UserID user \<and>
           l_ActivityID l = pa_ActivityID activity \<and> l_Status l = TradeOrderCreate \<and>
           l_OrderID l = mo_OrderID order) \<and>
        (\<exists>x \<in> set (db_activities (w_db w)). a_ActivityID x = pa_ActivityID activity \<and>
           a_Status x = ActivityEffective \<and> a_StartTime x \<le> now \<and> now \<le> a_EndTime x) \<and>
        places_taken (pa_ActivityID activity) (pa_TeamID activity) (w_redis w') =
        places_taken (pa_ActivityID activity) (pa_TeamID activity) (w_redis w) +
          (if pa_TeamID activity = '''' then 0 else 1)"
  using run M R stock valid
proof (cases rule: lock_service_stock)
  case (failed e n)
  then show ?thesis using stock_change_taken by fastforce
next
  case (locked order agg)
  from lock_row [OF locked(5) M] locked(2,3) obtain l where
    "db_lists (w_db w') = db_lists (w_db w) @ [l]" "l_UserID l = ue_UserID user"
    "l_ActivityID l = pa_ActivityID activity" "l_Status l = 0" "l_OrderID l = mo_OrderID order"
    by auto
  with locked(1,7) stock_change_taken [OF locked(6)] show ?thesis by simp
qed

text \<open>A request under the name of a team's recovery key leaves all keys of that team but this one alone.\<close>

lemma stock_key_not_forged: "skey a t \<notin> team_keys a (t @ ''_recovery'')"
  by (auto simp: team_keys_def recovery_key_eq slot_key_eq stock_key_inject)

lemma used_as_recovered: "used a (t @ ''_recovery'') K = recovered a t K"
  by (simp add: used_def recovered_def recovery_key_eq)

lemma lock_nowhere:
  assumes "repo_LockMarketPayOrder r E agg d = (Inr order, d')" and M: "mysql_ok (rp_db r)"
    and named: "pa_TeamID (agl_PayActivityEntity agg) \<noteq> ''''"
  shows "\<exists>g \<in> set (db_orders d). sqlEq (rp_db r) (o_TeamID g) (pa_TeamID (agl_PayActivityEntity agg))"
proof -
  from assms(1) have "my_txOrder (rp_db r) (lock_tx r E agg) d = (Inr order, d')"
    by (simp add: repo_LockMarketPayOrder_def)
  with rp_ok(4) [OF M] have "lock_tx r E agg d = (Inr order, d')" by (cases rule: txn_cases) simp_all
  then obtain t d1 where team: "lock_team r E agg d = (Inr t, d1)" using M by (rule lock_tx_Inr) blast
  from team M show ?thesis
  proof (cases rule: lock_team_Inr)
    case join
    then have "0 < cnt (room_hit (rp_db r) t) (db_orders d)" by simp
    then show ?thesis unfolding cnt_pos_iff using join(1) by blast
  qed (use named in simp)
qed

text \<open>
  C24. The name of a team is not checked before a place is taken. With Redis up, a request for a
  team that does not exist, whose name is that of a team followed by "_recovery", and which the
  rules let pass, takes its place from the recovery counter of that team and gives it back
  elsewhere: it fails and leaves the database as it was, and Redis has one place more for that team
  than before. It writes no order, so the limit of the user's orders does not keep it from being
  repeated.
\<close>

theorem forged_team_id_adds_place:
  assumes M: "mysql_ok (rp_db r)" and R: "redis_ok (rp_redis r)" "redis_up (rp_redis r)"
    and run: "lock_LockMarketPayOrder (NewTradeRepository r E) now user activity discount w = (q, w')"
    and forged: "pa_TeamID activity = t @ ''_recovery''"
    and none: "\<forall>g \<in> set (db_orders (w_db w)). \<not> sqlEq (rp_db r) (o_TeamID g) (t @ ''_recovery'')"
    and rules: "fst (NewTradeLockRuleFilter (NewTradeRepository r E) now \<lparr>lc_UserID = ue_UserID user,
      lc_ActivityID = pa_ActivityID activity, lc_TeamID = t @ ''_recovery''\<rparr> empty_lock_ctx w) = Inr back"
    and stock: "stock_ok (pa_ActivityID activity) (t @ ''_recovery'') (w_redis w)"
      "recovered (pa_ActivityID activity) t (w_redis w) + 1 < int64_max"
      "recovered (pa_ActivityID activity) (t @ ''_recovery'') (w_redis w) + 1 < int64_max"
    and valid: "\<forall>x \<in> set (db_activities (w_db w)). 0 \<le> a_ValidTime x"
  shows "(\<exists>e. q = Inl e) \<and> w_db w' = w_db w \<and>
    places_taken (pa_ActivityID activity) t (w_redis w') = places_taken (pa_ActivityID activity) t (w_redis w) - 1"
proof -
  let ?a = "pa_ActivityID activity" and ?t = "t @ ''_recovery''"
  from rules obtain w1 where filter: "NewTradeLockRuleFilter (NewTradeRepository r E) now \<lparr>lc_UserID = ue_UserID user,
      lc_ActivityID = ?a, lc_TeamID = ?t\<rparr> empty_lock_ctx w = (Inr back, w1)"
    by (metis prod.collapse)
  from filter M R stock(1) _ valid obtain b K where granted: "back = Some b" "w1 = w\<lparr>w_redis := K\<rparr>"
    "lb_RecoveryTeamStockKey b = rkey ?a ?t" "stock_change ?a ?t 1 0 (w_redis w) K"
    by (rule lock_rules_outcome) (use stock(2) in \<open>simp_all add: used_as_recovered\<close>)
  let ?agg = "\<lparr>agl_UserEntity = user, agl_PayActivityEntity = activity,
    agl_PayDiscountEntity = discount, agl_UserTakeOrderCount = lb_UserTakeOrderCount b\<rparr>"
  from run filter granted(1) have tail: "lock_tail (NewTradeRepository r E) ?agg
      (lb_RecoveryTeamStockKey b) (pa_ValidTime activity) w1 = (q, w')"
    by (simp add: lock_service_tail go_bind_def forged)
  obtain e where q: "q = Inl e"
  proof (cases q)
    case (Inr order)
    from tail M Inr have "repo_LockMarketPayOrder r E ?agg (w_db w) = (Inr order, w_db w')"
      by (cases rule: lock_tail_cases) (simp_all add: granted(2))
    from lock_nowhere [OF this M] none forged show thesis by simp
  qed
  have undone: "w_db w' = w_db w1" "stock_change ?a ?t 0 1 (w_redis w1) (w_redis w')"
    using lock_tail_gives_back [OF tail [unfolded q] M R, of ?t ?a] granted(2-4) stock(3)
    by (simp_all add: stock_change_def)
  have "stock_change ?a ?t 1 0 (w_redis w) (w_redis w1)" using granted(2,4) by simp
  from stock_change_trans [OF this undone(2)] have
    change: "stock_change ?a ?t 1 1 (w_redis w) (w_redis w')" by simp
  then have "used ?a t (w_redis w') = used ?a t (w_redis w)"
    using stock_key_not_forged by (intro used_cong) (simp add: stock_change_def)
  moreover have "recovered ?a t (w_redis w') = recovered ?a t (w_redis w) + 1"
    using change by (simp add: stock_change_def used_as_recovered)
  ultimately show ?thesis using q undone(1) granted(2) by (simp add: places_taken_def)
qed

definition ex_activity :: GroupBuyActivity where
  "ex_activity =
     \<lparr>a_ID = 1, a_ActivityID = 100123, a_ActivityName = ''a'', a_DiscountID = ''25120207'', a_GroupType = 0,
      a_TakeLimitCount = 1, a_Target = 2, a_ValidTime = 15, a_Status = 1, a_StartTime = 0,
      a_EndTime = 100000, a_TagID = '''', a_TagScope = '''', a_CreateTime = 0, a_UpdateTime = 0\<rparr>"

definition ex_world :: world where
  "ex_world =
     \<lparr>w_db = ex_db1\<lparr>db_activities := [ex_activity]\<rparr>, w_redis = Map.empty,
      w_dcc = dcc_New ''0'' ''100'' '''' ''0'', w_mq = [], w_async = [], w_http = []\<rparr>"

lemma lock_witness:
  "places_taken 100123 ''11111111'' (w_redis (snd (lock_LockMarketPayOrder
     (NewTradeRepository refRepository (ex_env 2)) 1000 \<lparr>ue_UserID = ''bob''\<rparr>
     (agl_PayActivityEntity (ex_lock ''bob'' ''11111111''))
     (agl_PayDiscountEntity (ex_lock ''bob'' ''11111111'')) ex_world))) \<le> 1"
proof -
  let ?act = "agl_PayActivityEntity (ex_lock ''bob'' ''11111111'')"
  obtain q w' where run: "lock_LockMarketPayOrder (NewTradeRepository refRepository (ex_env 2)) 1000
     \<lparr>ue_UserID = ''bob''\<rparr> ?act (agl_PayDiscountEntity (ex_lock ''bob'' ''11111111'')) ex_world = (q, w')"
    by force
  have act: "pa_ActivityID ?act = 100123" "pa_TeamID ?act = ''11111111''" by (simp_all add: ex_lock_def)
  have K: "w_redis ex_world = Map.empty" by (simp add: ex_world_def)
  note fresh = fresh_stock_ok [OF ex_stock_fresh, of 100123 "''11111111''"]
  have "case q of Inl e \<Rightarrow> places_taken 100123 ''11111111'' (w_redis w') = 0
     | Inr order \<Rightarrow> places_taken 100123 ''11111111'' (w_redis w') = 1"
    using lock_is_all_or_nothing [OF _ _ _ run, unfolded act K] fresh mysql_ok_ref redis_ok_ref redis_up_ref
    by (simp add: places_taken_def int64_max_def ex_world_def ex_activity_def split: sum.splits)
  with run show ?thesis by (simp split: sum.splits)
qed

lemma forged_team_witness:
  "\<exists>e w'. lock_LockMarketPayOrder (NewTradeRepository refRepository (ex_env 2)) 1000 \<lparr>ue_UserID = ''bob''\<rparr>
     (agl_PayActivityEntity (ex_lock ''bob'' ''11111111_recovery''))
     (agl_PayDiscountEntity (ex_lock ''bob'' ''11111111_recovery'')) ex_world = (Inl e, w') \<and>
   w_db w' = w_db ex_world \<and> places_taken 100123 ''11111111'' (w_redis w') = -1"
proof -
  let ?t = "''11111111_recovery''" and ?act = "agl_PayActivityEntity (ex_lock ''bob'' ''11111111_recovery'')"
  obtain q w' where run: "lock_LockMarketPayOrder (NewTradeRepository refRepository (ex_env 2)) 1000
     \<lparr>ue_UserID = ''bob''\<rparr> ?act (agl_PayDiscountEntity (ex_lock ''bob'' ?t)) ex_world = (q, w')"
    by force
  have act: "pa_ActivityID ?act = 100123" "pa_TeamID ?act = ''11111111'' @ ''_recovery''" by (simp_all add: ex_lock_def)
  have K: "w_redis ex_world = Map.empty" by (simp add: ex_world_def)
  note fresh = fresh_stock_ok [OF ex_stock_fresh]
  have none: "\<forall>g \<in> set (db_orders (w_db ex_world)). \<not> sqlEq (rp_db refRepository) (o_TeamID g) (''11111111'' @ ''_recovery'')"
    by (simp add: ex_world_def ex_defs)
  have granted: "repo_OccupyTeamStock refRepository (skey 100123 ?t) (rkey 100123 ?t) 2 15 Map.empty =
      (Inr True, occupied 100123 ?t 2 4500 Map.empty)"
    using Occupy_up [of refRepository 100123 ?t Map.empty 15 2] fresh redis_ok_ref redis_up_ref by (simp add: int64_max_def)
  obtain bk where rules: "fst (NewTradeLockRuleFilter (NewTradeRepository refRepository (ex_env 2)) 1000
     \<lparr>lc_UserID = ''bob'', lc_ActivityID = 100123, lc_TeamID = ''11111111'' @ ''_recovery''\<rparr>
     empty_lock_ctx ex_world) = Inr bk"
    by (simp add: NewTradeLockRuleFilter_def chain_of_foldr ActivityUsabilityRuleFilter_Apply_def
        UserTakeLimitRuleFilter_Apply_def TeamStockOccupyRuleFilter_Apply_def NewTradeRepository_def
        on_db_def on_redis_def repo_QueryGroupBuyActivityEntityByActivityID_def repo_QueryOrderCountByActivityID_def
        dc_GenerateTeamStockKey_def dc_GenerateRecoveryTeamStockKey_def granted empty_lock_ctx_def go_bind_def Let_def
        ex_world_def ex_activity_def ex_defs)
  have "(\<exists>e. q = Inl e) \<and> w_db w' = w_db ex_world \<and> places_taken 100123 ''11111111'' (w_redis w') =
      places_taken 100123 ''11111111'' (w_redis ex_world) - 1"
    using forged_team_id_adds_place [OF _ _ _ run act(2) none, unfolded act(1) UserEntity.simps, OF _ _ _ rules]
      fresh mysql_ok_ref redis_ok_ref redis_up_ref
    by (simp add: K int64_max_def ex_world_def ex_activity_def)
  with run show ?thesis using fresh by (auto simp: K places_taken_def)
qed

end
