(* ===== verification/Order_Lifecycle.thy ===== *)
theory Order_Lifecycle
  imports Team_Steps
begin

text \<open>
  The life of an order row under the trade transactions: created, paid, closed, never back, and
  never moved to another team; a refund that succeeded cannot succeed again. Then what the last
  settlement of a team does, and what it misses when two settlements read the team before
  either has written.
\<close>

section \<open>The rows of a table over a step\<close>

definition order_adv :: "GroupBuyOrderList \<Rightarrow> GroupBuyOrderList \<Rightarrow> bool" where
  "order_adv l l' \<longleftrightarrow>
     l_ID l' = l_ID l \<and> l_UserID l' = l_UserID l \<and> l_TeamID l' = l_TeamID l \<and>
     l_OrderID l' = l_OrderID l \<and> l_OutTradeNo l' = l_OutTradeNo l \<and>
     l_ActivityID l' = l_ActivityID l \<and> l_BizID l' = l_BizID l \<and>
     l_OriginalPrice l' = l_OriginalPrice l \<and> l_DeductionPrice l' = l_DeductionPrice l \<and>
     l_PayPrice l' = l_PayPrice l \<and>
     (l_Status l' = l_Status l \<or>
      l_Status l = TradeOrderCreate \<and> l_Status l' = TradeOrderComplete \<or>
      l_Status l \<in> {TradeOrderCreate, TradeOrderComplete} \<and> l_Status l' = TradeOrderClose)"

text \<open>
  A team row: its counts change, and its status, which never goes back to being in progress, nor from
  refunded to complete.
\<close>

definition team_adv :: "GroupBuyOrder \<Rightarrow> GroupBuyOrder \<Rightarrow> bool" where
  "team_adv g g' \<longleftrightarrow>
     o_ID g' = o_ID g \<and> o_TeamID g' = o_TeamID g \<and> o_ActivityID g' = o_ActivityID g \<and>
     o_TargetCount g' = o_TargetCount g \<and> o_ValidStartTime g' = o_ValidStartTime g \<and>
     o_ValidEndTime g' = o_ValidEndTime g \<and>
     (o_Status g' = o_Status g \<or>
      o_Status g = GroupBuyProgress \<and> o_Status g' = GroupBuyComplete \<or>
      o_Status g' \<in> {GroupBuyFail, GroupBuyCompleteFail})"

definition order_typed :: "GroupBuyOrderList \<Rightarrow> bool" where
  "order_typed l \<longleftrightarrow> l_Status l \<in> {TradeOrderCreate, TradeOrderComplete, TradeOrderClose}"

definition team_typed :: "GroupBuyOrder \<Rightarrow> bool" where
  "team_typed g \<longleftrightarrow> o_Status g \<in> {GroupBuyProgress, GroupBuyComplete, GroupBuyFail, GroupBuyCompleteFail}"

text \<open>Both tables over a step: every row stays and advances, and new rows have a status of the enumeration.\<close>

abbreviation lists_adv :: "db \<Rightarrow> db \<Rightarrow> bool" where
  "lists_adv d d' \<equiv> rows_adv order_adv order_typed (db_lists d) (db_lists d')"

abbreviation orders_adv :: "db \<Rightarrow> db \<Rightarrow> bool" where
  "orders_adv d d' \<equiv> rows_adv team_adv team_typed (db_orders d) (db_orders d')"

lemma order_adv_refl [simp]: "order_adv l l"
  by (simp add: order_adv_def)

lemma order_adv_trans: "order_adv a b \<Longrightarrow> order_adv b c \<Longrightarrow> order_adv a c"
  unfolding order_adv_def by auto

lemma team_adv_refl [simp]: "team_adv g g"
  by (simp add: team_adv_def)

lemma team_adv_trans: "team_adv a b \<Longrightarrow> team_adv b c \<Longrightarrow> team_adv a c"
  unfolding team_adv_def by auto

lemma order_typed_adv: "order_typed l \<Longrightarrow> order_adv l l' \<Longrightarrow> order_typed l'"
  by (auto simp: order_typed_def order_adv_def)

lemma team_typed_adv: "team_typed g \<Longrightarrow> team_adv g g' \<Longrightarrow> team_typed g'"
  by (auto simp: team_typed_def team_adv_def)

lemma lists_adv_trans: "lists_adv a b \<Longrightarrow> lists_adv b c \<Longrightarrow> lists_adv a c"
  by (rule rows_adv_trans) (blast intro: order_adv_trans order_typed_adv)+

lemma orders_adv_trans: "orders_adv a b \<Longrightarrow> orders_adv b c \<Longrightarrow> orders_adv a c"
  by (rule rows_adv_trans) (blast intro: team_adv_trans team_typed_adv)+

lemma adv_refl [simp]: "lists_adv d d" "orders_adv d d"
  by (simp_all add: rows_adv_refl)

lemma refund_updates_adv: "team_adv g (refund_updates E p dl dc g)"
  by (simp add: team_adv_def refund_updates_def Let_def)

lemma doRefund_adv:
  assumes "mysql_ok (rp_db r)" and "doRefund r E agg s category rt True dc d = (res, d')"
    and "gp_LockCount (agr_GroupBuyProgress agg) = -1" and "s = 0 \<or> s = 1"
  shows "lists_adv d d' \<and> orders_adv d d'"
proof -
  from assms(2) have "my_txTask (rp_db r) (doRefund_tx r E agg s category rt True dc) d = (res, d')"
    by (simp add: doRefund_def)
  with rp_ok(5) [OF assms(1)] show ?thesis
  proof (cases rule: txn_cases)
    case (committed x)
    have "gp_LockCount (agr_GroupBuyProgress agg) \<noteq> 0" "s \<noteq> 2" using assms(3,4) by auto
    with committed(2) assms(1) have "db_lists d' = upd_where
        (close_hit (rp_db r) (agr_TradeRefundOrderEntity agg) s) (close_set E) (db_lists d) \<and>
      db_orders d' = upd_where (\<lambda>g. sqlEq (rp_db r) (o_TeamID g) (ro_TeamID (agr_TradeRefundOrderEntity agg)))
        (refund_updates E (agr_GroupBuyProgress agg) True dc) (db_orders d)"
      by (rule doRefund_tx_Inr) simp
    then show ?thesis
      using assms(4) refund_updates_adv by (auto intro!: rows_adv_upd simp: order_adv_def)
  qed simp
qed

lemma lock_adv:
  assumes "repo_LockMarketPayOrder r E agg d = (res, d')" and M: "mysql_ok (rp_db r)"
  shows "lists_adv d d' \<and> orders_adv d d'"
proof -
  from assms(1) have "my_txOrder (rp_db r) (lock_tx r E agg) d = (res, d')"
    by (simp add: repo_LockMarketPayOrder_def)
  with rp_ok(4) [OF M] show ?thesis
  proof (cases rule: txn_cases)
    case (committed x)
    from committed(2) M obtain t d1 j where team: "lock_team r E agg d = (Inr t, d1)"
      and d': "d' = d1\<lparr>db_lists := db_lists d1 @ [(new_order E agg t (lock_orderID E agg))\<lparr>l_ID := j\<rparr>]\<rparr>"
      by (rule lock_tx_Inr) simp
    from team M have "db_lists d1 = db_lists d \<and> orders_adv d d1"
    proof (cases rule: lock_team_Inr)
      case (new i)
      then show ?thesis by (auto intro!: rows_adv_append simp: team_typed_def)
    next
      case join
      then show ?thesis by (auto intro!: rows_adv_upd simp: team_adv_def)
    qed
    with d' show ?thesis by (auto intro!: rows_adv_append simp: order_typed_def)
  qed simp
qed

lemma settle_adv:
  assumes "repo_SettlementMarketPayOrder r E agg d = (res, d')" and M: "mysql_ok (rp_db r)"
  shows "lists_adv d d' \<and> orders_adv d d'"
proof -
  from assms(1) have "my_txTask (rp_db r) (settle_tx r E agg) d = (res, d')"
    by (simp add: repo_SettlementMarketPayOrder_def)
  with rp_ok(5) [OF M] show ?thesis
  proof (cases rule: txn_cases)
    case (committed x)
    let ?d = "settled_db (rp_db r) E agg d"
    have lists: "lists_adv d ?d" and orders: "orders_adv d ?d"
      by (auto intro!: rows_adv_upd simp: settled_db_def order_adv_def team_adv_def)
    have "db_lists d' = db_lists ?d \<and> orders_adv ?d d'"
      if "settle_complete r E agg ?d = (Inr x, d')"
      using that M by (rule settle_complete_Inr) (auto intro!: rows_adv_upd simp: team_adv_def)
    then have "db_lists d' = db_lists ?d \<and> orders_adv ?d d'"
      using settle_tx_Inr(3) [OF committed(2) M] by (auto split: if_splits)
    with lists orders_adv_trans [OF orders] show ?thesis by auto
  qed simp
qed

lemma paidTeam_adv:
  assumes "repo_PaidTeam2Refund r E (BuildPaidTeam2RefundAggregate order (-1) (-1)) d = (res, d')"
    and inv: "teams_ok (rp_db r) d" and M: "mysql_ok (rp_db r)"
  shows "lists_adv d d' \<and> orders_adv d d'"
proof -
  from assms(1) have "my_txTask (rp_db r)
      (paidTeam2Refund_tx r E (BuildPaidTeam2RefundAggregate order (-1) (-1))) d = (res, d')"
    by (simp add: repo_PaidTeam2Refund_def)
  with rp_ok(5) [OF M] show ?thesis
  proof (cases rule: txn_cases)
    case (committed x)
    from inv have keys: "distinct (map (\<lambda>g. my_ck (rp_db r) (o_TeamID g)) (db_orders d))"
      unfolding teams_ok_def by blast
    from committed(2) M _ keys show ?thesis
      by (rule paidTeam2Refund_tx_Inr) (auto intro!: rows_adv_upd simp: order_adv_def team_adv_def)
  qed simp
qed

lemma trade_step_adv:
  assumes "trade_step r d d'" and inv: "teams_ok (rp_db r) d" and M: "mysql_ok (rp_db r)"
  shows "lists_adv d d'" and "orders_adv d d'"
proof -
  from assms(1) have "lists_adv d d' \<and> orders_adv d d'"
  proof cases
    case (lock E agg res)
    then show ?thesis by (intro lock_adv [OF _ M])
  next
    case (settle E sagg rest)
    then show ?thesis by (intro settle_adv [OF _ M])
  next
    case unpaid
    then show ?thesis
      by (intro doRefund_adv [OF M unpaid(1) [unfolded repo_Unpaid2Refund_def]]) simp_all
  next
    case paid
    then show ?thesis
      by (intro doRefund_adv [OF M paid(1) [unfolded repo_Paid2Refund_def]]) simp_all
  next
    case (paidTeam E order rest)
    then show ?thesis by (intro paidTeam_adv [OF _ inv M])
  next
    case (task E status t n)
    from task rp_ok(3) [OF M] have "db_lists d' = db_lists d \<and> db_orders d' = db_orders d"
      unfolding set_task_status_def by (elim dbUpdates_cases) simp_all
    then show ?thesis by (simp add: rows_adv_refl)
  qed
  then show "lists_adv d d'" "orders_adv d d'" by blast+
qed

lemma trade_steps_adv:
  assumes "(trade_step r)\<^sup>*\<^sup>* d d'" and "teams_ok (rp_db r) d" and "mysql_ok (rp_db r)"
  shows "lists_adv d d'" and "orders_adv d d'"
proof -
  from assms have "lists_adv d d' \<and> orders_adv d d'"
  proof (induction rule: rtranclp_induct)
    case (step y z)
    have inv: "teams_ok (rp_db r) y" using trade_steps_teams_ok step.hyps(1) step.prems by blast
    from step lists_adv_trans [of d y z] orders_adv_trans [of d y z] trade_step_adv [OF step.hyps(2) inv step.prems(2)]
    show ?case by blast
  qed simp
  then show "lists_adv d d'" "orders_adv d d'" by blast+
qed

lemmas lists_adv_row = rows_adv_row [where R = order_adv and new = order_typed]

section \<open>Refunds\<close>

text \<open>The three refunds, by the type \<open>GetRefundStrategy\<close> gives.\<close>

definition refund_by ::
    "TradeRepository \<Rightarrow> call_env \<Rightarrow> RefundType \<Rightarrow> TradeRefundOrderEntity \<Rightarrow>
     (db, NotifyTaskEntity option) go" where
  "refund_by r E rt order =
     (if rt = RefundUnpaidUnlock then
        repo_Unpaid2Refund r E (BuildUnpaid2RefundAggregate order (-1))
      else if rt = RefundPaidUnformed then
        repo_Paid2Refund r E (BuildPaid2RefundAggregate order (-1) (-1))
      else repo_PaidTeam2Refund r E (BuildPaidTeam2RefundAggregate order (-1) (-1)))"

lemma doRefund_lists:
  assumes M: "mysql_ok (rp_db r)" and step: "doRefund r E agg s category rt True dc d = (Inr x, d')"
    and agg: "gp_LockCount (agr_GroupBuyProgress agg) = -1" "s = 0 \<or> s = 1"
  shows "cnt (close_hit (rp_db r) (agr_TradeRefundOrderEntity agg) s) (db_lists d) = 1 \<and>
    db_lists d' = upd_where (close_hit (rp_db r) (agr_TradeRefundOrderEntity agg) s)
      (close_set E) (db_lists d) \<and>
    x = Some (toNotifyEntity (refund_task r E (agr_TradeRefundOrderEntity agg) category rt)) \<and>
    (\<exists>i. db_tasks d' = db_tasks d @
       [(refund_task r E (agr_TradeRefundOrderEntity agg) category rt)\<lparr>t_ID := i\<rparr>])"
proof -
  from step have "my_txTask (rp_db r) (doRefund_tx r E agg s category rt True dc) d = (Inr x, d')"
    by (simp add: doRefund_def)
  with rp_ok(5) [OF M] have tx: "doRefund_tx r E agg s category rt True dc d = (Inr x, d')"
    by (cases rule: txn_cases) simp_all
  have "gp_LockCount (agr_GroupBuyProgress agg) \<noteq> 0" "s \<noteq> 2" using agg by auto
  with tx M show ?thesis by (rule doRefund_tx_Inr) (simp, blast)
qed

lemma paidTeam_lists:
  assumes M: "mysql_ok (rp_db r)" and inv: "teams_ok (rp_db r) d"
    and step: "repo_PaidTeam2Refund r E (BuildPaidTeam2RefundAggregate order (-1) (-1)) d = (Inr x, d')"
  shows "cnt (close_hit (rp_db r) order 1) (db_lists d) = 1 \<and>
    db_lists d' = upd_where (close_hit (rp_db r) order 1) (close_set E) (db_lists d) \<and>
    x = Some (toNotifyEntity (refund_task r E order TaskTradePaidTeam2Refund (rt_Code RefundPaidFormed))) \<and>
    (\<exists>i. db_tasks d' = db_tasks d @
       [(refund_task r E order TaskTradePaidTeam2Refund (rt_Code RefundPaidFormed))\<lparr>t_ID := i\<rparr>])"
proof -
  from step have "my_txTask (rp_db r)
      (paidTeam2Refund_tx r E (BuildPaidTeam2RefundAggregate order (-1) (-1))) d = (Inr x, d')"
    by (simp add: repo_PaidTeam2Refund_def)
  with rp_ok(5) [OF M] have tx: "paidTeam2Refund_tx r E (BuildPaidTeam2RefundAggregate order (-1) (-1)) d
      = (Inr x, d')"
    by (cases rule: txn_cases) simp_all
  from inv have "distinct (map (\<lambda>g. my_ck (rp_db r) (o_TeamID g)) (db_orders d))"
    unfolding teams_ok_def by blast
  from tx M _ this show ?thesis by (rule paidTeam2Refund_tx_Inr) (simp, simp, blast)
qed

definition refund_category :: "RefundType \<Rightarrow> string" where
  "refund_category rt =
     (if rt = RefundUnpaidUnlock then TaskTradeUnpaid2Refund
      else if rt = RefundPaidUnformed then TaskTradePaid2Refund
      else TaskTradePaidTeam2Refund)"

definition refund_from :: "RefundType \<Rightarrow> int" where
  "refund_from rt = (if rt = RefundUnpaidUnlock then TradeOrderCreate else TradeOrderComplete)"

lemma refund_type_neq [simp]:
  "RefundPaidUnformed \<noteq> RefundUnpaidUnlock" "RefundPaidFormed \<noteq> RefundUnpaidUnlock"
  "RefundPaidFormed \<noteq> RefundPaidUnformed"
  by (simp_all add: RefundPaidUnformed_def RefundUnpaidUnlock_def RefundPaidFormed_def)

lemma refund_by_Inr:
  assumes "mysql_ok (rp_db r)" and "teams_ok (rp_db r) d"
    and "refund_by r E rt order d = (Inr x, d')"
    and "rt \<in> {RefundUnpaidUnlock, RefundPaidUnformed, RefundPaidFormed}"
  shows "cnt (close_hit (rp_db r) order (refund_from rt)) (db_lists d) = 1 \<and>
    db_lists d' = upd_where (close_hit (rp_db r) order (refund_from rt)) (close_set E) (db_lists d) \<and>
    x = Some (toNotifyEntity (refund_task r E order (refund_category rt) (rt_Code rt))) \<and>
    (\<exists>i. db_tasks d' = db_tasks d @
       [(refund_task r E order (refund_category rt) (rt_Code rt))\<lparr>t_ID := i\<rparr>])"
proof -
  from assms(4) consider "rt = RefundUnpaidUnlock" | "rt = RefundPaidUnformed" | "rt = RefundPaidFormed"
    by blast
  then show ?thesis
  proof cases
    case 1
    with assms(3) have "doRefund r E (BuildUnpaid2RefundAggregate order (-1)) 0 TaskTradeUnpaid2Refund
        (rt_Code RefundUnpaidUnlock) True False d = (Inr x, d')"
      by (simp add: refund_by_def repo_Unpaid2Refund_def)
    from doRefund_lists [OF assms(1) this] 1 show ?thesis
      by (simp add: refund_from_def refund_category_def)
  next
    case 2
    with assms(3) have "doRefund r E (BuildPaid2RefundAggregate order (-1) (-1)) 1 TaskTradePaid2Refund
        (rt_Code RefundPaidUnformed) True True d = (Inr x, d')"
      by (simp add: refund_by_def repo_Paid2Refund_def)
    from doRefund_lists [OF assms(1) this] 2 show ?thesis
      by (simp add: refund_from_def refund_category_def)
  next
    case 3
    with assms(3) have "repo_PaidTeam2Refund r E (BuildPaidTeam2RefundAggregate order (-1) (-1)) d
        = (Inr x, d')"
      by (simp add: refund_by_def)
    from paidTeam_lists [OF assms(1,2) this] 3 show ?thesis
      by (simp add: refund_from_def refund_category_def)
  qed
qed

text \<open>Once an order is closed, no refund of it succeeds, however much happens in between.\<close>

lemma closed_blocks_refund:
  assumes M: "mysql_ok (rp_db r)" and inv: "teams_ok (rp_db r) d"
    and l: "l \<in> set (db_lists d)" "sqlEq (rp_db r) (l_OrderID l) (ro_OrderID order)" "l_Status l = 2"
    and rt: "rt \<in> {RefundUnpaidUnlock, RefundPaidUnformed, RefundPaidFormed}"
  shows "refund_by r E rt order d \<noteq> (Inr x, d')"
proof
  assume "refund_by r E rt order d = (Inr x, d')"
  from refund_by_Inr [OF M inv this rt]
  have "0 < cnt (close_hit (rp_db r) order (refund_from rt)) (db_lists d)" by simp
  then obtain l' where l': "l' \<in> set (db_lists d)" "close_hit (rp_db r) order (refund_from rt) l'"
    unfolding cnt_pos_iff by blast
  have "distinct (map (\<lambda>l. my_ck (rp_db r) (l_OrderID l)) (db_lists d))"
    using inv unfolding teams_ok_def by blast
  from filter_key_unique [OF this l'(1) l(1)] l' l(2) have "l' = l"
    unfolding sqlEq_def by simp
  with l'(2) l(3) show False by (auto simp: refund_from_def split: if_splits)
qed

text \<open>
  C4. An order is refunded at most once: in a market that started empty, after a refund of an order
  has succeeded, no refund of it, of any of the three kinds, succeeds again, whatever transactions
  run in between within their guards.
\<close>

theorem refund_at_most_once:
  assumes M: "mysql_ok (rp_db r)" and "db_orders d0 = []" and "db_lists d0 = []"
    and "(trade_step r)\<^sup>*\<^sup>* d0 d"
    and team: "order_in_team (rp_db r) d (ro_OrderID order) (ro_TeamID order)"
    and rt: "rt \<in> {RefundUnpaidUnlock, RefundPaidUnformed, RefundPaidFormed}"
    and first: "refund_by r E rt order d = (Inr x, d1)"
    and between: "(trade_step r)\<^sup>*\<^sup>* d1 d2"
    and again: "rt' \<in> {RefundUnpaidUnlock, RefundPaidUnformed, RefundPaidFormed}"
      "ro_OrderID order' = ro_OrderID order"
  shows "refund_by r E' rt' order' d2 \<noteq> (Inr y, d3)"
proof -
  have "teams_ok (rp_db r) d0" using assms(2,3) by (simp add: teams_ok_def)
  then have inv: "teams_ok (rp_db r) d" using trade_steps_teams_ok assms(4) M by blast
  have step: "trade_step r d d1"
    using first rt trade_step.intros(3-5) team unfolding refund_by_def by (auto split: if_splits)
  then have inv1: "teams_ok (rp_db r) d1" using trade_step_teams_ok inv M by blast
  then have inv2: "teams_ok (rp_db r) d2" using trade_steps_teams_ok between M by blast
  note ran = refund_by_Inr [OF M inv first rt]
  then have "0 < cnt (close_hit (rp_db r) order (refund_from rt)) (db_lists d)" by simp
  then obtain l where l: "l \<in> set (db_lists d)" "close_hit (rp_db r) order (refund_from rt) l"
    unfolding cnt_pos_iff by blast
  then have "close_set E l \<in> set (db_lists d1)" using ran by (auto simp: upd_where_def)
  from lists_adv_row [OF trade_steps_adv(1) [OF between inv1 M] this] obtain l' where
    "l' \<in> set (db_lists d2)" "order_adv (close_set E l) l'" .
  with l(2) have "l' \<in> set (db_lists d2)" "sqlEq (rp_db r) (l_OrderID l') (ro_OrderID order')"
    "l_Status l' = 2"
    using again(2) by (auto simp: order_adv_def)
  from closed_blocks_refund [OF M inv2 this again(1)] show ?thesis .
qed

lemma ex_refund_ann:
  "refund_by refRepository (ex_env 1) RefundPaidUnformed (ex_refund ''ann'' ''111111111111'') ex_db3
   = (Inr (Some (toNotifyEntity (refund_task refRepository (ex_env 1)
        (ex_refund ''ann'' ''111111111111'') TaskTradePaid2Refund (rt_Code RefundPaidUnformed)))),
      ex_db3\<lparr>db_orders := [ex_team 1 0 0],
        db_lists := [ex_row 1 ''ann'' ''111111111111'' 2 (Some 1200), ex_row 2 ''bob'' ''222222222222'' 0 None],
        db_tasks := [(refund_task refRepository (ex_env 1) (ex_refund ''ann'' ''111111111111'')
          TaskTradePaid2Refund (rt_Code RefundPaidUnformed))\<lparr>t_ID := 1\<rparr>]\<rparr>)"
  by (simp add: refund_by_def RefundPaidUnformed_def RefundUnpaidUnlock_def trade_eval ex_defs ex_refund_def)

lemma refund_at_most_once_witness:
  "\<nexists>y d. refund_by refRepository (ex_env 2) RefundPaidFormed (ex_refund ''ann'' ''111111111111'')
     (snd (refund_by refRepository (ex_env 1) RefundPaidUnformed
        (ex_refund ''ann'' ''111111111111'') ex_db3)) = (Inr y, d)"
proof -
  have "order_in_team refMySQL ex_db3 ''111111111111'' ''11111111''"
    by (simp add: order_in_team_def ex_defs)
  then show ?thesis
    using refund_at_most_once [of refRepository ex_db ex_db3 "ex_refund ''ann'' ''111111111111''"
        RefundPaidUnformed "ex_env 1", OF _ _ _ ex_reach _ _ ex_refund_ann rtranclp.rtrancl_refl]
      mysql_ok_ref ex_refund_ann
    by (simp add: ex_db_def ex_refund_def)
qed

section \<open>The last settlement of a team\<close>

lemma settlement_Inr:
  assumes M: "mysql_ok (rp_db r)" and "repo_SettlementMarketPayOrder r E agg d = (Inr x, d')"
  shows "settle_tx r E agg d = (Inr x, d')"
proof -
  from assms(2) have "my_txTask (rp_db r) (settle_tx r E agg) d = (Inr x, d')"
    by (simp add: repo_SettlementMarketPayOrder_def)
  with rp_ok(5) [OF M] show ?thesis by (cases rule: txn_cases) simp_all
qed

text \<open>A row the statement that must hit one row hits, by its key.\<close>

lemma hit_row:
  assumes "cnt P xs = 1" and "distinct (map k xs)" and "x \<in> set xs" and "\<And>y. P y \<Longrightarrow> k y = k x"
  shows "P x"
proof -
  from assms(1) have "0 < cnt P xs" by simp
  then obtain y where "y \<in> set xs" "P y" unfolding cnt_pos_iff by blast
  then show ?thesis using filter_key_unique [OF assms(2)] assms(3,4) by metis
qed

abbreviation settle_team :: "GroupBuyTeamSettlementAggregate \<Rightarrow> string" where
  "settle_team agg \<equiv> gt_TeamID (ags_GroupBuyTeamEntity agg)"

abbreviation team_keys_apart :: "mysql \<Rightarrow> db \<Rightarrow> bool" where
  "team_keys_apart M d \<equiv> distinct (map (\<lambda>g. my_ck M (o_TeamID g)) (db_orders d))"

lemma settlement_hits_team:
  assumes M: "mysql_ok (rp_db r)" and keys: "team_keys_apart (rp_db r) d"
    and tx: "settle_tx r E agg d = (Inr x, d')"
    and g: "g \<in> set (db_orders d)" "sqlEq (rp_db r) (o_TeamID g) (settle_team agg)"
  shows "join_set E g \<in> set (db_orders (settled_db (rp_db r) E agg d))"
proof -
  from keys have "join_hit (rp_db r) agg g"
    by (rule hit_row [OF settle_tx_Inr(2) [OF tx M] _ g(1)]) (use g(2) in \<open>simp add: sqlEq_def\<close>)
  with g(1) show ?thesis by (auto simp: settled_db_def upd_where_def)
qed

lemma teams_ok_keys: "teams_ok M d \<Longrightarrow> team_keys_apart M d"
  unfolding teams_ok_def by blast

lemma complete_hits_team:
  assumes M: "mysql_ok (rp_db r)" and keys: "team_keys_apart (rp_db r) d"
    and tx: "settle_complete r E agg d = (Inr x, d')"
    and g: "g \<in> set (db_orders d)" "sqlEq (rp_db r) (o_TeamID g) (settle_team agg)"
  shows "formed_set E g \<in> set (db_orders d')"
    and "\<exists>t. x = Some t \<and> nt_TeamID t = settle_team agg"
    and "db_lists d' = db_lists d"
proof -
  from tx M obtain i and rows :: "GroupBuyOrderList list" where
    d': "d' = d\<lparr>db_orders := upd_where (formed_hit (rp_db r) agg) (formed_set E) (db_orders d),
           db_tasks := db_tasks d @ [(settle_task r E agg (map l_OutTradeNo rows))\<lparr>t_ID := i\<rparr>]\<rparr>"
    and x: "x = Some (toNotifyEntity (settle_task r E agg (map l_OutTradeNo rows)))"
    and one: "cnt (formed_hit (rp_db r) agg) (db_orders d) = 1"
    by (rule settle_complete_Inr) blast
  from keys have "formed_hit (rp_db r) agg g"
    by (rule hit_row [OF one _ g(1)]) (use g(2) in \<open>simp add: sqlEq_def\<close>)
  with g(1) show "formed_set E g \<in> set (db_orders d')" by (auto simp: d' upd_where_def)
  show "\<exists>t. x = Some t \<and> nt_TeamID t = settle_team agg" "db_lists d' = db_lists d"
    by (simp_all add: x d' toNotifyEntity_def settle_task_def Let_def)
qed

text \<open>The last step of a settlement on a database that meets the invariant.\<close>

lemma settle_complete_team:
  assumes M: "mysql_ok (rp_db r)" and inv: "teams_ok (rp_db r) d"
    and tx: "settle_complete r E agg d = (Inr x, d')"
    and g: "g \<in> set (db_orders d)" "sqlEq (rp_db r) (o_TeamID g) (settle_team agg)"
  obtains i and rows :: "GroupBuyOrderList list" where
    "formed_set E g \<in> set (db_orders d')" "int (length rows) = o_CompleteCount g"
    "x = Some (toNotifyEntity (settle_task r E agg (map l_OutTradeNo rows)))"
    "db_tasks d' = db_tasks d @ [(settle_task r E agg (map l_OutTradeNo rows))\<lparr>t_ID := i\<rparr>]"
    "mset rows = mset (filter (\<lambda>l. sqlEq (rp_db r) (l_TeamID l) (settle_team agg) \<and>
       l_Status l = TradeOrderComplete) (db_lists d'))"
proof -
  let ?M = "rp_db r"
  from tx M obtain i and rows :: "GroupBuyOrderList list" where
    d': "d' = d\<lparr>db_orders := upd_where (formed_hit ?M agg) (formed_set E) (db_orders d),
           db_tasks := db_tasks d @ [(settle_task r E agg (map l_OutTradeNo rows))\<lparr>t_ID := i\<rparr>]\<rparr>"
    and x: "x = Some (toNotifyEntity (settle_task r E agg (map l_OutTradeNo rows)))"
    and rows: "mset rows = mset (filter (\<lambda>l. sqlEq ?M (l_TeamID l) (settle_team agg) \<and> l_Status l = 1)
         (db_lists d))"
    by (rule settle_complete_Inr) blast
  have "formed_set E g \<in> set (db_orders d')" by (rule complete_hits_team [OF M teams_ok_keys [OF inv] tx g])
  moreover have "int (length rows) = o_CompleteCount g"
  proof -
    have "length rows = paid_count ?M d (settle_team agg)"
      using arg_cong [OF rows, of size] by (simp add: paid_count_def cnt_def del: mset_filter)
    also have "\<dots> = paid_count ?M d (o_TeamID g)" using counts_sqlEq(2) [OF g(2)] by simp
    finally show ?thesis using inv g(1) unfolding teams_ok_def team_ok_def by simp
  qed
  ultimately show ?thesis using x rows d' by (intro that [of rows i]) (simp_all del: mset_filter)
qed

text \<open>
  C5. A settlement that read the team as it is now, and succeeds when one place is left to pay,
  makes the team complete (status 1, complete count equal to the target) and writes one notify
  task, whose \<open>outTradeNoList\<close> is exactly the out-trade numbers of the paid orders of the team, as
  many as the target.
\<close>

theorem fresh_settlement_completes_team:
  assumes M: "mysql_ok (rp_db r)" and inv: "teams_ok (rp_db r) d"
    and ran: "repo_SettlementMarketPayOrder r E agg d = (Inr x, d')"
    and team: "pay_in_team (rp_db r) d (ue_UserID (ags_UserEntity agg))
      (ps_OutTradeNo (ags_TradePaySuccessEntity agg)) (settle_team agg)"
    and g: "g \<in> set (db_orders d)" "sqlEq (rp_db r) (o_TeamID g) (settle_team agg)"
    and fresh: "gt_CompleteCount (ags_GroupBuyTeamEntity agg) = o_CompleteCount g"
      "gt_TargetCount (ags_GroupBuyTeamEntity agg) = o_TargetCount g"
    and last: "o_TargetCount g - o_CompleteCount g = 1"
  shows "\<exists>g' nos task i. g' \<in> set (db_orders d') \<and> o_TeamID g' = o_TeamID g \<and>
    o_Status g' = GroupBuyComplete \<and> o_CompleteCount g' = o_TargetCount g \<and>
    o_TargetCount g' = o_TargetCount g \<and>
    x = Some (toNotifyEntity task) \<and> db_tasks d' = db_tasks d @ [task\<lparr>t_ID := i\<rparr>] \<and>
    t_ParameterJSON task =
      JObj [(''outTradeNoList'', JArr (map JStr nos)), (''teamId'', JStr (settle_team agg))] \<and>
    mset nos = image_mset l_OutTradeNo (mset (filter (\<lambda>l. sqlEq (rp_db r) (l_TeamID l)
      (settle_team agg) \<and> l_Status l = TradeOrderComplete) (db_lists d'))) \<and>
    int (length nos) = o_TargetCount g"
proof -
  let ?d = "settled_db (rp_db r) E agg d"
  note stx = settlement_Inr [OF M ran]
  note tx = settle_tx_Inr [OF stx M]
  have inv1: "teams_ok (rp_db r) ?d" using settled_db_teams_ok [OF inv tx(1,2) team] .
  note g1 = settlement_hits_team [OF M teams_ok_keys [OF inv] stx g]
  have eq: "sqlEq (rp_db r) (o_TeamID (join_set E g)) (settle_team agg)" using g(2) by simp
  from tx(3) fresh last have "settle_complete r E agg ?d = (Inr x, d')" by simp
  from settle_complete_team [OF M inv1 this g1 eq] obtain i and rows :: "GroupBuyOrderList list" where
    c: "formed_set E (join_set E g) \<in> set (db_orders d')" "int (length rows) = o_CompleteCount (join_set E g)"
    "x = Some (toNotifyEntity (settle_task r E agg (map l_OutTradeNo rows)))"
    "db_tasks d' = db_tasks ?d @ [(settle_task r E agg (map l_OutTradeNo rows))\<lparr>t_ID := i\<rparr>]"
    "mset rows = mset (filter (\<lambda>l. sqlEq (rp_db r) (l_TeamID l) (settle_team agg) \<and>
       l_Status l = TradeOrderComplete) (db_lists d'))" .
  then show ?thesis
    using last by (intro exI [of _ "formed_set E (join_set E g)"] exI [of _ "map l_OutTradeNo rows"]
        exI [of _ "settle_task r E agg (map l_OutTradeNo rows)"] exI [of _ i] conjI)
      (simp_all add: settled_db_def settle_task_def Let_def del: mset_filter)
qed

lemma ex_teams_ok3: "teams_ok refMySQL ex_db3"
  using trade_steps_teams_ok [OF ex_reach] mysql_ok_ref by (simp add: teams_ok_def ex_db_def)

lemma ex_settle_bob:
  "\<exists>x d. repo_SettlementMarketPayOrder refRepository (ex_env 1) (ex_settle ''bob'' 1) ex_db3 = (Inr x, d)"
  by (simp add: trade_eval ex_defs)

lemma fresh_settlement_witness:
  "\<exists>x d g. repo_SettlementMarketPayOrder refRepository (ex_env 1) (ex_settle ''bob'' 1) ex_db3 = (Inr x, d) \<and>
     g \<in> set (db_orders d) \<and> o_Status g = 1 \<and> o_CompleteCount g = 2"
proof -
  obtain x d where ran:
    "repo_SettlementMarketPayOrder refRepository (ex_env 1) (ex_settle ''bob'' 1) ex_db3 = (Inr x, d)"
    using ex_settle_bob by blast
  have "pay_in_team refMySQL ex_db3 ''bob'' ''bob-1'' ''11111111''"
    by (simp add: pay_in_team_def ex_defs)
  then have "\<exists>g. g \<in> set (db_orders d) \<and> o_Status g = 1 \<and> o_CompleteCount g = 2"
    using fresh_settlement_completes_team [OF _ _ ran, of "ex_team 2 1 0"] mysql_ok_ref ex_teams_ok3
    by (simp add: ex_settle_def ex_db3_def) (auto simp: ex_team_def)
  with ran show ?thesis by blast
qed

text \<open>
  C6. Two settlements of one team that both read it with two places left to pay both succeed,
  and together fill the team, but neither is the last one for itself: the complete count reaches
  the target while the team stays in progress (status 0) and no notify task is written.
\<close>

theorem stale_settlements_miss_completion:
  assumes M: "mysql_ok (rp_db r)" and inv: "teams_ok (rp_db r) d"
    and g: "g \<in> set (db_orders d)" "o_Status g = GroupBuyProgress" "o_TargetCount g - o_CompleteCount g = 2"
      "sqlEq (rp_db r) (o_TeamID g) (settle_team agg)" "sqlEq (rp_db r) (o_TeamID g) (settle_team agg')"
    and stale: "gt_TargetCount (ags_GroupBuyTeamEntity agg) - gt_CompleteCount (ags_GroupBuyTeamEntity agg) = 2"
      "gt_TargetCount (ags_GroupBuyTeamEntity agg') - gt_CompleteCount (ags_GroupBuyTeamEntity agg') = 2"
    and team: "pay_in_team (rp_db r) d (ue_UserID (ags_UserEntity agg))
      (ps_OutTradeNo (ags_TradePaySuccessEntity agg)) (settle_team agg)"
    and ran: "repo_SettlementMarketPayOrder r E agg d = (Inr x, d1)"
      "repo_SettlementMarketPayOrder r E' agg' d1 = (Inr x', d2)"
  shows "x = None \<and> x' = None \<and> db_tasks d2 = db_tasks d \<and>
    (\<exists>g' \<in> set (db_orders d2). o_TeamID g' = o_TeamID g \<and> o_Status g' = GroupBuyProgress \<and>
       o_CompleteCount g' = o_TargetCount g')"
proof -
  let ?M = "rp_db r"
  note tx1 = settle_tx_Inr [OF settlement_Inr [OF M ran(1)] M]
  note tx2 = settle_tx_Inr [OF settlement_Inr [OF M ran(2)] M]
  from tx1(3) stale(1) have d1: "x = None" "d1 = settled_db ?M E agg d" by simp_all
  from tx2(3) stale(2) have d2: "x' = None" "d2 = settled_db ?M E' agg' d1" by simp_all
  have inv1: "teams_ok ?M d1" using settled_db_teams_ok [OF inv tx1(1,2) team] d1 by simp
  have g1: "join_set E g \<in> set (db_orders d1)"
    using settlement_hits_team [OF M teams_ok_keys [OF inv] settlement_Inr [OF M ran(1)] g(1,4)] d1 by simp
  have "sqlEq ?M (o_TeamID (join_set E g)) (settle_team agg')" using g(5) by simp
  from settlement_hits_team [OF M teams_ok_keys [OF inv1] settlement_Inr [OF M ran(2)] g1 this]
  have "join_set E' (join_set E g) \<in> set (db_orders d2)" using d2 by simp
  moreover have "db_tasks d2 = db_tasks d" by (simp add: d1 d2 settled_db_def)
  ultimately show ?thesis
    using d1(1) d2(1) g(2,3) by (intro conjI bexI [of _ "join_set E' (join_set E g)"]) simp_all
qed

lemma stale_settlements_witness:
  "\<exists>d. repo_SettlementMarketPayOrder refRepository (ex_env 1) (ex_settle ''bob'' 0) ex_db3 = (Inr None, d) \<and>
     (\<exists>g' \<in> set (db_orders d). o_Status g' = 0 \<and> o_CompleteCount g' = o_TargetCount g')"
proof -
  obtain d where ran:
    "repo_SettlementMarketPayOrder refRepository (ex_env 1) (ex_settle ''bob'' 0) ex_db3 = (Inr None, d)"
    by (simp add: trade_eval ex_defs)
  have inv: "teams_ok refMySQL ex_db2"
    by (simp add: teams_ok_def team_ok_def open_count_def paid_count_def ex_defs)
  have "pay_in_team refMySQL ex_db2 ''ann'' ''ann-1'' ''11111111''"
    by (simp add: pay_in_team_def ex_defs)
  with stale_settlements_miss_completion [OF _ _ _ _ _ _ _ _ _ _ ex_settle_ann ran, of "ex_team 2 0 0"]
    mysql_ok_ref inv ran
  show ?thesis by (simp add: ex_settle_def ex_db2_def) (auto simp: ex_team_def)
qed


text \<open>
  C36. In a market that started empty every order and every team has a status of its enumeration,
  and whatever transactions follow within their guards, the row stays with its identity. An order
  goes from unpaid to paid and to closed, or from unpaid to closed, and never back. A team that has
  left "in progress" never returns to it, and one marked as failed never becomes complete; which of
  the two marks of failure it carries may still change.
\<close>

theorem statuses_keep_their_types:
  assumes M: "mysql_ok (rp_db r)" and start: "db_orders d0 = []" "db_lists d0 = []"
    and run: "(trade_step r)\<^sup>*\<^sup>* d0 d" and later: "(trade_step r)\<^sup>*\<^sup>* d d'"
  shows "(\<forall>g \<in> set (db_orders d). team_typed g \<and> (\<exists>g' \<in> set (db_orders d'). team_adv g g')) \<and>
    (\<forall>l \<in> set (db_lists d). order_typed l \<and> (\<exists>l' \<in> set (db_lists d'). order_adv l l'))"
proof -
  have inv0: "teams_ok (rp_db r) d0" using start by (simp add: teams_ok_def)
  have inv: "teams_ok (rp_db r) d" by (rule trade_steps_teams_ok [OF run inv0 M])
  note before = trade_steps_adv [OF run inv0 M, unfolded start]
  note after = trade_steps_adv [OF later inv M]
  show ?thesis
  proof (intro conjI ballI)
    fix g assume "g \<in> set (db_orders d)"
    then show "team_typed g" "\<exists>g' \<in> set (db_orders d'). team_adv g g'"
      using rows_adv_new [OF before(2)] rows_adv_row [OF after(2)] by blast+
  next
    fix l assume "l \<in> set (db_lists d)"
    then show "order_typed l" "\<exists>l' \<in> set (db_lists d'). order_adv l l'"
      using rows_adv_new [OF before(1)] rows_adv_row [OF after(1)] by blast+
  qed
qed

lemma statuses_witness:
  "team_typed (ex_team 2 1 0) \<and> list_all order_typed (db_lists ex_db3)"
  using statuses_keep_their_types [of refRepository ex_db ex_db3 ex_db3] mysql_ok_ref ex_reach
  by (simp add: ex_db_def ex_db3_def)

end
