(* ===== verification/Trade_Task.thy ===== *)
theory Trade_Task
  imports Trade_Repository
begin

text \<open>
  The notify tasks: their state machine
  (\<open>internal/domain/trade/model/valobj/notify_task_status.go\<close>) and the service that delivers them
  (\<open>internal/domain/trade/service/task/trade_task_service.go\<close>), over any repository and any
  notification port.
\<close>

section \<open>The state machine\<close>

definition NotifyTaskInit :: NotifyTaskStatus where [simp]: "NotifyTaskInit = 0"
definition NotifyTaskSuccess :: NotifyTaskStatus where [simp]: "NotifyTaskSuccess = 1"
definition NotifyTaskRetry :: NotifyTaskStatus where [simp]: "NotifyTaskRetry = 2"
definition NotifyTaskError :: NotifyTaskStatus where [simp]: "NotifyTaskError = 3"

definition notifyTransitions :: "NotifyTaskStatus \<Rightarrow> NotifyTaskStatus list" where
  "notifyTransitions s =
     (if s = NotifyTaskInit then [NotifyTaskSuccess, NotifyTaskRetry, NotifyTaskError]
      else if s = NotifyTaskRetry then [NotifyTaskSuccess, NotifyTaskError]
      else [])"

definition CanTransition :: "NotifyTaskStatus \<Rightarrow> NotifyTaskStatus \<Rightarrow> bool" where
  "CanTransition s to \<longleftrightarrow> list_ex (\<lambda>x. x = to) (notifyTransitions s)"

text \<open>The message is \<open>fmt.Errorf\<close> of the two numbers; its text is Chinese, given by its bytes.\<close>

definition MoveTo :: "NotifyTaskStatus \<Rightarrow> NotifyTaskStatus \<Rightarrow> NotifyTaskStatus res" where
  "MoveTo s to =
     (if \<not> CanTransition s to then
        Inl (OtherError ([CHR 0xE9, CHR 0x9D, CHR 0x9E, CHR 0xE6, CHR 0xB3, CHR 0x95, CHR 0xE7,
          CHR 0x9A, CHR 0x84, CHR 0xE5, CHR 0x9B, CHR 0x9E, CHR 0xE8, CHR 0xB0, CHR 0x83, CHR 0xE4,
          CHR 0xBB, CHR 0xBB, CHR 0xE5, CHR 0x8A, CHR 0xA1, CHR 0xE7, CHR 0x8A, CHR 0xB6, CHR 0xE6,
          CHR 0x80, CHR 0x81, CHR 0xE8, CHR 0xBF, CHR 0x81, CHR 0xE7, CHR 0xA7, CHR 0xBB] @
          '': '' @ showInt s @ '' -> '' @ showInt to))
      else Inr to)"

definition IsTerminal :: "NotifyTaskStatus \<Rightarrow> bool" where
  "IsTerminal s \<longleftrightarrow> s = NotifyTaskSuccess \<or> s = NotifyTaskError"

definition move_ok :: "NotifyTaskStatus res \<Rightarrow> bool" where
  "move_ok r \<longleftrightarrow> (case r of Inr _ \<Rightarrow> True | Inl _ \<Rightarrow> False)"

lemma move_ok_MoveTo [simp]: "move_ok (MoveTo s to) = CanTransition s to"
  by (simp add: move_ok_def MoveTo_def)

lemma CanTransition_simps [simp]:
  "CanTransition 0 to \<longleftrightarrow> to = 1 \<or> to = 2 \<or> to = 3"
  "CanTransition 2 to \<longleftrightarrow> to = 1 \<or> to = 3"
  "\<not> CanTransition 1 to" "\<not> CanTransition 3 to"
  by (auto simp: CanTransition_def notifyTransitions_def)

lemma terminal_is_final: "IsTerminal s \<Longrightarrow> \<not> CanTransition s to"
  by (auto simp: IsTerminal_def)

section \<open>The service\<close>

record task_counts =
  tc_success :: int
  tc_error :: int
  tc_retry :: int

text \<open>\<open>if n, _ := update(t); n == 1 { c++ }\<close>: the error is discarded, with no row counted.\<close>

definition count_if_one :: "('w, int) go \<Rightarrow> (task_counts \<Rightarrow> task_counts) \<Rightarrow> task_counts \<Rightarrow> ('w, task_counts) go" where
  "count_if_one upd inc c w =
     (case upd w of
        (Inl (Panic p), w') \<Rightarrow> (Inl (Panic p), w')
      | (Inl _, w') \<Rightarrow> (Inr c, w')
      | (Inr n, w') \<Rightarrow> (Inr (if n = 1 then inc c else c), w'))"

definition move_task ::
    "NotifyTaskEntity \<Rightarrow> NotifyTaskStatus \<Rightarrow> ('w, int) go \<Rightarrow> (task_counts \<Rightarrow> task_counts) \<Rightarrow>
     task_counts \<Rightarrow> ('w, task_counts) go" where
  "move_task t to upd inc c =
     (if move_ok (MoveTo (nt_Status t) to) then count_if_one upd inc c else go_ret c)"

definition exec_answer ::
    "'w ITradeRepository \<Rightarrow> NotifyTaskEntity \<Rightarrow> string \<Rightarrow> task_counts \<Rightarrow> ('w, task_counts) go" where
  "exec_answer repo t resp c =
     (if resp = NotifyTaskHTTPSuccess then
        move_task t NotifyTaskSuccess (UpdateNotifyTaskStatusSuccess repo t)
          (\<lambda>c. c\<lparr>tc_success := tc_success c + 1\<rparr>) c
      else if resp = NotifyTaskHTTPError then
        if nt_NotifyCount t > 4 then
          move_task t NotifyTaskError (UpdateNotifyTaskStatusError repo t)
            (\<lambda>c. c\<lparr>tc_error := tc_error c + 1\<rparr>) c
        else
          move_task t NotifyTaskRetry (UpdateNotifyTaskStatusRetry repo t)
            (\<lambda>c. c\<lparr>tc_retry := tc_retry c + 1\<rparr>) c
      else if resp = NotifyTaskHTTPNull then go_ret c
      else
        move_task t NotifyTaskRetry (UpdateNotifyTaskStatusRetry repo t)
          (\<lambda>c. c\<lparr>tc_retry := tc_retry c + 1\<rparr>) c)"

definition exec_task ::
    "'w ITradeRepository \<Rightarrow> 'w ITradePort \<Rightarrow> NotifyTaskEntity \<Rightarrow> task_counts \<Rightarrow> ('w, task_counts) go" where
  "exec_task repo port t c w =
     (if IsTerminal (nt_Status t) then (Inr c, w)
      else case PortGroupBuyNotify port t w of
          (Inl (Panic p), w') \<Rightarrow> (Inl (Panic p), w')
        | (Inl _, w') \<Rightarrow> exec_answer repo t NotifyTaskHTTPError c w'
        | (Inr resp, w') \<Rightarrow> exec_answer repo t resp c w')"

fun exec_tasks ::
    "'w ITradeRepository \<Rightarrow> 'w ITradePort \<Rightarrow> NotifyTaskEntity list \<Rightarrow> task_counts \<Rightarrow>
     ('w, task_counts) go" where
  "exec_tasks repo port [] c = go_ret c"
| "exec_tasks repo port (t # ts) c =
     go_bind (exec_task repo port t c) (\<lambda>c. exec_tasks repo port ts c)"

definition execList ::
    "'w ITradeRepository \<Rightarrow> 'w ITradePort \<Rightarrow> NotifyTaskEntity list \<Rightarrow> ('w, string \<rightharpoonup> int) go" where
  "execList repo port tasks =
     go_bind (exec_tasks repo port tasks \<lparr>tc_success = 0, tc_error = 0, tc_retry = 0\<rparr>)
       (\<lambda>c. go_ret [''waitCount'' \<mapsto> int (length tasks), ''successCount'' \<mapsto> tc_success c,
          ''errorCount'' \<mapsto> tc_error c, ''retryCount'' \<mapsto> tc_retry c])"

definition ExecNotifyJob ::
    "'w ITradeRepository \<Rightarrow> 'w ITradePort \<Rightarrow> NotifyTaskEntity option \<Rightarrow> ('w, string \<rightharpoonup> int) go" where
  "ExecNotifyJob repo port task =
     (case task of
        Some t \<Rightarrow> execList repo port [t]
      | None \<Rightarrow> go_bind (QueryUnExecutedNotifyTaskList repo) (\<lambda>tasks. execList repo port tasks))"

definition ExecNotifyJobByTeamID ::
    "'w ITradeRepository \<Rightarrow> 'w ITradePort \<Rightarrow> string \<Rightarrow> ('w, string \<rightharpoonup> int) go" where
  "ExecNotifyJobByTeamID repo port teamID =
     go_bind (QueryUnExecutedNotifyTaskListByTeamID repo teamID)
       (\<lambda>tasks. execList repo port tasks)"

section \<open>The tasks in the database\<close>

abbreviation task_hit :: "mysql \<Rightarrow> NotifyTaskEntity \<Rightarrow> NotifyTask \<Rightarrow> bool" where
  "task_hit M t \<equiv> \<lambda>x. sqlEq M (t_TeamID x) (nt_TeamID t) \<and> sqlEq M (t_UUID x) (nt_UUID t)"

lemma set_task_status_cases:
  assumes "set_task_status r E s t d = (q, d')" and "mysql_ok (rp_db r)"
  obtains (err) m where "q = Inl (OtherError m)" "d' = d"
  | (ran) n where "q = Inr n" "d' = d\<lparr>db_tasks := upd_where (task_hit (rp_db r) t)
      (\<lambda>x. x\<lparr>t_NotifyStatus := s, t_NotifyCount := t_NotifyCount x + 1, t_UpdateTime := ce_now E 0\<rparr>)
      (db_tasks d)\<rparr>"
  using assms(1) mysql_okD(3) [OF assms(2)] unfolding set_task_status_def
  by (rule dbUpdates_cases) (use that in blast)+

text \<open>
  A delivery that fails: \<open>fails\<close> says that the port reports an error, or answers "error", and
  changes no task.
\<close>

definition port_fails :: "world ITradePort \<Rightarrow> bool" where
  "port_fails port \<longleftrightarrow>
     (\<forall>t w. \<exists>w'. db_tasks (w_db w') = db_tasks (w_db w) \<and>
        ((\<exists>m. PortGroupBuyNotify port t w = (Inl (OtherError m), w')) \<or>
         PortGroupBuyNotify port t w = (Inr NotifyTaskHTTPError, w')))"

text \<open>A task that has not been delivered: untried, or after one failure.\<close>

definition task_pending :: "NotifyTask \<Rightarrow> bool" where
  "task_pending x \<longleftrightarrow>
     t_NotifyStatus x = NotifyTaskInit \<and> t_NotifyCount x = 0 \<or>
     t_NotifyStatus x = NotifyTaskRetry \<and> t_NotifyCount x = 1"

definition tasks_keyed :: "mysql \<Rightarrow> NotifyTask list \<Rightarrow> bool" where
  "tasks_keyed M ts \<longleftrightarrow> distinct (map (\<lambda>x. (my_ck M (t_TeamID x), my_ck M (t_UUID x))) ts)"

text \<open>What a task entity in hand says of the row it was read from.\<close>

definition read_from :: "mysql \<Rightarrow> NotifyTaskEntity \<Rightarrow> NotifyTask list \<Rightarrow> bool" where
  "read_from M t ts \<longleftrightarrow>
     (\<exists>x \<in> set ts. task_hit M t x \<and> (nt_Status t = NotifyTaskInit \<longrightarrow> t_NotifyStatus x = NotifyTaskInit)) \<and>
     (nt_Status t = NotifyTaskInit \<or> nt_Status t = NotifyTaskRetry) \<and> nt_NotifyCount t \<le> 4"

lemma count_if_one_world: "count_if_one upd inc c w = (q, w') \<Longrightarrow> \<exists>r. upd w = (r, w')"
  by (auto simp: count_if_one_def split: prod.splits sum.splits go_error.splits)

lemma exec_task_fails:
  assumes M: "mysql_ok (rp_db r)" and port: "port_fails port"
    and run: "exec_task (NewTradeRepository r E) port t c w = (q, w')"
    and t: "read_from (rp_db r) t (db_tasks (w_db w))"
  shows "db_tasks (w_db w') = db_tasks (w_db w) \<or> nt_Status t = NotifyTaskInit \<and>
      db_tasks (w_db w') = upd_where (task_hit (rp_db r) t)
        (\<lambda>x. x\<lparr>t_NotifyStatus := 2, t_NotifyCount := t_NotifyCount x + 1, t_UpdateTime := ce_now E 0\<rparr>)
        (db_tasks (w_db w))"
proof -
  have st: "nt_Status t = 0 \<or> nt_Status t = 2" "nt_NotifyCount t \<le> 4"
    using t by (auto simp: read_from_def)
  then have nt: "\<not> IsTerminal (nt_Status t)" by (auto simp: IsTerminal_def)
  from port obtain w1 where w1: "db_tasks (w_db w1) = db_tasks (w_db w)"
    and ans: "(\<exists>m. PortGroupBuyNotify port t w = (Inl (OtherError m), w1)) \<or>
         PortGroupBuyNotify port t w = (Inr NotifyTaskHTTPError, w1)"
    unfolding port_fails_def by blast
  have ea: "exec_answer (NewTradeRepository r E) t NotifyTaskHTTPError c w1 = (q, w')"
    using run ans nt by (auto simp: exec_task_def)
  have upd: "UpdateNotifyTaskStatusRetry (NewTradeRepository r E) t = on_db (set_task_status r E 2 t)"
    by (simp add: NewTradeRepository_def repo_UpdateNotifyTaskStatusRetry_def)
  show ?thesis
  proof (cases "nt_Status t = 2")
    case True
    with ea st(2) have "w' = w1" by (simp add: exec_answer_def move_task_def)
    with w1 show ?thesis by simp
  next
    case False
    with ea st have "count_if_one (on_db (set_task_status r E 2 t))
        (\<lambda>c. c\<lparr>tc_retry := tc_retry c + 1\<rparr>) c w1 = (q, w')"
      by (simp add: exec_answer_def move_task_def upd)
    from count_if_one_world [OF this] obtain s where "on_db (set_task_status r E 2 t) w1 = (s, w')"
      by blast
    from on_db_frame [OF this] obtain d where
      d: "set_task_status r E 2 t (w_db w1) = (s, d)" "w' = w1\<lparr>w_db := d\<rparr>"
      by blast
    from d(1) M show ?thesis
      by (cases rule: set_task_status_cases) (use d(2) w1 False st in auto)
  qed
qed

definition task_key :: "mysql \<Rightarrow> NotifyTaskEntity \<Rightarrow> string \<times> string" where
  "task_key M t = (my_ck M (nt_TeamID t), my_ck M (nt_UUID t))"

lemma read_from_other:
  assumes "read_from M t' ts" and "task_key M t \<noteq> task_key M t'"
  shows "read_from M t' (upd_where (task_hit M t) f ts)"
proof -
  from assms(1) obtain x where x: "x \<in> set ts" "task_hit M t' x"
    "nt_Status t' = NotifyTaskInit \<longrightarrow> t_NotifyStatus x = NotifyTaskInit"
    unfolding read_from_def by blast
  then have "\<not> task_hit M t x" using assms(2) by (auto simp: task_key_def sqlEq_def)
  with x(1) have "x \<in> set (upd_where (task_hit M t) f ts)" by (auto simp: upd_where_def)
  with x assms(1) show ?thesis unfolding read_from_def by blast
qed

definition tasks_inv :: "mysql \<Rightarrow> world \<Rightarrow> bool" where
  "tasks_inv M w \<longleftrightarrow> tasks_keyed M (db_tasks (w_db w)) \<and> (\<forall>x \<in> set (db_tasks (w_db w)). task_pending x)"

lemma exec_task_inv:
  assumes M: "mysql_ok (rp_db r)" and port: "port_fails port"
    and run: "exec_task (NewTradeRepository r E) port t c w = (q, w')"
    and t: "read_from (rp_db r) t (db_tasks (w_db w))" and inv: "tasks_inv (rp_db r) w"
  shows "tasks_inv (rp_db r) w'"
    and "read_from (rp_db r) t' (db_tasks (w_db w)) \<Longrightarrow> task_key (rp_db r) t \<noteq> task_key (rp_db r) t' \<Longrightarrow>
      read_from (rp_db r) t' (db_tasks (w_db w'))"
proof -
  let ?f = "\<lambda>x. x\<lparr>t_NotifyStatus := 2, t_NotifyCount := t_NotifyCount x + 1, t_UpdateTime := ce_now E 0\<rparr>"
  from exec_task_fails [OF M port run t] consider (same) "db_tasks (w_db w') = db_tasks (w_db w)"
    | (upd) "nt_Status t = NotifyTaskInit"
        "db_tasks (w_db w') = upd_where (task_hit (rp_db r) t) ?f (db_tasks (w_db w))"
    by blast
  then show "tasks_inv (rp_db r) w'"
  proof cases
    case upd
    from t upd(1) obtain x where x: "x \<in> set (db_tasks (w_db w))" "task_hit (rp_db r) t x"
      "t_NotifyStatus x = 0"
      unfolding read_from_def by auto
    have key: "distinct (map (\<lambda>x. (my_ck (rp_db r) (t_TeamID x), my_ck (rp_db r) (t_UUID x)))
        (db_tasks (w_db w)))"
      using inv by (simp add: tasks_inv_def tasks_keyed_def)
    have "task_pending y" if y: "y \<in> set (db_tasks (w_db w'))" for y
    proof -
      from y upd(2) have "y \<in> set (upd_where (task_hit (rp_db r) t) ?f (db_tasks (w_db w)))" by simp
      then show ?thesis
      proof (cases rule: set_upd_whereE)
        case 1: (hit z)
        have "z = x" by (rule filter_key_unique [OF key 1(1) x(1)]) (use 1(2) x(2) in \<open>simp add: sqlEq_def\<close>)
        moreover have "task_pending x" using inv x(1) by (simp add: tasks_inv_def)
        ultimately show ?thesis using 1(3) x(3) by (auto simp: task_pending_def)
      next
        case miss
        then show ?thesis using inv by (simp add: tasks_inv_def)
      qed
    qed
    then show ?thesis using inv upd(2) by (simp add: tasks_inv_def tasks_keyed_def)
  qed (use inv in \<open>simp add: tasks_inv_def\<close>)
  show "read_from (rp_db r) t' (db_tasks (w_db w'))"
    if "read_from (rp_db r) t' (db_tasks (w_db w))" "task_key (rp_db r) t \<noteq> task_key (rp_db r) t'"
    using exec_task_fails [OF M port run t] that(1) read_from_other [OF that] by (elim disjE conjE) simp_all
qed

lemma exec_tasks_inv:
  assumes "mysql_ok (rp_db r)" and "port_fails port"
    and "exec_tasks (NewTradeRepository r E) port ts c w = (q, w')"
    and "\<forall>t \<in> set ts. read_from (rp_db r) t (db_tasks (w_db w))" and "tasks_inv (rp_db r) w"
    and "distinct (map (task_key (rp_db r)) ts)"
  shows "tasks_inv (rp_db r) w'"
  using assms(3-6)
proof (induction ts arbitrary: c w)
  case (Cons t ts)
  from Cons.prems(1) have "go_bind (exec_task (NewTradeRepository r E) port t c)
      (\<lambda>c. exec_tasks (NewTradeRepository r E) port ts c) w = (q, w')"
    by simp
  then show ?case
  proof (cases rule: go_bind_cases)
    case (fails e)
    then show ?thesis using exec_task_inv(1) [OF assms(1,2) fails(1)] Cons.prems(2,3) by simp
  next
    case (goes_on c1 w1)
    note step = exec_task_inv [OF assms(1,2) goes_on(1)]
    have t: "read_from (rp_db r) t (db_tasks (w_db w))" using Cons.prems(2) by simp
    have "\<forall>t' \<in> set ts. read_from (rp_db r) t' (db_tasks (w_db w1))"
      using step(2) [OF t Cons.prems(3)] Cons.prems(2,4) by (auto simp: image_iff)
    with Cons.IH [OF goes_on(2)] step(1) [OF t Cons.prems(3)] Cons.prems(4) show ?thesis by simp
  qed
qed simp

lemma query_read_from:
  assumes M: "mysql_ok (rp_db r)" and inv: "tasks_inv (rp_db r) w"
    and q: "QueryUnExecutedNotifyTaskList (NewTradeRepository r E) w = (Inr ts, w')"
  shows "w' = w \<and> (\<forall>t \<in> set ts. read_from (rp_db r) t (db_tasks (w_db w))) \<and>
    distinct (map (task_key (rp_db r)) ts)"
proof -
  from q obtain rows d where
    find: "dbFind db_tasks (my_tasks (rp_db r)) (\<lambda>t. t_NotifyStatus t = 0 \<or> t_NotifyStatus t = 2)
      IdAsc (Some 50) (w_db w) = (Inr rows, d)"
    and ts: "ts = map toNotifyEntity rows" "w' = w\<lparr>w_db := d\<rparr>"
    by (auto simp: NewTradeRepository_def on_db_def repo_QueryUnExecutedNotifyTaskList_def
        split: prod.splits elim!: go_bind_Inr_cases)
  have d: "d = w_db w \<and> rows = take 50 (filter (\<lambda>t. t_NotifyStatus t = 0 \<or> t_NotifyStatus t = 2)
      (db_tasks (w_db w)))"
    using find mysql_okD(3) [OF M] by (rule dbFind_cases) (simp_all add: find_ok_def)
  have "read_from (rp_db r) (toNotifyEntity x) (db_tasks (w_db w))" if "x \<in> set rows" for x
  proof -
    from that d have "x \<in> set (db_tasks (w_db w))" "t_NotifyStatus x = 0 \<or> t_NotifyStatus x = 2"
      by (auto dest: in_set_takeD)
    moreover from this(1) inv have "t_NotifyCount x \<le> 4" by (auto simp: tasks_inv_def task_pending_def)
    ultimately show ?thesis by (auto simp: read_from_def toNotifyEntity_def intro!: bexI [of _ x])
  qed
  moreover have "distinct (map (\<lambda>x. (my_ck (rp_db r) (t_TeamID x), my_ck (rp_db r) (t_UUID x))) rows)"
    using inv d by (simp add: tasks_inv_def tasks_keyed_def distinct_map_filter take_map [symmetric])
  then have "distinct (map (task_key (rp_db r)) ts)"
    by (simp add: ts task_key_def toNotifyEntity_def comp_def)
  ultimately show ?thesis using d ts by simp
qed

text \<open>Rounds of the notify job, each with its own clock.\<close>

fun job_rounds :: "TradeRepository \<Rightarrow> world ITradePort \<Rightarrow> call_env list \<Rightarrow> world \<Rightarrow> world" where
  "job_rounds r port [] w = w"
| "job_rounds r port (E # Es) w =
     job_rounds r port Es (snd (ExecNotifyJob (NewTradeRepository r E) port None w))"

lemma job_round_inv:
  assumes "mysql_ok (rp_db r)" and "port_fails port" and "tasks_inv (rp_db r) w"
  shows "tasks_inv (rp_db r) (snd (ExecNotifyJob (NewTradeRepository r E) port None w))"
proof -
  obtain q w' where run: "go_bind (QueryUnExecutedNotifyTaskList (NewTradeRepository r E))
      (\<lambda>ts. execList (NewTradeRepository r E) port ts) w = (q, w')"
    by force
  then have "tasks_inv (rp_db r) w'"
  proof (cases rule: go_bind_cases)
    case (fails e)
    then have "w_db w' = w_db w"
      using mysql_okD(3) [OF assms(1)]
      by (auto simp: NewTradeRepository_def on_db_def repo_QueryUnExecutedNotifyTaskList_def dbFind_def
          go_bind_def split: prod.splits sum.splits)
    with assms(3) show ?thesis by (simp add: tasks_inv_def)
  next
    case (goes_on ts w1)
    note read = query_read_from [OF assms(1,3) goes_on(1)]
    from goes_on(2) obtain q' where
      "exec_tasks (NewTradeRepository r E) port ts \<lparr>tc_success = 0, tc_error = 0, tc_retry = 0\<rparr> w1 = (q', w')"
      unfolding execList_def by (auto elim: go_bind_cases)
    from exec_tasks_inv [OF assms(1,2) this] read assms(3) show ?thesis by simp
  qed
  with run show ?thesis by (simp add: ExecNotifyJob_def)
qed

section \<open>Properties\<close>

text \<open>
  C8. While deliveries fail, a notify task gets stuck: however many rounds of the job run, every
  task stays untried with count 0 or in the retry state with count 1, since the table of the
  state machine has no move from retry to retry. The count never passes 4 and no task ever
  reaches the error state.
\<close>

theorem failing_task_never_gives_up:
  assumes "mysql_ok (rp_db r)" and "port_fails port"
    and "tasks_keyed (rp_db r) (db_tasks (w_db w))"
    and "\<forall>x \<in> set (db_tasks (w_db w)). t_NotifyStatus x = NotifyTaskInit \<and> t_NotifyCount x = 0"
  shows "\<forall>x \<in> set (db_tasks (w_db (job_rounds r port Es w))).
    t_NotifyCount x \<le> 1 \<and> t_NotifyStatus x \<noteq> NotifyTaskError"
proof -
  have "tasks_inv (rp_db r) w" using assms(3,4) by (simp add: tasks_inv_def task_pending_def)
  then have "tasks_inv (rp_db r) (job_rounds r port Es w)"
    by (induction Es arbitrary: w) (simp_all add: job_round_inv [OF assms(1,2)])
  then show ?thesis by (auto simp: tasks_inv_def task_pending_def)
qed

definition ex_task :: NotifyTask where
  "ex_task =
     \<lparr>t_ID = 1, t_ActivityID = 100123, t_TeamID = ''11111111'', t_NotifyCategory = Some TaskTradeSettlement,
      t_NotifyType = NotifyMQ, t_NotifyMQ = Some TopicTeamSuccess, t_NotifyURL = None, t_NotifyCount = 0,
      t_NotifyStatus = 0, t_ParameterJSON = JNull, t_UUID = ''11111111_trade_settlement_1'',
      t_CreateTime = 0, t_UpdateTime = 0\<rparr>"

definition ex_task_world :: world where
  "ex_task_world =
     \<lparr>w_db = \<lparr>db_activities = [], db_discounts = [], db_skus = [], db_scskus = [], db_orders = [],
        db_lists = [], db_tasks = [ex_task], db_ctags = [], db_cdetails = [], db_cjobs = []\<rparr>,
      w_redis = Map.empty, w_dcc = dcc_New ''0'' ''100'' '''' ''0'', w_mq = [], w_async = [], w_http = []\<rparr>"

definition answer_port :: "string \<Rightarrow> world ITradePort" where
  "answer_port resp = \<lparr>PortGroupBuyNotify = (\<lambda>t w. (Inr resp, w))\<rparr>"

lemma failing_task_witness:
  "list_all (\<lambda>x. t_NotifyStatus x \<noteq> 3) (db_tasks (w_db (job_rounds refRepository
     (answer_port NotifyTaskHTTPError) (replicate 9 \<lparr>ce_now = (\<lambda>_. 0), ce_rand = (\<lambda>_. 0)\<rparr>) ex_task_world)))"
  using failing_task_never_gives_up [of refRepository "answer_port NotifyTaskHTTPError" ex_task_world
      "replicate 9 \<lparr>ce_now = (\<lambda>_. 0), ce_rand = (\<lambda>_. 0)\<rparr>"] mysql_ok_ref
  by (simp add: list_all_iff port_fails_def answer_port_def ex_task_world_def ex_task_def tasks_keyed_def)

text \<open>What one delivery does to the rows, whatever the port answers.\<close>

abbreviation task_moved :: "TradeRepository \<Rightarrow> call_env \<Rightarrow> NotifyTaskEntity \<Rightarrow> int \<Rightarrow> db \<Rightarrow> db" where
  "task_moved r E t s d \<equiv> d\<lparr>db_tasks := upd_where (task_hit (rp_db r) t)
     (\<lambda>x. x\<lparr>t_NotifyStatus := s, t_NotifyCount := t_NotifyCount x + 1, t_UpdateTime := ce_now E 0\<rparr>)
     (db_tasks d)\<rparr>"

lemma move_task_rows:
  assumes M: "mysql_ok (rp_db r)"
    and run: "move_task t s (on_db (set_task_status r E s t)) inc c w = (q, w')"
  shows "w' = w \<or> CanTransition (nt_Status t) s \<and> w' = w\<lparr>w_db := task_moved r E t s (w_db w)\<rparr>"
proof (cases "CanTransition (nt_Status t) s")
  case True
  with run have "count_if_one (on_db (set_task_status r E s t)) inc c w = (q, w')"
    by (simp add: move_task_def)
  from count_if_one_world [OF this] obtain n where "on_db (set_task_status r E s t) w = (n, w')"
    by blast
  from on_db_frame [OF this] obtain d where
    d: "set_task_status r E s t (w_db w) = (n, d)" "w' = w\<lparr>w_db := d\<rparr>"
    by blast
  from d(1) M show ?thesis by (cases rule: set_task_status_cases) (use d(2) True in auto)
qed (use run in \<open>simp add: move_task_def\<close>)

lemma exec_answer_rows:
  assumes M: "mysql_ok (rp_db r)" and run: "exec_answer (NewTradeRepository r E) t resp c w = (q, w')"
  obtains (same) "w' = w"
  | (moved) s where "CanTransition (nt_Status t) s" "s = NotifyTaskSuccess \<longleftrightarrow> resp = NotifyTaskHTTPSuccess"
      "w' = w\<lparr>w_db := task_moved r E t s (w_db w)\<rparr>"
proof -
  from run consider "w' = w"
    | s inc where "move_task t s (on_db (set_task_status r E s t)) inc c w = (q, w')"
        "s = NotifyTaskSuccess \<longleftrightarrow> resp = NotifyTaskHTTPSuccess"
    by (auto simp: exec_answer_def NewTradeRepository_def repo_UpdateNotifyTaskStatusSuccess_def
        repo_UpdateNotifyTaskStatusError_def repo_UpdateNotifyTaskStatusRetry_def split: if_splits)
  then show ?thesis using move_task_rows [OF M] same moved by cases blast+
qed

lemma exec_task_rows:
  assumes M: "mysql_ok (rp_db r)"
    and port: "\<And>t w. db_tasks (w_db (snd (PortGroupBuyNotify port t w))) = db_tasks (w_db w)"
    and run: "exec_task (NewTradeRepository r E) port t c w = (q, w')"
  obtains (same) "db_tasks (w_db w') = db_tasks (w_db w)"
  | (moved) s where "CanTransition (nt_Status t) s"
      "db_tasks (w_db w') = db_tasks (task_moved r E t s (w_db w))"
proof -
  obtain a w1 where a: "PortGroupBuyNotify port t w = (a, w1)" by force
  with port [of t w] have w1: "db_tasks (w_db w1) = db_tasks (w_db w)" by simp
  show ?thesis
  proof (cases "IsTerminal (nt_Status t)")
    case True
    with run same show ?thesis by (simp add: exec_task_def)
  next
    case False
    with run a consider "w' = w1" | resp where "exec_answer (NewTradeRepository r E) t resp c w1 = (q, w')"
      by (auto simp: exec_task_def split: sum.splits go_error.splits)
    then show ?thesis
    proof cases
      case (2 resp)
      with M show ?thesis by (cases rule: exec_answer_rows) (use same moved w1 in auto)
    qed (use w1 same in simp)
  qed
qed

text \<open>
  C9. One delivery of a task just read moves its row along the table of the state machine, or not
  at all, and counts at most one attempt; every other row keeps its status and count.
\<close>

theorem delivery_follows_state_machine:
  assumes M: "mysql_ok (rp_db r)" and key: "tasks_keyed (rp_db r) (db_tasks (w_db w))"
    and x: "x \<in> set (db_tasks (w_db w))"
    and port: "\<And>t w. db_tasks (w_db (snd (PortGroupBuyNotify port t w))) = db_tasks (w_db w)"
    and run: "exec_task (NewTradeRepository r E) port (toNotifyEntity x) c w = (q, w')"
  shows "list_all2 (\<lambda>y y'. t_NotifyStatus y' = t_NotifyStatus y \<and> t_NotifyCount y' = t_NotifyCount y \<or>
      y = x \<and> CanTransition (t_NotifyStatus y) (t_NotifyStatus y') \<and> t_NotifyCount y' = t_NotifyCount y + 1)
    (db_tasks (w_db w)) (db_tasks (w_db w'))"
  using M port run
proof (cases rule: exec_task_rows)
  case same
  then show ?thesis by (simp add: list_all2_same)
next
  case (moved s)
  have one: "y = x" if "y \<in> set (db_tasks (w_db w))" "task_hit (rp_db r) (toNotifyEntity x) y" for y
    using filter_key_unique [OF key [unfolded tasks_keyed_def] that(1) x] that(2)
    by (simp add: toNotifyEntity_def sqlEq_def)
  show ?thesis
    using moved(2) by (simp add: upd_where_def list_all2_map2)
      (rule list_all2_same [THEN iffD2], use one moved(1) in \<open>auto simp: toNotifyEntity_def\<close>)
qed

lemma delivery_witness:
  "list_all2 (\<lambda>y y'. t_NotifyStatus y' = t_NotifyStatus y \<or> CanTransition (t_NotifyStatus y) (t_NotifyStatus y'))
    [ex_task] (db_tasks (w_db (snd (exec_task
      (NewTradeRepository refRepository \<lparr>ce_now = (\<lambda>_. 0), ce_rand = (\<lambda>_. 0)\<rparr>)
      (answer_port NotifyTaskHTTPSuccess) (toNotifyEntity ex_task)
      \<lparr>tc_success = 0, tc_error = 0, tc_retry = 0\<rparr> ex_task_world))))"
proof -
  obtain q w' where run: "exec_task
      (NewTradeRepository refRepository \<lparr>ce_now = (\<lambda>_. 0), ce_rand = (\<lambda>_. 0)\<rparr>)
      (answer_port NotifyTaskHTTPSuccess) (toNotifyEntity ex_task)
      \<lparr>tc_success = 0, tc_error = 0, tc_retry = 0\<rparr> ex_task_world = (q, w')"
    by force
  have "tasks_keyed (rp_db refRepository) (db_tasks (w_db ex_task_world))"
    "ex_task \<in> set (db_tasks (w_db ex_task_world))"
    by (simp_all add: tasks_keyed_def ex_task_world_def)
  from delivery_follows_state_machine [OF _ this _ run] mysql_ok_ref
  have "list_all2 (\<lambda>y y'. t_NotifyStatus y' = t_NotifyStatus y \<and> t_NotifyCount y' = t_NotifyCount y \<or>
      y = ex_task \<and> CanTransition (t_NotifyStatus y) (t_NotifyStatus y') \<and>
      t_NotifyCount y' = t_NotifyCount y + 1) [ex_task] (db_tasks (w_db w'))"
    by (simp add: answer_port_def ex_task_world_def)
  then show ?thesis unfolding run by (auto elim: list_all2_mono)
qed

end
