(* ===== verification/Settlement_Service.thy ===== *)
theory Settlement_Service
  imports Lock_Service Order_Lifecycle Trade_Task
begin

text \<open>
  Settling a paid order: the chain of rules (\<open>internal/domain/trade/service/settlement/filter\<close>) and
  the service (\<open>internal/domain/trade/service/settlement/trade_settlement_order_service.go\<close>), over any
  trade repository. \<open>spawn\<close> hands a notify task to a background goroutine (\<open>safego.Go\<close>), and is
  \<open>None\<close> when the service has no task service; \<open>run_async\<close> is such a goroutine. Logging is left
  out.
\<close>

section \<open>The rules\<close>

record SettleCtx =
  sx_MarketPayOrder :: "MarketPayOrderEntity option"
  sx_GroupBuyTeam :: "GroupBuyTeamEntity option"

type_synonym SettleReq = TradeSettlementRuleCommandEntity
type_synonym SettleRes = "TradeSettlementRuleFilterBackEntity option"

definition nil_deref :: go_error where "nil_deref = Panic ''nil pointer dereference''"

definition SCRuleFilter_Apply ::
    "'w ITradeRepository \<Rightarrow> (SettleReq, SettleCtx, 'w, SettleRes) handler" where
  "SCRuleFilter_Apply repo Next req dc =
     go_bind (RepoIsSCBlackIntercept repo (sc_Source req) (sc_Channel req))
       (\<lambda>hit. if hit then go_err (NewAppException E0105) else Next req dc)"

definition OutTradeNoRuleFilter_Apply ::
    "'w ITradeRepository \<Rightarrow> (SettleReq, SettleCtx, 'w, SettleRes) handler" where
  "OutTradeNoRuleFilter_Apply repo Next req dc =
     go_bind (QueryMarketPayOrderEntityByOutTradeNo repo (sc_UserID req) (sc_OutTradeNo req))
       (\<lambda>order. case order of
          None \<Rightarrow> go_err (NewAppException E0104)
        | Some order \<Rightarrow>
            if mo_TradeOrderStatus order = TradeOrderClose then go_err (NewAppException E0104)
            else Next req (dc\<lparr>sx_MarketPayOrder := Some order\<rparr>))"

definition SettableRuleFilter_Apply ::
    "'w ITradeRepository \<Rightarrow> (SettleReq, SettleCtx, 'w, SettleRes) handler" where
  "SettableRuleFilter_Apply repo Next req dc =
     (case sx_MarketPayOrder dc of
        None \<Rightarrow> go_err nil_deref
      | Some order \<Rightarrow>
          go_bind (QueryGroupBuyTeamByTeamID repo (mo_TeamID order))
            (\<lambda>team. case team of
               None \<Rightarrow> go_err nil_deref
             | Some t \<Rightarrow>
                 if \<not> sc_OutTradeTime req < gt_ValidEndTime t then go_err (NewAppException E0106)
                 else Next req (dc\<lparr>sx_GroupBuyTeam := Some t\<rparr>)))"

definition EndRuleFilter_Apply :: "(SettleReq, SettleCtx, 'w, SettleRes) handler" where
  "EndRuleFilter_Apply Next req dc =
     (case sx_GroupBuyTeam dc of
        None \<Rightarrow> go_err nil_deref
      | Some t \<Rightarrow> go_ret (Some
          \<lparr>sb_TeamID = gt_TeamID t,
           sb_ActivityID = gt_ActivityID t,
           sb_TargetCount = gt_TargetCount t,
           sb_CompleteCount = gt_CompleteCount t,
           sb_LockCount = gt_LockCount t,
           sb_Status = gt_Status t,
           sb_ValidStartTime = gt_ValidStartTime t,
           sb_ValidEndTime = gt_ValidEndTime t,
           sb_NotifyConfig = gt_NotifyConfig t\<rparr>))"

definition NewTradeSettlementRuleFilter ::
    "'w ITradeRepository \<Rightarrow> (SettleReq, SettleCtx, 'w, SettleRes) applier" where
  "NewTradeSettlementRuleFilter repo =
     chain_of
      (      [CHR 0xE4, CHR 0xBA, CHR 0xA4, CHR 0xE6, CHR 0x98, CHR 0x93, CHR 0xE7, CHR 0xBB, CHR
      0x93, CHR 0xE7, CHR 0xAE, CHR 0x97, CHR 0xE8, CHR 0xA7, CHR 0x84, CHR 0xE5, CHR 0x88, CHR
      0x99, CHR 0xE8, CHR 0xBF, CHR 0x87, CHR 0xE6, CHR 0xBB, CHR 0xA4, CHR 0xE9, CHR 0x93, CHR
      0xBE])
      None
      [SCRuleFilter_Apply repo, OutTradeNoRuleFilter_Apply repo, SettableRuleFilter_Apply repo,
       EndRuleFilter_Apply]"

section \<open>The service\<close>

definition empty_settle_ctx :: SettleCtx where
  "empty_settle_ctx = \<lparr>sx_MarketPayOrder = None, sx_GroupBuyTeam = None\<rparr>"

definition spawn_notify ::
    "(NotifyTaskEntity \<Rightarrow> ('w, unit) go) option \<Rightarrow> NotifyTaskEntity option \<Rightarrow> ('w, unit) go" where
  "spawn_notify spawn notifyTask =
     (case (notifyTask, spawn) of (Some t, Some go) \<Rightarrow> go t | _ \<Rightarrow> go_ret ())"

definition settle_SettlementMarketPayOrder ::
    "'w ITradeRepository \<Rightarrow> (NotifyTaskEntity \<Rightarrow> ('w, unit) go) option \<Rightarrow> TradePaySuccessEntity \<Rightarrow>
     ('w, TradePaySettlementEntity) go" where
  "settle_SettlementMarketPayOrder repo spawn pay =
     go_bind
       (NewTradeSettlementRuleFilter repo
          \<lparr>sc_Source = ps_Source pay, sc_Channel = ps_Channel pay, sc_UserID = ps_UserID pay,
           sc_OutTradeNo = ps_OutTradeNo pay, sc_OutTradeTime = ps_OutTradeTime pay\<rparr> empty_settle_ctx)
       (\<lambda>back. case back of
          None \<Rightarrow> go_err nil_deref
        | Some b \<Rightarrow>
            let team = \<lparr>gt_TeamID = sb_TeamID b, gt_ActivityID = sb_ActivityID b,
                  gt_TargetCount = sb_TargetCount b, gt_CompleteCount = sb_CompleteCount b,
                  gt_LockCount = sb_LockCount b, gt_Status = sb_Status b,
                  gt_ValidStartTime = sb_ValidStartTime b, gt_ValidEndTime = sb_ValidEndTime b,
                  gt_NotifyConfig = sb_NotifyConfig b\<rparr>;
                agg = \<lparr>ags_UserEntity = \<lparr>ue_UserID = ps_UserID pay\<rparr>, ags_GroupBuyTeamEntity = team,
                  ags_TradePaySuccessEntity = pay\<rparr>
            in go_bind (SettlementMarketPayOrder repo agg)
                 (\<lambda>notifyTask. go_bind (spawn_notify spawn notifyTask)
                    (\<lambda>_. go_ret
                       \<lparr>pst_Source = ps_Source pay, pst_Channel = ps_Channel pay,
                        pst_UserID = ps_UserID pay, pst_TeamID = sb_TeamID b,
                        pst_ActivityID = gt_ActivityID team, pst_OutTradeNo = ps_OutTradeNo pay\<rparr>)))"

section \<open>Background goroutines\<close>

text \<open>\<open>safego.Go\<close>: the task is handed over and runs later; \<open>safego.Recover\<close> stops its panic.\<close>

definition safego_Go :: "NotifyTaskEntity \<Rightarrow> (world, unit) go" where
  "safego_Go t w = (Inr (), w\<lparr>w_async := w_async w @ [t]\<rparr>)"

definition safego_Recover :: "('w, 'a) go \<Rightarrow> 'w \<Rightarrow> 'w" where
  "safego_Recover fn w = snd (fn w)"

definition run_async :: "world ITradeRepository \<Rightarrow> world ITradePort \<Rightarrow> world \<Rightarrow> world" where
  "run_async repo port w =
     (case w_async w of
        [] \<Rightarrow> w
      | t # ts \<Rightarrow> safego_Recover (ExecNotifyJob repo port (Some t)) (w\<lparr>w_async := ts\<rparr>))"

section \<open>What a settlement has passed\<close>

context trade_queries
begin

lemma blacklist_cases:
  assumes "SCRuleFilter_Apply repo Next req dc w = (q, w')"
  obtains (refused) e where "q = Inl e" "w' = w"
  | (passed) "RepoIsSCBlackIntercept repo (sc_Source req) (sc_Channel req) w = (Inr False, w)"
      "Next req dc w = (q, w')"
  using assms blacklist_reads unfolding SCRuleFilter_Apply_def
proof (cases rule: go_read_cases)
  case (goes_on hit)
  with that show ?thesis by (cases hit) auto
qed (rule that(1))

lemma out_trade_no_cases:
  assumes "OutTradeNoRuleFilter_Apply repo Next req dc w = (q, w')"
  obtains (refused) e where "q = Inl e" "w' = w"
  | (passed) order where
      "QueryMarketPayOrderEntityByOutTradeNo repo (sc_UserID req) (sc_OutTradeNo req) w
        = (Inr (Some order), w)"
      "mo_TradeOrderStatus order \<noteq> TradeOrderClose"
      "Next req (dc\<lparr>sx_MarketPayOrder := Some order\<rparr>) w = (q, w')"
  using assms order_reads unfolding OutTradeNoRuleFilter_Apply_def
proof (cases rule: go_read_cases)
  case (goes_on x)
  with that show ?thesis by (cases x) (auto split: if_splits)
qed (rule that(1))

lemma settable_cases:
  assumes "SettableRuleFilter_Apply repo Next req (dc\<lparr>sx_MarketPayOrder := Some order\<rparr>) w = (q, w')"
  obtains (refused) e where "q = Inl e" "w' = w"
  | (passed) t where
      "QueryGroupBuyTeamByTeamID repo (mo_TeamID order) w = (Inr (Some t), w)"
      "sc_OutTradeTime req < gt_ValidEndTime t"
      "Next req (dc\<lparr>sx_MarketPayOrder := Some order, sx_GroupBuyTeam := Some t\<rparr>) w = (q, w')"
proof -
  from assms have "go_bind (QueryGroupBuyTeamByTeamID repo (mo_TeamID order))
      (\<lambda>x. case x of None \<Rightarrow> go_err nil_deref
         | Some t \<Rightarrow> if \<not> sc_OutTradeTime req < gt_ValidEndTime t then go_err (NewAppException E0106)
             else Next req (dc\<lparr>sx_MarketPayOrder := Some order, sx_GroupBuyTeam := Some t\<rparr>)) w = (q, w')"
    by (simp add: SettableRuleFilter_Apply_def cong: option.case_cong)
  then show ?thesis using team_reads
  proof (cases rule: go_read_cases)
    case (goes_on x)
    with that show ?thesis by (cases x) (auto split: if_splits)
  qed (rule that(1))
qed

lemma settle_rules_cases:
  assumes "NewTradeSettlementRuleFilter repo req empty_settle_ctx w = (q, w')"
  obtains (refused) e where "q = Inl e" "w' = w"
  | (passed) order t where
      "RepoIsSCBlackIntercept repo (sc_Source req) (sc_Channel req) w = (Inr False, w)"
      "QueryMarketPayOrderEntityByOutTradeNo repo (sc_UserID req) (sc_OutTradeNo req) w
        = (Inr (Some order), w)"
      "mo_TradeOrderStatus order \<noteq> TradeOrderClose"
      "QueryGroupBuyTeamByTeamID repo (mo_TeamID order) w = (Inr (Some t), w)"
      "sc_OutTradeTime req < gt_ValidEndTime t"
      "EndRuleFilter_Apply (zero_apply None) req
        \<lparr>sx_MarketPayOrder = Some order, sx_GroupBuyTeam = Some t\<rparr> w = (q, w')"
proof -
  from assms have "SCRuleFilter_Apply repo (OutTradeNoRuleFilter_Apply repo
      (SettableRuleFilter_Apply repo (EndRuleFilter_Apply (zero_apply None)))) req empty_settle_ctx w = (q, w')"
    by (simp add: NewTradeSettlementRuleFilter_def chain_of_foldr)
  then show ?thesis
  proof (cases rule: blacklist_cases)
    case free: passed
    from free(2) show ?thesis
    proof (cases rule: out_trade_no_cases)
      case ord: (passed order)
      from ord(3) show ?thesis
      proof (cases rule: settable_cases)
        case team: (passed t)
        show ?thesis
          by (rule that(2) [of order t]) (use free ord team in \<open>simp_all add: empty_settle_ctx_def\<close>)
      qed (rule that(1))
    qed (rule that(1))
  qed (rule that(1))
qed

end

definition trade_no_of :: "mysql \<Rightarrow> string \<Rightarrow> string \<Rightarrow> GroupBuyOrderList \<Rightarrow> bool" where
  "trade_no_of M u n = (\<lambda>l. sqlEq M (l_UserID l) u \<and> sqlEq M (l_OutTradeNo l) n)"

lemma find_order:
  assumes "QueryMarketPayOrderEntityByOutTradeNo (NewTradeRepository r E) u n w = (Inr (Some order), w')"
    and "mysql_ok (rp_db r)"
  obtains l where "l \<in> set (db_lists (w_db w))" "sqlEq (rp_db r) (l_UserID l) u"
    "sqlEq (rp_db r) (l_OutTradeNo l) n" "mo_TeamID order = l_TeamID l" "mo_OrderID order = l_OrderID l"
    "mo_TradeOrderStatus order = l_Status l" "find (trade_no_of (rp_db r) u n) (db_lists (w_db w)) = Some l"
proof -
  from assms(1) obtain row d where
    first: "dbFirst db_lists (my_lists (rp_db r)) (\<lambda>l. sqlEq (rp_db r) (l_UserID l) u \<and>
        sqlEq (rp_db r) (l_OutTradeNo l) n) (w_db w) = (Inr (Some row), d)"
    and order: "mo_TeamID order = l_TeamID row" "mo_OrderID order = l_OrderID row"
      "mo_TradeOrderStatus order = l_Status row"
    by (auto simp: NewTradeRepository_def on_db_def repo_QueryMarketPayOrderEntityByOutTradeNo_def
        split: prod.splits elim!: go_bind_Inr_cases)
  from first mysql_okD(2) [OF assms(2)] have "find (\<lambda>l. sqlEq (rp_db r) (l_UserID l) u \<and>
        sqlEq (rp_db r) (l_OutTradeNo l) n) (db_lists (w_db w)) = Some row"
    by (cases rule: dbFirst_cases) simp_all
  then have f: "find (trade_no_of (rp_db r) u n) (db_lists (w_db w)) = Some row" and "row \<in> set (db_lists (w_db w))" "sqlEq (rp_db r) (l_UserID row) u"
    "sqlEq (rp_db r) (l_OutTradeNo row) n"
    by (auto simp: find_Some_iff trade_no_of_def)
  with order f show ?thesis by (intro that) simp_all
qed

lemma find_team:
  assumes "QueryGroupBuyTeamByTeamID (NewTradeRepository r E) t w = (Inr (Some team), w')"
    and "mysql_ok (rp_db r)"
  obtains g where "g \<in> set (db_orders (w_db w))" "sqlEq (rp_db r) (o_TeamID g) t" "team = team_entity r g"
proof -
  from assms(1) obtain row d where
    first: "dbFirst db_orders (my_orders (rp_db r)) (\<lambda>g. sqlEq (rp_db r) (o_TeamID g) t) (w_db w)
      = (Inr (Some row), d)" and team: "team = team_entity r row"
    by (auto simp: NewTradeRepository_def on_db_def repo_QueryGroupBuyTeamByTeamID_def
        split: prod.splits elim!: go_bind_Inr_cases)
  from first mysql_okD(1) [OF assms(2)] have "find (\<lambda>g. sqlEq (rp_db r) (o_TeamID g) t) (db_orders (w_db w)) = Some row"
    by (cases rule: dbFirst_cases) simp_all
  then have "row \<in> set (db_orders (w_db w))" "sqlEq (rp_db r) (o_TeamID row) t"
    by (auto simp: find_Some_iff)
  with team show ?thesis by (intro that) simp_all
qed

section \<open>Properties\<close>

definition settle_agg :: "TradePaySuccessEntity \<Rightarrow> GroupBuyTeamEntity \<Rightarrow> GroupBuyTeamSettlementAggregate" where
  "settle_agg pay t =
     \<lparr>ags_UserEntity = \<lparr>ue_UserID = ps_UserID pay\<rparr>, ags_GroupBuyTeamEntity = t,
      ags_TradePaySuccessEntity = pay\<rparr>"

text \<open>What a settlement pays: every unpaid order the user has under the trade number.\<close>

abbreviation unpaid_with :: "mysql \<Rightarrow> TradePaySuccessEntity \<Rightarrow> GroupBuyOrderList \<Rightarrow> bool" where
  "unpaid_with M pay \<equiv> \<lambda>l. trade_no_of M (ps_UserID pay) (ps_OutTradeNo pay) l \<and> l_Status l = TradeOrderCreate"

abbreviation paid_row :: "call_env \<Rightarrow> TradePaySuccessEntity \<Rightarrow> GroupBuyOrderList \<Rightarrow> GroupBuyOrderList" where
  "paid_row E pay \<equiv> \<lambda>l. l\<lparr>l_Status := TradeOrderComplete, l_OutTradeTime := Some (ps_OutTradeTime pay),
     l_UpdateTime := ce_now E 0\<rparr>"

lemma settled_team:
  assumes M: "mysql_ok (rp_db r)" and keys: "team_keys_apart (rp_db r) d"
    and ran: "repo_SettlementMarketPayOrder r E (settle_agg pay (team_entity r g)) d = (Inr x, d')"
    and g: "g \<in> set (db_orders d)"
  shows "cnt (unpaid_with (rp_db r) pay) (db_lists d) = 1"
    and "db_lists d' = upd_where (unpaid_with (rp_db r) pay) (paid_row E pay) (db_lists d)"
    and "\<exists>g' \<in> set (db_orders d'). o_TeamID g' = o_TeamID g \<and> o_CompleteCount g' = o_CompleteCount g + 1 \<and>
      (if o_CompleteCount g + 1 = o_TargetCount g
       then o_Status g' = GroupBuyComplete \<and> (\<exists>t. x = Some t \<and> nt_TeamID t = o_TeamID g)
       else o_Status g' = o_Status g \<and> x = None)"
proof -
  let ?agg = "settle_agg pay (team_entity r g)" and ?d = "settled_db (rp_db r) E (settle_agg pay (team_entity r g)) d"
  note tx = settlement_Inr [OF M ran]
  have hit: "pay_hit (rp_db r) ?agg = unpaid_with (rp_db r) pay" "pay_set E ?agg = paid_row E pay"
    by (auto simp: settle_agg_def trade_no_of_def)
  then have lists: "db_lists ?d = upd_where (unpaid_with (rp_db r) pay) (paid_row E pay) (db_lists d)"
    by (simp add: settled_db_def)
  have t: "sqlEq (rp_db r) (o_TeamID g) (settle_team ?agg)" by (simp add: settle_agg_def team_entity_def)
  note join = settlement_hits_team [OF M keys tx g t]
  have keys1: "team_keys_apart (rp_db r) ?d" using keys by (simp add: settled_db_def)
  have last: "if o_CompleteCount g + 1 = o_TargetCount g then settle_complete r E ?agg ?d = (Inr x, d')
      else x = None \<and> d' = ?d"
    using settle_tx_Inr(3) [OF tx M] by (auto simp: settle_agg_def team_entity_def split: if_splits)
  show "cnt (unpaid_with (rp_db r) pay) (db_lists d) = 1" using settle_tx_Inr(1) [OF tx M] hit by simp
  have t1: "sqlEq (rp_db r) (o_TeamID (join_set E g)) (settle_team ?agg)" using t by simp
  have team: "settle_team ?agg = o_TeamID g" by (simp add: settle_agg_def team_entity_def)
  have "db_lists d' = db_lists ?d \<and> (\<exists>g' \<in> set (db_orders d'). o_TeamID g' = o_TeamID g \<and>
      o_CompleteCount g' = o_CompleteCount g + 1 \<and>
      (if o_CompleteCount g + 1 = o_TargetCount g
       then o_Status g' = GroupBuyComplete \<and> (\<exists>t. x = Some t \<and> nt_TeamID t = o_TeamID g)
       else o_Status g' = o_Status g \<and> x = None))"
  proof (cases "o_CompleteCount g + 1 = o_TargetCount g")
    case True
    with last have "settle_complete r E ?agg ?d = (Inr x, d')" by simp
    note fin = complete_hits_team [OF M keys1 this join t1, unfolded team]
    with True show ?thesis by (intro conjI bexI [of _ "formed_set E (join_set E g)"]) simp_all
  next
    case False
    with last join show ?thesis by (intro conjI bexI [of _ "join_set E g"]) simp_all
  qed
  with lists show "db_lists d' = upd_where (unpaid_with (rp_db r) pay) (paid_row E pay) (db_lists d)"
    and "\<exists>g' \<in> set (db_orders d'). o_TeamID g' = o_TeamID g \<and> o_CompleteCount g' = o_CompleteCount g + 1 \<and>
      (if o_CompleteCount g + 1 = o_TargetCount g
       then o_Status g' = GroupBuyComplete \<and> (\<exists>t. x = Some t \<and> nt_TeamID t = o_TeamID g)
       else o_Status g' = o_Status g \<and> x = None)"
    by simp_all
qed

lemma team_eta [simp]:
  "\<lparr>gt_TeamID = gt_TeamID t, gt_ActivityID = gt_ActivityID t, gt_TargetCount = gt_TargetCount t,
    gt_CompleteCount = gt_CompleteCount t, gt_LockCount = gt_LockCount t, gt_Status = gt_Status t,
    gt_ValidStartTime = gt_ValidStartTime t, gt_ValidEndTime = gt_ValidEndTime t,
    gt_NotifyConfig = gt_NotifyConfig t\<rparr> = t"
  by (cases t) simp

text \<open>The service on the concrete repository: refused without any change, or the repository's settlement.\<close>

lemma settle_call_cases:
  assumes run: "go_bind (SettlementMarketPayOrder (NewTradeRepository r E) agg)
      (\<lambda>n. go_bind (spawn_notify (Some safego_Go) n) (\<lambda>_. go_ret res)) w = (q, w')"
    and M: "mysql_ok (rp_db r)"
  obtains (refused) e where "q = Inl e" "w' = w"
  | (settled) y d where "q = Inr res" "repo_SettlementMarketPayOrder r E agg (w_db w) = (Inr y, d)"
      "w' = (case y of None \<Rightarrow> w\<lparr>w_db := d\<rparr> | Some t \<Rightarrow> w\<lparr>w_db := d, w_async := w_async w @ [t]\<rparr>)"
proof -
  obtain x d where x: "repo_SettlementMarketPayOrder r E agg (w_db w) = (x, d)" by force
  then have repo: "SettlementMarketPayOrder (NewTradeRepository r E) agg w = (x, w\<lparr>w_db := d\<rparr>)"
    by (simp add: NewTradeRepository_def on_db_def)
  show ?thesis
  proof (cases x)
    case (Inl e)
    then have "d = w_db w"
      using x rp_ok(5) [OF M] unfolding repo_SettlementMarketPayOrder_def by (auto elim: txn_cases)
    with run repo Inl show ?thesis by (intro refused) (auto simp: go_bind_def)
  next
    case (Inr y)
    with run repo x show ?thesis
      by (intro settled) (auto simp: go_bind_def spawn_notify_def safego_Go_def split: option.splits)
  qed
qed

lemma settle_service_cases:
  assumes M: "mysql_ok (rp_db r)"
    and run: "settle_SettlementMarketPayOrder (NewTradeRepository r E) (Some safego_Go) pay w = (q, w')"
  obtains (refused) e where "q = Inl e" "w' = w"
  | (settled) l g y d res where "q = Inr res" "\<not> IsSCBlackIntercept (w_dcc w) (ps_Source pay) (ps_Channel pay)"
      "l \<in> set (db_lists (w_db w))" "sqlEq (rp_db r) (l_UserID l) (ps_UserID pay)"
      "sqlEq (rp_db r) (l_OutTradeNo l) (ps_OutTradeNo pay)" "l_Status l \<noteq> TradeOrderClose"
      "find (trade_no_of (rp_db r) (ps_UserID pay) (ps_OutTradeNo pay)) (db_lists (w_db w)) = Some l"
      "g \<in> set (db_orders (w_db w))" "sqlEq (rp_db r) (o_TeamID g) (l_TeamID l)"
      "ps_OutTradeTime pay < o_ValidEndTime g" "pst_TeamID res = o_TeamID g"
      "repo_SettlementMarketPayOrder r E (settle_agg pay (team_entity r g)) (w_db w) = (Inr y, d)"
      "w' = (case y of None \<Rightarrow> w\<lparr>w_db := d\<rparr> | Some t \<Rightarrow> w\<lparr>w_db := d, w_async := w_async w @ [t]\<rparr>)"
  using run unfolding settle_SettlementMarketPayOrder_def
proof (cases rule: go_bind_cases)
  case (fails e)
  from fails(1) have "w' = w"
    by (cases rule: trade_repo.settle_rules_cases) (auto simp: EndRuleFilter_Apply_def)
  with fails(2) refused show ?thesis by blast
next
  case (goes_on bk w1)
  from goes_on(1) show ?thesis
  proof (cases rule: trade_repo.settle_rules_cases)
    case (passed order t)
    from passed(2) M obtain l where l: "l \<in> set (db_lists (w_db w))"
      "sqlEq (rp_db r) (l_UserID l) (ps_UserID pay)" "sqlEq (rp_db r) (l_OutTradeNo l) (ps_OutTradeNo pay)"
      "mo_TeamID order = l_TeamID l" "mo_TradeOrderStatus order = l_Status l"
      "find (trade_no_of (rp_db r) (ps_UserID pay) (ps_OutTradeNo pay)) (db_lists (w_db w)) = Some l"
      by (rule find_order) simp
    from passed(4) M obtain g where g: "g \<in> set (db_orders (w_db w))"
      "sqlEq (rp_db r) (o_TeamID g) (l_TeamID l)" "t = team_entity r g"
      by (rule find_team) (simp add: l(4))
    from passed(6) have w1: "w1 = w" and bk: "bk = Some
        \<lparr>sb_TeamID = gt_TeamID t, sb_ActivityID = gt_ActivityID t, sb_TargetCount = gt_TargetCount t,
         sb_CompleteCount = gt_CompleteCount t, sb_LockCount = gt_LockCount t, sb_Status = gt_Status t,
         sb_ValidStartTime = gt_ValidStartTime t, sb_ValidEndTime = gt_ValidEndTime t,
         sb_NotifyConfig = gt_NotifyConfig t\<rparr>"
      by (simp_all add: EndRuleFilter_Apply_def)
    have "go_bind (SettlementMarketPayOrder (NewTradeRepository r E) (settle_agg pay t))
        (\<lambda>n. go_bind (spawn_notify (Some safego_Go) n) (\<lambda>_. go_ret
          \<lparr>pst_Source = ps_Source pay, pst_Channel = ps_Channel pay, pst_UserID = ps_UserID pay,
           pst_TeamID = sb_TeamID (the bk), pst_ActivityID = sb_ActivityID (the bk),
           pst_OutTradeNo = ps_OutTradeNo pay\<rparr>)) w = (q, w')"
      using goes_on(2) w1 by (simp add: bk settle_agg_def)
    then show ?thesis using M
    proof (cases rule: settle_call_cases)
      case call: (settled y d)
      show ?thesis
        by (rule settled [of _ l g y d])
          (use call bk l g passed(1,3,5) in \<open>auto simp: team_entity_def NewTradeRepository_def\<close>)
    qed (rule refused)
  qed simp
qed

lemma settle_pay_in_team:
  assumes "\<forall>l \<in> set (db_lists d). \<forall>l' \<in> set (db_lists d).
      sqlEq M (l_UserID l) u \<and> sqlEq M (l_OutTradeNo l) n \<and>
      sqlEq M (l_UserID l') u \<and> sqlEq M (l_OutTradeNo l') n \<longrightarrow> sqlEq M (l_TeamID l) (l_TeamID l')"
    and "l \<in> set (db_lists d)" "sqlEq M (l_UserID l) u" "sqlEq M (l_OutTradeNo l) n"
    and "sqlEq M t (l_TeamID l)"
  shows "pay_in_team M d u n t"
  unfolding pay_in_team_def
proof (intro ballI impI)
  fix l' assume "l' \<in> set (db_lists d)" and "sqlEq M (l_UserID l') u \<and> sqlEq M (l_OutTradeNo l') n"
  with assms(1-4) have "sqlEq M (l_TeamID l') (l_TeamID l)" by simp
  then show "sqlEq M (l_TeamID l') t" by (rule sqlEq_trans) (use assms(5) sqlEq_sym in blast)
qed

text \<open>
  C14. What a settlement does end to end, when nothing else runs between its reads and its
  transaction and the database keeps team ids apart. When it fails, nothing changes at all. When it
  succeeds, the channel was not blocked, the first order the user has under the trade number was not
  closed, and its team, the one that is credited, had not expired at the time of payment; the one
  unpaid order the user has under that number is marked paid and no other order changes; the team's
  complete count has gone up by one, and exactly when that fills the team it becomes complete and
  one notify task of the team is handed to the background. Settlements that interleave are the
  subject of C6, numbers used twice that of C15.
\<close>

theorem settlement_service_outcome:
  assumes M: "mysql_ok (rp_db r)" and keys: "team_keys_apart (rp_db r) (w_db w)"
    and run: "settle_SettlementMarketPayOrder (NewTradeRepository r E) (Some safego_Go) pay w = (q, w')"
  shows "case q of
      Inl e \<Rightarrow> w' = w
    | Inr res \<Rightarrow> \<not> IsSCBlackIntercept (w_dcc w) (ps_Source pay) (ps_Channel pay) \<and>
        cnt (unpaid_with (rp_db r) pay) (db_lists (w_db w)) = 1 \<and>
        db_lists (w_db w') = upd_where (unpaid_with (rp_db r) pay) (paid_row E pay) (db_lists (w_db w)) \<and>
        (\<exists>l g. find (trade_no_of (rp_db r) (ps_UserID pay) (ps_OutTradeNo pay)) (db_lists (w_db w)) = Some l \<and>
           l_Status l \<noteq> TradeOrderClose \<and> g \<in> set (db_orders (w_db w)) \<and>
           sqlEq (rp_db r) (o_TeamID g) (l_TeamID l) \<and> ps_OutTradeTime pay < o_ValidEndTime g \<and>
           pst_TeamID res = o_TeamID g \<and>
           (\<exists>g' \<in> set (db_orders (w_db w')).
              o_TeamID g' = o_TeamID g \<and> o_CompleteCount g' = o_CompleteCount g + 1 \<and>
              (if o_CompleteCount g + 1 = o_TargetCount g
               then o_Status g' = GroupBuyComplete \<and> (\<exists>t. nt_TeamID t = o_TeamID g \<and> w_async w' = w_async w @ [t])
               else o_Status g' = o_Status g \<and> w_async w' = w_async w)))"
  using M run
proof (cases rule: settle_service_cases)
  case (settled l g y d res)
  note team = settled_team [OF M keys settled(12,8)]
  from team(3) settled(13) have "\<exists>g' \<in> set (db_orders (w_db w')).
      o_TeamID g' = o_TeamID g \<and> o_CompleteCount g' = o_CompleteCount g + 1 \<and>
      (if o_CompleteCount g + 1 = o_TargetCount g
       then o_Status g' = GroupBuyComplete \<and> (\<exists>t. nt_TeamID t = o_TeamID g \<and> w_async w' = w_async w @ [t])
       else o_Status g' = o_Status g \<and> w_async w' = w_async w)"
    by (elim bexE, intro bexI, auto split: if_splits)
  moreover have "db_lists (w_db w') = db_lists d" using settled(13) by (simp split: option.splits)
  ultimately show ?thesis unfolding settled(1) sum.case using settled(2,6-11) team(1,2)
    by (intro conjI exI [of _ l] exI [of _ g]) simp_all
qed simp

lemmas settle_eval = settle_SettlementMarketPayOrder_def NewTradeSettlementRuleFilter_def chain_of_foldr
  SCRuleFilter_Apply_def OutTradeNoRuleFilter_Apply_def SettableRuleFilter_Apply_def EndRuleFilter_Apply_def
  empty_settle_ctx_def NewTradeRepository_def on_db_def repo_QueryMarketPayOrderEntityByOutTradeNo_def
  repo_QueryGroupBuyTeamByTeamID_def team_entity_def spawn_notify_def safego_Go_def

lemma settlement_witness:
  "\<exists>res w' t. settle_SettlementMarketPayOrder (NewTradeRepository refRepository (ex_env 1)) (Some safego_Go)
     (ags_TradePaySuccessEntity (ex_settle ''bob'' 1)) (ex_world\<lparr>w_db := ex_db3\<rparr>) = (Inr res, w') \<and>
     pst_TeamID res = ''11111111'' \<and> w_async w' = [t] \<and> nt_TeamID t = ''11111111''"
proof -
  let ?w = "ex_world\<lparr>w_db := ex_db3\<rparr>"
  obtain res w' where run: "settle_SettlementMarketPayOrder (NewTradeRepository refRepository (ex_env 1))
     (Some safego_Go) (ags_TradePaySuccessEntity (ex_settle ''bob'' 1)) ?w = (Inr res, w')"
    by (simp add: settle_eval trade_eval ex_world_def ex_defs IsSCBlackIntercept_def dcc_New_def)
  have "team_keys_apart (rp_db refRepository) (w_db ?w)" by (simp add: ex_db3_def)
  from settlement_service_outcome [OF _ this run] mysql_ok_ref
  obtain g where g: "g \<in> set (db_orders ex_db3)" "pst_TeamID res = o_TeamID g"
    and t: "o_CompleteCount g + 1 = o_TargetCount g \<longrightarrow> (\<exists>t. nt_TeamID t = o_TeamID g \<and> w_async w' = w_async ?w @ [t])"
    by (fastforce split: if_splits)
  from g have "g = ex_team 2 1 0" by (simp add: ex_db3_def)
  with run g(2) t show ?thesis by (auto simp: ex_team_def ex_world_def)
qed

text \<open>
  C15. A trade number used for a second order is settled for the wrong team. When the user's first
  order with the number is in one team and an unpaid one in another, a settlement that succeeds
  marks the unpaid order paid, but the row of its team, with its complete count, stays as it was:
  the count of the first order's team is raised instead.
\<close>

theorem reused_trade_no_credits_other_team:
  assumes M: "mysql_ok (rp_db r)"
    and run: "settle_SettlementMarketPayOrder (NewTradeRepository r E) (Some safego_Go) pay w = (Inr res, w')"
    and l0: "find (trade_no_of (rp_db r) (ps_UserID pay) (ps_OutTradeNo pay)) (db_lists (w_db w)) = Some l0"
    and l1: "l1 \<in> set (db_lists (w_db w))" "trade_no_of (rp_db r) (ps_UserID pay) (ps_OutTradeNo pay) l1"
      "l_Status l1 = TradeOrderCreate" "sqlEq (rp_db r) (l_TeamID l1) (o_TeamID g1)"
    and g1: "g1 \<in> set (db_orders (w_db w))" and other: "\<not> sqlEq (rp_db r) (l_TeamID l0) (o_TeamID g1)"
  shows "(\<exists>l' \<in> set (db_lists (w_db w')). l_OrderID l' = l_OrderID l1 \<and> l_TeamID l' = l_TeamID l1 \<and>
      l_Status l' = TradeOrderComplete) \<and> g1 \<in> set (db_orders (w_db w'))"
  using M run
proof (cases rule: settle_service_cases)
  case (settled l g y d res')
  let ?agg = "settle_agg pay (team_entity r g)"
  note tx = settlement_Inr [OF M settled(12)]
  have miss: "\<not> sqlEq (rp_db r) (o_TeamID g1) (settle_team ?agg)"
    using settled(7,9) l0 other by (auto simp: settle_agg_def team_entity_def sqlEq_def)
  let ?d = "settled_db (rp_db r) E ?agg (w_db w)"
  have l: "pay_set E ?agg l1 \<in> set (db_lists ?d)"
    using l1(1-3) by (auto simp: settled_db_def upd_where_def trade_no_of_def settle_agg_def)
  have g: "g1 \<in> set (db_orders ?d)" using g1 miss by (auto simp: settled_db_def upd_where_def)
  have "pay_set E ?agg l1 \<in> set (db_lists d) \<and> g1 \<in> set (db_orders d)"
  proof (cases "gt_TargetCount (team_entity r g) - gt_CompleteCount (team_entity r g) = 1")
    case True
    with settle_tx_Inr(3) [OF tx M] have "settle_complete r E ?agg ?d = (Inr y, d)"
      by (simp add: settle_agg_def)
    then show ?thesis
      using M by (rule settle_complete_Inr) (use l g miss in \<open>auto simp: upd_where_def\<close>)
  next
    case False
    with settle_tx_Inr(3) [OF tx M] l g show ?thesis by (simp add: settle_agg_def)
  qed
  moreover have "w_db w' = d" using settled(13) by (simp split: option.splits)
  ultimately show ?thesis by (intro conjI bexI [of _ "pay_set E ?agg l1"]) simp_all
qed simp

text \<open>The user \<open>ann\<close> has paid in team 11111111 and locked a second order, with the same number, in 22222222.\<close>

definition ex_reuse :: world where
  "ex_reuse = ex_world\<lparr>w_db := ex_db3\<lparr>
     db_orders := [ex_team 2 1 0, (ex_team 1 0 0)\<lparr>o_ID := 2, o_TeamID := ''22222222''\<rparr>],
     db_lists := [ex_row 1 ''ann'' ''111111111111'' 1 (Some 1200),
       (ex_row 2 ''ann'' ''333333333333'' 0 None)\<lparr>l_TeamID := ''22222222''\<rparr>]\<rparr>\<rparr>"

lemma ex_reuse_settles:
  "\<exists>res w'. settle_SettlementMarketPayOrder (NewTradeRepository refRepository (ex_env 1)) (Some safego_Go)
     (ags_TradePaySuccessEntity (ex_settle ''ann'' 1)) ex_reuse = (Inr res, w')"
  by (simp add: settle_SettlementMarketPayOrder_def NewTradeSettlementRuleFilter_def chain_of_foldr
      SCRuleFilter_Apply_def OutTradeNoRuleFilter_Apply_def SettableRuleFilter_Apply_def
      EndRuleFilter_Apply_def empty_settle_ctx_def spawn_notify_def safego_Go_def NewTradeRepository_def
      repo_QueryMarketPayOrderEntityByOutTradeNo_def repo_QueryGroupBuyTeamByTeamID_def team_entity_def
      on_db_def ex_reuse_def ex_world_def trade_eval ex_defs IsSCBlackIntercept_def dcc_New_def)

lemma reused_trade_no_witness:
  "(ex_team 1 0 0)\<lparr>o_ID := 2, o_TeamID := ''22222222''\<rparr> \<in> set (db_orders (w_db (snd
     (settle_SettlementMarketPayOrder (NewTradeRepository refRepository (ex_env 1)) (Some safego_Go)
       (ags_TradePaySuccessEntity (ex_settle ''ann'' 1)) ex_reuse))))"
proof -
  from ex_reuse_settles obtain res w' where
    run: "settle_SettlementMarketPayOrder (NewTradeRepository refRepository (ex_env 1)) (Some safego_Go)
     (ags_TradePaySuccessEntity (ex_settle ''ann'' 1)) ex_reuse = (Inr res, w')"
    by blast
  show ?thesis
    using reused_trade_no_credits_other_team [OF _ run, of "ex_row 1 ''ann'' ''111111111111'' 1 (Some 1200)"
        "(ex_row 2 ''ann'' ''333333333333'' 0 None)\<lparr>l_TeamID := ''22222222''\<rparr>"
        "(ex_team 1 0 0)\<lparr>o_ID := 2, o_TeamID := ''22222222''\<rparr>"] mysql_ok_ref run
    by (simp add: ex_reuse_def trade_no_of_def ex_defs)
qed

end
