(* ===== verification/Refund_Service.thy ===== *)
theory Refund_Service
  imports Settlement_Service
begin

text \<open>
  Refunding an order: the three strategies (\<open>internal/domain/trade/service/refund/business\<close>), the
  chain of rules (\<open>internal/domain/trade/service/refund/filter\<close>) and the service
  (\<open>internal/domain/trade/service/refund/trade_refund_order_service.go\<close>), over any trade repository.
  A strategy is the record of its operations; the registry maps its name to it. Logging is left out.
\<close>

section \<open>The strategies\<close>

record 'w IRefundOrderStrategy =
  st_Name :: string
  st_RefundOrder :: "TradeRefundOrderEntity \<Rightarrow> ('w, unit) go"
  st_ReverseStock :: "TeamRefundSuccess \<Rightarrow> ('w, unit) go"

definition sendRefundNotify ::
    "(NotifyTaskEntity \<Rightarrow> ('w, unit) go) option \<Rightarrow> NotifyTaskEntity option \<Rightarrow> ('w, unit) go" where
  "sendRefundNotify spawn notify =
     (case notify of
        None \<Rightarrow> go_ret ()
      | Some t \<Rightarrow> (case spawn of None \<Rightarrow> go_ret () | Some go \<Rightarrow> go t))"

definition doReverseStock :: "'w ITradeRepository \<Rightarrow> TeamRefundSuccess \<Rightarrow> ('w, unit) go" where
  "doReverseStock repo msg =
     (let key = GenerateRecoveryTeamStockKey (trs_ActivityID msg) (trs_TeamID msg)
      in Refund2AddRecovery repo key (trs_OrderID msg))"

definition Unpaid2RefundStrategy ::
    "'w ITradeRepository \<Rightarrow> (NotifyTaskEntity \<Rightarrow> ('w, unit) go) option \<Rightarrow> 'w IRefundOrderStrategy" where
  "Unpaid2RefundStrategy repo spawn =
     \<lparr>st_Name = ''unpaid2RefundStrategy'',
      st_RefundOrder = (\<lambda>order.
        go_bind (Unpaid2Refund repo (BuildUnpaid2RefundAggregate order (-1))) (sendRefundNotify spawn)),
      st_ReverseStock = doReverseStock repo\<rparr>"

definition Paid2RefundStrategy ::
    "'w ITradeRepository \<Rightarrow> (NotifyTaskEntity \<Rightarrow> ('w, unit) go) option \<Rightarrow> 'w IRefundOrderStrategy" where
  "Paid2RefundStrategy repo spawn =
     \<lparr>st_Name = ''paid2RefundStrategy'',
      st_RefundOrder = (\<lambda>order.
        go_bind (Paid2Refund repo (BuildPaid2RefundAggregate order (-1) (-1))) (sendRefundNotify spawn)),
      st_ReverseStock = doReverseStock repo\<rparr>"

definition PaidTeam2RefundStrategy ::
    "'w ITradeRepository \<Rightarrow> (NotifyTaskEntity \<Rightarrow> ('w, unit) go) option \<Rightarrow> 'w IRefundOrderStrategy" where
  "PaidTeam2RefundStrategy repo spawn =
     \<lparr>st_Name = ''paidTeam2RefundStrategy'',
      st_RefundOrder = (\<lambda>order.
        go_bind (PaidTeam2Refund repo (BuildPaidTeam2RefundAggregate order (-1) (-1)))
          (sendRefundNotify spawn)),
      st_ReverseStock = doReverseStock repo\<rparr>"

type_synonym 'w StrategyMap = "string \<rightharpoonup> 'w IRefundOrderStrategy"

definition NewStrategyMap :: "'w IRefundOrderStrategy list \<Rightarrow> 'w StrategyMap" where
  "NewStrategyMap strategies = foldl (\<lambda>m s. m(st_Name s \<mapsto> s)) Map.empty strategies"

text \<open>The registry the wiring of the server builds.\<close>

definition all_strategies ::
    "'w ITradeRepository \<Rightarrow> (NotifyTaskEntity \<Rightarrow> ('w, unit) go) option \<Rightarrow> 'w StrategyMap" where
  "all_strategies repo spawn =
     NewStrategyMap [Unpaid2RefundStrategy repo spawn, Paid2RefundStrategy repo spawn,
       PaidTeam2RefundStrategy repo spawn]"

section \<open>The rules\<close>

record RefundCtx =
  rx_MarketPayOrder :: "MarketPayOrderEntity option"
  rx_GroupBuyTeam :: "GroupBuyTeamEntity option"

type_synonym RefundReq = TradeRefundCommandEntity
type_synonym RefundRes = "TradeRefundBehaviorEntity option"

definition DataNodeFilter_Apply ::
    "'w ITradeRepository \<Rightarrow> (RefundReq, RefundCtx, 'w, RefundRes) handler" where
  "DataNodeFilter_Apply repo Next req dc =
     go_bind (QueryMarketPayOrderEntityByOutTradeNo repo (rcmd_UserID req) (rcmd_OutTradeNo req))
       (\<lambda>order. case order of
          None \<Rightarrow> go_ret None
        | Some o' \<Rightarrow>
            go_bind (QueryGroupBuyTeamByTeamID repo (mo_TeamID o'))
              (\<lambda>team. Next req (dc\<lparr>rx_MarketPayOrder := Some o', rx_GroupBuyTeam := team\<rparr>)))"

definition refund_behavior ::
    "RefundReq \<Rightarrow> MarketPayOrderEntity \<Rightarrow> TradeRefundBehavior \<Rightarrow> TradeRefundBehaviorEntity" where
  "refund_behavior req order b =
     \<lparr>rb_UserID = rcmd_UserID req, rb_OrderID = mo_OrderID order, rb_TeamID = mo_TeamID order,
      rb_Behavior = b\<rparr>"

definition UniqueRefundNodeFilter_Apply :: "(RefundReq, RefundCtx, 'w, RefundRes) handler" where
  "UniqueRefundNodeFilter_Apply Next req dc =
     (case rx_MarketPayOrder dc of
        None \<Rightarrow> Next req dc
      | Some order \<Rightarrow>
          if mo_TradeOrderStatus order = TradeOrderClose
          then go_ret (Some (refund_behavior req order RefundBehaviorRepeat))
          else Next req dc)"

definition refund_order_of ::
    "RefundReq \<Rightarrow> MarketPayOrderEntity \<Rightarrow> GroupBuyTeamEntity \<Rightarrow> TradeRefundOrderEntity" where
  "refund_order_of req order team =
     \<lparr>ro_UserID = rcmd_UserID req, ro_OrderID = mo_OrderID order, ro_TeamID = mo_TeamID order,
      ro_ActivityID = gt_ActivityID team, ro_OutTradeNo = rcmd_OutTradeNo req\<rparr>"

definition RefundOrderNodeFilter_Apply ::
    "'w StrategyMap \<Rightarrow> (RefundReq, RefundCtx, 'w, RefundRes) handler" where
  "RefundOrderNodeFilter_Apply strategies Next req dc =
     (case (rx_GroupBuyTeam dc, rx_MarketPayOrder dc) of
        (Some team, Some order) \<Rightarrow>
          (case GetRefundStrategy (gt_Status team) (mo_TradeOrderStatus order) of
             Inl err \<Rightarrow> go_err err
           | Inr refundType \<Rightarrow>
               (case strategies (rt_Strategy refundType) of
                  None \<Rightarrow> go_ret None
                | Some strategy \<Rightarrow>
                    go_bind (st_RefundOrder strategy (refund_order_of req order team))
                      (\<lambda>_. go_ret (Some (refund_behavior req order RefundBehaviorSuccess)))))
      | _ \<Rightarrow> go_err nil_deref)"

definition NewTradeRefundRuleFilter ::
    "'w ITradeRepository \<Rightarrow> 'w StrategyMap \<Rightarrow> (RefundReq, RefundCtx, 'w, RefundRes) applier" where
  "NewTradeRefundRuleFilter repo strategies =
     chain_of
      (      [CHR 0xE9, CHR 0x80, CHR 0x80, CHR 0xE5, CHR 0x8D, CHR 0x95, CHR 0xE8, CHR 0xA7, CHR
      0x84, CHR 0xE5, CHR 0x88, CHR 0x99, CHR 0xE8, CHR 0xBF, CHR 0x87, CHR 0xE6, CHR 0xBB, CHR
      0xA4, CHR 0xE9, CHR 0x93, CHR 0xBE])
      None
      [DataNodeFilter_Apply repo, UniqueRefundNodeFilter_Apply, RefundOrderNodeFilter_Apply strategies]"

section \<open>The service\<close>

definition empty_refund_ctx :: RefundCtx where
  "empty_refund_ctx = \<lparr>rx_MarketPayOrder = None, rx_GroupBuyTeam = None\<rparr>"

definition refund_RefundOrder ::
    "'w ITradeRepository \<Rightarrow> 'w StrategyMap \<Rightarrow> TradeRefundCommandEntity \<Rightarrow>
     ('w, TradeRefundBehaviorEntity option) go" where
  "refund_RefundOrder repo strategies cmd = NewTradeRefundRuleFilter repo strategies cmd empty_refund_ctx"

definition refund_RestoreTeamLockStock ::
    "'w StrategyMap \<Rightarrow> TeamRefundSuccess \<Rightarrow> ('w, unit) go" where
  "refund_RestoreTeamLockStock strategies msg =
     (case GetRefundTypeByCode (trs_Type msg) of
        Inl err \<Rightarrow> go_err err
      | Inr rt \<Rightarrow>
          (case strategies (rt_Strategy rt) of
             None \<Rightarrow> go_ret ()
           | Some strategy \<Rightarrow> st_ReverseStock strategy msg))"

definition refund_QueryTimeoutUnpaidOrderList ::
    "'w ITradeRepository \<Rightarrow> ('w, TimeoutUnpaidOrderEntity list) go" where
  "refund_QueryTimeoutUnpaidOrderList repo = QueryTimeoutUnpaidOrderList repo"

lemma all_strategies_simps [simp]:
  "all_strategies repo spawn ''unpaid2RefundStrategy'' = Some (Unpaid2RefundStrategy repo spawn)"
  "all_strategies repo spawn ''paid2RefundStrategy'' = Some (Paid2RefundStrategy repo spawn)"
  "all_strategies repo spawn ''paidTeam2RefundStrategy'' = Some (PaidTeam2RefundStrategy repo spawn)"
  by (simp_all add: all_strategies_def NewStrategyMap_def Unpaid2RefundStrategy_def
      Paid2RefundStrategy_def PaidTeam2RefundStrategy_def)

text \<open>Every refund type the code knows has its strategy, the code of its message included.\<close>

lemma strategy_registered:
  "GetRefundStrategy ts os = Inr rt \<Longrightarrow> \<exists>s. all_strategies repo spawn (rt_Strategy rt) = Some s \<and>
     st_Name s = rt_Strategy rt \<and> st_ReverseStock s = doReverseStock repo"
  by (auto simp: GetRefundStrategy_def Unpaid2RefundStrategy_def Paid2RefundStrategy_def
      PaidTeam2RefundStrategy_def split: if_splits)

lemma RestoreTeamLockStock_all:
  "refund_RestoreTeamLockStock (all_strategies repo spawn) msg =
     (case GetRefundTypeByCode (trs_Type msg) of
        Inl err \<Rightarrow> go_err err | Inr rt \<Rightarrow> doReverseStock repo msg)"
  by (simp add: refund_RestoreTeamLockStock_def GetRefundTypeByCode_def Unpaid2RefundStrategy_def
      Paid2RefundStrategy_def PaidTeam2RefundStrategy_def)

section \<open>The service on the concrete repository\<close>

lemma refund_ports [simp]:
  "Unpaid2Refund (NewTradeRepository r E) agg = on_db (repo_Unpaid2Refund r E agg)"
  "Paid2Refund (NewTradeRepository r E) agg = on_db (repo_Paid2Refund r E agg)"
  "PaidTeam2Refund (NewTradeRepository r E) agg = on_db (repo_PaidTeam2Refund r E agg)"
  by (simp_all add: NewTradeRepository_def)

lemma refund_types_of:
  "GetRefundStrategy ts os = Inr rt \<Longrightarrow> rt \<in> {RefundUnpaidUnlock, RefundPaidUnformed, RefundPaidFormed}"
  by (auto simp: GetRefundStrategy_def split: if_splits)

lemma strategy_run:
  assumes "GetRefundStrategy ts os = Inr rt"
    and "all_strategies (NewTradeRepository r E) (Some safego_Go) (rt_Strategy rt) = Some s"
  shows "st_RefundOrder s order = go_bind (on_db (refund_by r E rt order)) (sendRefundNotify (Some safego_Go))"
proof -
  from refund_types_of [OF assms(1)]
  consider "rt = RefundUnpaidUnlock" | "rt = RefundPaidUnformed" | "rt = RefundPaidFormed" by blast
  then show ?thesis
  proof cases
    case 1
    with assms(2) have "s = Unpaid2RefundStrategy (NewTradeRepository r E) (Some safego_Go)" by simp
    with 1 show ?thesis by (simp add: Unpaid2RefundStrategy_def refund_by_def)
  next
    case 2
    with assms(2) have "s = Paid2RefundStrategy (NewTradeRepository r E) (Some safego_Go)" by simp
    with 2 show ?thesis by (simp add: Paid2RefundStrategy_def refund_by_def)
  next
    case 3
    with assms(2) have "s = PaidTeam2RefundStrategy (NewTradeRepository r E) (Some safego_Go)" by simp
    with 3 show ?thesis by (simp add: PaidTeam2RefundStrategy_def refund_by_def)
  qed
qed

lemma refund_by_error:
  assumes "mysql_ok (rp_db r)" and "refund_by r E rt order d = (Inl e, d')"
  shows "d' = d"
proof -
  have "d' = d" if "my_txTask (rp_db r) body d = (Inl e, d')" for body
    using rp_ok(5) [OF assms(1)] that by (cases rule: txn_cases) simp_all
  with assms(2) show ?thesis
    by (auto simp: refund_by_def repo_Unpaid2Refund_def repo_Paid2Refund_def doRefund_def
        repo_PaidTeam2Refund_def split: if_splits)
qed

definition refunded_world :: "world \<Rightarrow> db \<Rightarrow> NotifyTaskEntity option \<Rightarrow> world" where
  "refunded_world w d x =
     (case x of None \<Rightarrow> w\<lparr>w_db := d\<rparr> | Some t \<Rightarrow> w\<lparr>w_db := d, w_async := w_async w @ [t]\<rparr>)"

lemma none_order:
  assumes "QueryMarketPayOrderEntityByOutTradeNo (NewTradeRepository r E) u n w = (Inr None, w')"
    and "mysql_ok (rp_db r)"
  shows "find (trade_no_of (rp_db r) u n) (db_lists (w_db w)) = None"
proof -
  from assms(1) obtain d where
    "dbFirst db_lists (my_lists (rp_db r)) (\<lambda>l. sqlEq (rp_db r) (l_UserID l) u \<and>
        sqlEq (rp_db r) (l_OutTradeNo l) n) (w_db w) = (Inr None, d)"
    by (auto simp: NewTradeRepository_def on_db_def repo_QueryMarketPayOrderEntityByOutTradeNo_def
        split: prod.splits elim!: go_bind_Inr_cases)
  from this mysql_okD(2) [OF assms(2)] show ?thesis
    by (cases rule: dbFirst_cases) (simp_all add: trade_no_of_def)
qed

lemma refund_node_cases:
  assumes M: "mysql_ok (rp_db r)"
    and run: "RefundOrderNodeFilter_Apply (all_strategies (NewTradeRepository r E) (Some safego_Go)) nxt
      req \<lparr>rx_MarketPayOrder = Some ord, rx_GroupBuyTeam = tm\<rparr> w = (q, w')"
  obtains (refused) e where "q = Inl e" "w' = w"
  | (refunded) team rt x d where "tm = Some team"
      "GetRefundStrategy (gt_Status team) (mo_TradeOrderStatus ord) = Inr rt"
      "q = Inr (Some (refund_behavior req ord RefundBehaviorSuccess))"
      "refund_by r E rt (refund_order_of req ord team) (w_db w) = (Inr x, d)"
      "w' = refunded_world w d x"
proof (cases tm)
  case None
  with run refused show ?thesis by (auto simp: RefundOrderNodeFilter_Apply_def)
next
  case (Some team)
  show ?thesis
  proof (cases "GetRefundStrategy (gt_Status team) (mo_TradeOrderStatus ord)")
    case (Inl e)
    with run Some refused show ?thesis by (auto simp: RefundOrderNodeFilter_Apply_def)
  next
    case (Inr rt)
    from strategy_registered [OF this] obtain s where
      s: "all_strategies (NewTradeRepository r E) (Some safego_Go) (rt_Strategy rt) = Some s"
      by blast
    note st = strategy_run [OF Inr s]
    obtain x d where x: "refund_by r E rt (refund_order_of req ord team) (w_db w) = (x, d)" by force
    then have db: "on_db (refund_by r E rt (refund_order_of req ord team)) w = (x, w\<lparr>w_db := d\<rparr>)"
      by (simp add: on_db_def)
    from run Some Inr s st db have eq: "(q, w') = (case x of Inl e \<Rightarrow> (Inl e, w\<lparr>w_db := d\<rparr>)
        | Inr y \<Rightarrow> (Inr (Some (refund_behavior req ord RefundBehaviorSuccess)), refunded_world w d y))"
      by (auto simp: RefundOrderNodeFilter_Apply_def go_bind_def sendRefundNotify_def safego_Go_def
          refunded_world_def split: sum.splits option.splits)
    show ?thesis
    proof (cases x)
      case err: (Inl e)
      with x refund_by_error [OF M] have "d = w_db w" by blast
      with eq err refused show ?thesis by auto
    next
      case ok: (Inr y)
      with eq have "q = Inr (Some (refund_behavior req ord RefundBehaviorSuccess))"
        "w' = refunded_world w d y" by simp_all
      with refunded [OF Some Inr] x ok show ?thesis by blast
    qed
  qed
qed

lemma data_node_cases:
  assumes run: "DataNodeFilter_Apply (NewTradeRepository r E) Next req dc w = (q, w')"
    and M: "mysql_ok (rp_db r)"
  obtains (refused) e where "q = Inl e" "w' = w"
  | (unknown) "q = Inr None" "w' = w"
      "find (trade_no_of (rp_db r) (rcmd_UserID req) (rcmd_OutTradeNo req)) (db_lists (w_db w)) = None"
  | (found) ord tm l where
      "mo_TeamID ord = l_TeamID l" "mo_OrderID ord = l_OrderID l" "mo_TradeOrderStatus ord = l_Status l"
      "find (trade_no_of (rp_db r) (rcmd_UserID req) (rcmd_OutTradeNo req)) (db_lists (w_db w)) = Some l"
      "QueryGroupBuyTeamByTeamID (NewTradeRepository r E) (mo_TeamID ord) w = (Inr tm, w)"
      "Next req (dc\<lparr>rx_MarketPayOrder := Some ord, rx_GroupBuyTeam := tm\<rparr>) w = (q, w')"
  using run port_reads(1) unfolding DataNodeFilter_Apply_def
proof (cases rule: go_read_cases)
  case order: (goes_on x)
  show ?thesis
  proof (cases x)
    case None
    with order none_order [OF order(1) [unfolded None] M] show ?thesis by (intro that(2)) simp_all
  next
    case (Some ord)
    from order(1) [unfolded Some] M obtain l where l: "mo_TeamID ord = l_TeamID l" "mo_OrderID ord = l_OrderID l"
      "mo_TradeOrderStatus ord = l_Status l"
      "find (trade_no_of (rp_db r) (rcmd_UserID req) (rcmd_OutTradeNo req)) (db_lists (w_db w)) = Some l"
      by (rule find_order)
    from order(2) [unfolded Some option.case] port_reads(5) show ?thesis
    proof (cases rule: go_read_cases)
      case (goes_on tm)
      with l show ?thesis by (intro that(3)) simp_all
    qed (rule that(1))
  qed
qed (rule that(1))

lemma refund_service_cases:
  assumes M: "mysql_ok (rp_db r)"
    and run: "refund_RefundOrder (NewTradeRepository r E)
      (all_strategies (NewTradeRepository r E) (Some safego_Go)) cmd w = (q, w')"
  obtains (refused) e where "q = Inl e" "w' = w"
  | (unknown) "q = Inr None" "w' = w"
      "find (trade_no_of (rp_db r) (rcmd_UserID cmd) (rcmd_OutTradeNo cmd)) (db_lists (w_db w)) = None"
  | (repeat) l b where "q = Inr (Some b)" "w' = w" "rb_Behavior b = RefundBehaviorRepeat"
      "rb_OrderID b = l_OrderID l" "l_Status l = TradeOrderClose"
      "find (trade_no_of (rp_db r) (rcmd_UserID cmd) (rcmd_OutTradeNo cmd)) (db_lists (w_db w)) = Some l"
  | (refunded) l g rt x d b where "q = Inr (Some b)" "rb_Behavior b = RefundBehaviorSuccess"
      "rb_OrderID b = l_OrderID l" "l_Status l \<noteq> TradeOrderClose"
      "find (trade_no_of (rp_db r) (rcmd_UserID cmd) (rcmd_OutTradeNo cmd)) (db_lists (w_db w)) = Some l"
      "g \<in> set (db_orders (w_db w))" "sqlEq (rp_db r) (o_TeamID g) (l_TeamID l)"
      "GetRefundStrategy (o_Status g) (l_Status l) = Inr rt"
      "refund_by r E rt \<lparr>ro_UserID = rcmd_UserID cmd, ro_OrderID = l_OrderID l, ro_TeamID = l_TeamID l,
         ro_ActivityID = o_ActivityID g, ro_OutTradeNo = rcmd_OutTradeNo cmd\<rparr> (w_db w) = (Inr x, d)"
      "w' = refunded_world w d x"
proof -
  let ?node = "RefundOrderNodeFilter_Apply (all_strategies (NewTradeRepository r E) (Some safego_Go)) (zero_apply None)"
  from run have "DataNodeFilter_Apply (NewTradeRepository r E) (UniqueRefundNodeFilter_Apply ?node) cmd
      empty_refund_ctx w = (q, w')"
    by (simp add: refund_RefundOrder_def NewTradeRefundRuleFilter_def chain_of_foldr)
  then show ?thesis using M
  proof (cases rule: data_node_cases)
    case (found ord tm l)
    show ?thesis
    proof (cases "l_Status l = TradeOrderClose")
      case True
      with found have "q = Inr (Some (refund_behavior cmd ord RefundBehaviorRepeat))" "w' = w"
        by (simp_all add: UniqueRefundNodeFilter_Apply_def)
      then show ?thesis
        by (rule repeat [of _ l]) (use True found in \<open>simp_all add: refund_behavior_def\<close>)
    next
      case False
      with found have "?node cmd \<lparr>rx_MarketPayOrder = Some ord, rx_GroupBuyTeam = tm\<rparr> w = (q, w')"
        by (simp add: UniqueRefundNodeFilter_Apply_def empty_refund_ctx_def)
      with M show ?thesis
      proof (cases rule: refund_node_cases)
        case node: (refunded team rt x d)
        from found(5) [unfolded node(1)] M obtain g where g: "g \<in> set (db_orders (w_db w))"
          "sqlEq (rp_db r) (o_TeamID g) (mo_TeamID ord)" "team = team_entity r g"
          by (rule find_team)
        show ?thesis
          by (rule refunded [of "refund_behavior cmd ord RefundBehaviorSuccess" l g rt x d])
            (use node False found g in
              \<open>simp_all add: refund_behavior_def refund_order_of_def team_entity_def\<close>)
      qed (rule that(1))
    qed
  qed (rule that(1), assumption+, rule that(2))
qed

text \<open>A closed order: its row gets the new status, every row with another order number is as before.\<close>

lemma close_effect:
  assumes M: "mysql_ok (rp_db r)" and inv: "teams_ok (rp_db r) d"
    and ran: "refund_by r E rt order d = (Inr x, d')"
    and l: "l \<in> set (db_lists d)" "sqlEq (rp_db r) (l_UserID l) (ro_UserID order)"
      "l_OrderID l = ro_OrderID order"
    and rt: "GetRefundStrategy ts (l_Status l) = Inr rt"
  shows "close_set E l \<in> set (db_lists d')"
    and "l2 \<in> set (db_lists d) \<Longrightarrow> \<not> sqlEq (rp_db r) (l_OrderID l2) (l_OrderID l) \<Longrightarrow> l2 \<in> set (db_lists d')"
proof -
  from rt have "refund_from rt = l_Status l"
    by (auto simp: GetRefundStrategy_def refund_from_def split: if_splits)
  with l have "close_hit (rp_db r) order (refund_from rt) l" by simp
  with refund_by_Inr [OF M inv ran refund_types_of [OF rt]] l(1)
  show "close_set E l \<in> set (db_lists d')" by (auto simp: upd_where_def)
  show "l2 \<in> set (db_lists d')" if "l2 \<in> set (db_lists d)" "\<not> sqlEq (rp_db r) (l_OrderID l2) (l_OrderID l)"
    using refund_by_Inr [OF M inv ran refund_types_of [OF rt]] that l(3) by (auto simp: upd_where_def)
qed

text \<open>
  C16. What a refund does end to end. When it fails, nothing changes. Without an order of the user
  with the trade number it does nothing and returns no result; on a closed order it says so and
  changes nothing; otherwise the order is closed, every order with another number is as before, and
  one notify task, naming the order and the kind of the refund, is written and handed to the
  background.
\<close>

theorem refund_service_outcome:
  assumes M: "mysql_ok (rp_db r)" and inv: "teams_ok (rp_db r) (w_db w)"
    and run: "refund_RefundOrder (NewTradeRepository r E)
      (all_strategies (NewTradeRepository r E) (Some safego_Go)) cmd w = (q, w')"
  shows "case q of
      Inl e \<Rightarrow> w' = w
    | Inr None \<Rightarrow> w' = w \<and>
        (\<forall>l \<in> set (db_lists (w_db w)). \<not> trade_no_of (rp_db r) (rcmd_UserID cmd) (rcmd_OutTradeNo cmd) l)
    | Inr (Some b) \<Rightarrow> \<exists>l \<in> set (db_lists (w_db w)).
        trade_no_of (rp_db r) (rcmd_UserID cmd) (rcmd_OutTradeNo cmd) l \<and> l_OrderID l = rb_OrderID b \<and>
        (if l_Status l = TradeOrderClose then rb_Behavior b = RefundBehaviorRepeat \<and> w' = w
         else rb_Behavior b = RefundBehaviorSuccess \<and>
           l\<lparr>l_Status := TradeOrderClose, l_UpdateTime := ce_now E 0\<rparr> \<in> set (db_lists (w_db w')) \<and>
           (\<forall>l2 \<in> set (db_lists (w_db w)).
              \<not> sqlEq (rp_db r) (l_OrderID l2) (l_OrderID l) \<longrightarrow> l2 \<in> set (db_lists (w_db w'))) \<and>
           (\<exists>g \<in> set (db_orders (w_db w)). \<exists>rt order i. sqlEq (rp_db r) (o_TeamID g) (l_TeamID l) \<and>
              GetRefundStrategy (o_Status g) (l_Status l) = Inr rt \<and> ro_OrderID order = l_OrderID l \<and>
              w_async w' = w_async w @
                [toNotifyEntity (refund_task r E order (refund_category rt) (rt_Code rt))] \<and>
              db_tasks (w_db w') = db_tasks (w_db w) @
                [(refund_task r E order (refund_category rt) (rt_Code rt))\<lparr>t_ID := i\<rparr>]))"
  using M run
proof (cases rule: refund_service_cases)
  case unknown
  then show ?thesis by (simp add: find_None_iff)
next
  case (repeat l b)
  from repeat(6) have "l \<in> set (db_lists (w_db w))" "trade_no_of (rp_db r) (rcmd_UserID cmd) (rcmd_OutTradeNo cmd) l"
    by (auto simp: find_Some_iff)
  with repeat show ?thesis by auto
next
  case (refunded l g rt x d b)
  let ?order = "\<lparr>ro_UserID = rcmd_UserID cmd, ro_OrderID = l_OrderID l, ro_TeamID = l_TeamID l,
     ro_ActivityID = o_ActivityID g, ro_OutTradeNo = rcmd_OutTradeNo cmd\<rparr>"
  from refunded(5) have l: "l \<in> set (db_lists (w_db w))"
    "trade_no_of (rp_db r) (rcmd_UserID cmd) (rcmd_OutTradeNo cmd) l"
    by (auto simp: find_Some_iff)
  then have "sqlEq (rp_db r) (l_UserID l) (ro_UserID ?order)" "l_OrderID l = ro_OrderID ?order"
    by (simp_all add: trade_no_of_def)
  note closed = close_effect [OF M inv refunded(9) l(1) this refunded(8)]
  from refund_by_Inr [OF M inv refunded(9) refund_types_of [OF refunded(8)]] obtain i where
    x: "x = Some (toNotifyEntity (refund_task r E ?order (refund_category rt) (rt_Code rt)))"
    "db_tasks d = db_tasks (w_db w) @ [(refund_task r E ?order (refund_category rt) (rt_Code rt))\<lparr>t_ID := i\<rparr>]"
    by blast
  then have w': "w_db w' = d" "w_async w' = w_async w @
      [toNotifyEntity (refund_task r E ?order (refund_category rt) (rt_Code rt))]"
    using refunded(10) by (simp_all add: refunded_world_def)
  have told: "\<exists>g \<in> set (db_orders (w_db w)). \<exists>rt order i. sqlEq (rp_db r) (o_TeamID g) (l_TeamID l) \<and>
      GetRefundStrategy (o_Status g) (l_Status l) = Inr rt \<and> ro_OrderID order = l_OrderID l \<and>
      w_async w' = w_async w @ [toNotifyEntity (refund_task r E order (refund_category rt) (rt_Code rt))] \<and>
      db_tasks (w_db w') = db_tasks (w_db w) @
        [(refund_task r E order (refund_category rt) (rt_Code rt))\<lparr>t_ID := i\<rparr>]"
    using refunded(6,7,8) x(2) w' by (intro bexI [of _ g] exI [of _ rt] exI [of _ ?order] exI [of _ i]) simp_all
  show ?thesis
    unfolding refunded(1) sum.case option.case
    using l refunded(2,3,4) closed told unfolding w'(1) by (intro bexI [of _ l]) simp_all
qed simp

text \<open>Only a team in progress is completed.\<close>

lemma settle_hit_late:
  assumes M: "mysql_ok (rp_db r)" and inv: "teams_ok (rp_db r) d"
    and fin: "settle_complete r E agg (settled_db (rp_db r) E agg d) = (Inr y, d')"
    and g: "g \<in> set (db_orders d)" "o_Status g \<noteq> GroupBuyProgress"
  shows "\<not> sqlEq (rp_db r) (o_TeamID g) (settle_team agg)"
proof
  assume eq: "sqlEq (rp_db r) (o_TeamID g) (settle_team agg)"
  have keys: "distinct (map (\<lambda>g. my_ck (rp_db r) (o_TeamID g)) (db_orders d))"
    using inv unfolding teams_ok_def by blast
  from fin M have "cnt (formed_hit (rp_db r) agg) (db_orders (settled_db (rp_db r) E agg d)) = 1"
    by (rule settle_complete_Inr)
  then have "0 < cnt (formed_hit (rp_db r) agg) (db_orders (settled_db (rp_db r) E agg d))" by simp
  then obtain g0 where g0: "g0 \<in> set (db_orders d)" "sqlEq (rp_db r) (o_TeamID g0) (settle_team agg)"
    "o_Status g0 = 0"
    unfolding cnt_pos_iff by (auto simp: settled_db_def upd_where_def split: if_splits)
  with filter_key_unique [OF keys g0(1) g(1)] eq g(2) show False by (simp add: sqlEq_def)
qed

lemma refund_outcome_witness:
  "\<exists>b w'. refund_RefundOrder (NewTradeRepository refRepository (ex_env 1))
     (all_strategies (NewTradeRepository refRepository (ex_env 1)) (Some safego_Go))
     \<lparr>rcmd_UserID = ''ann'', rcmd_OutTradeNo = ''ann-1'', rcmd_Source = ''s01'', rcmd_Channel = ''c01''\<rparr>
     (ex_world\<lparr>w_db := ex_db3\<rparr>) = (Inr (Some b), w') \<and> rb_OrderID b = ''111111111111'' \<and>
     rb_Behavior b = RefundBehaviorSuccess \<and> length (db_tasks (w_db w')) = 1"
proof -
  let ?run = "refund_RefundOrder (NewTradeRepository refRepository (ex_env 1))
     (all_strategies (NewTradeRepository refRepository (ex_env 1)) (Some safego_Go))
     \<lparr>rcmd_UserID = ''ann'', rcmd_OutTradeNo = ''ann-1'', rcmd_Source = ''s01'', rcmd_Channel = ''c01''\<rparr>
     (ex_world\<lparr>w_db := ex_db3\<rparr>)"
  have "\<exists>b w'. ?run = (Inr (Some b), w')"
    by (simp add: refund_RefundOrder_def NewTradeRefundRuleFilter_def chain_of_foldr empty_refund_ctx_def
        DataNodeFilter_Apply_def UniqueRefundNodeFilter_Apply_def RefundOrderNodeFilter_Apply_def
        GetRefundStrategy_def Paid2RefundStrategy_def sendRefundNotify_def safego_Go_def
        NewTradeRepository_def repo_QueryMarketPayOrderEntityByOutTradeNo_def
        repo_QueryGroupBuyTeamByTeamID_def team_entity_def on_db_def ex_world_def refund_order_of_def trade_eval ex_defs)
  then obtain b w' where run: "?run = (Inr (Some b), w')" by blast
  have "teams_ok (rp_db refRepository) (w_db (ex_world\<lparr>w_db := ex_db3\<rparr>))" using ex_teams_ok3 by simp
  from refund_service_outcome [OF _ this run] mysql_ok_ref
  have "rb_OrderID b = ''111111111111''" "rb_Behavior b = RefundBehaviorSuccess"
    "length (db_tasks (w_db w')) = 1"
    by (auto simp: trade_no_of_def ex_defs)
  with run show ?thesis by blast
qed

text \<open>
  C17. Whoever joins a team that a refund has left complete-but-refunded (status 2 or 3) is stuck
  when the join takes the last place: its unpaid order can neither be refunded, no strategy fits an
  unpaid order of such a team, nor be settled, as the settlement would complete a team that is not
  in progress.
\<close>

theorem late_joiner_is_stuck:
  assumes M: "mysql_ok (rp_db r)" and inv: "teams_ok (rp_db r) (w_db w)"
    and l: "find (trade_no_of (rp_db r) u n) (db_lists (w_db w)) = Some l" "l_Status l = TradeOrderCreate"
    and g: "g \<in> set (db_orders (w_db w))" "sqlEq (rp_db r) (o_TeamID g) (l_TeamID l)"
      "o_Status g \<noteq> GroupBuyProgress" "o_TargetCount g - o_CompleteCount g = 1"
    and req: "rcmd_UserID cmd = u" "rcmd_OutTradeNo cmd = n" "ps_UserID pay = u" "ps_OutTradeNo pay = n"
  shows "(\<exists>e. refund_RefundOrder (NewTradeRepository r E)
        (all_strategies (NewTradeRepository r E) (Some safego_Go)) cmd w = (Inl e, w)) \<and>
    (\<exists>e. settle_SettlementMarketPayOrder (NewTradeRepository r E) (Some safego_Go) pay w = (Inl e, w))"
proof
  have keys: "distinct (map (\<lambda>g. my_ck (rp_db r) (o_TeamID g)) (db_orders (w_db w)))"
    using inv unfolding teams_ok_def by blast
  have same: "g' = g" if "g' \<in> set (db_orders (w_db w))" "sqlEq (rp_db r) (o_TeamID g') (l_TeamID l)" for g'
    using filter_key_unique [OF keys that(1) g(1)] that(2) g(2) by (simp add: sqlEq_def)
  show "\<exists>e. refund_RefundOrder (NewTradeRepository r E)
      (all_strategies (NewTradeRepository r E) (Some safego_Go)) cmd w = (Inl e, w)"
  proof (cases "refund_RefundOrder (NewTradeRepository r E)
      (all_strategies (NewTradeRepository r E) (Some safego_Go)) cmd w")
    case (Pair q w')
    from M this show ?thesis
    proof (cases rule: refund_service_cases)
      case (refunded l' g' rt x d b)
      then have "l' = l" using l(1) req by simp
      with refunded(6,7) same have "g' = g" by blast
      with refunded(8) \<open>l' = l\<close> l(2) g(3) show ?thesis by (simp add: GetRefundStrategy_def)
    qed (use l req Pair in simp_all)
  qed
  show "\<exists>e. settle_SettlementMarketPayOrder (NewTradeRepository r E) (Some safego_Go) pay w = (Inl e, w)"
  proof (cases "settle_SettlementMarketPayOrder (NewTradeRepository r E) (Some safego_Go) pay w")
    case (Pair q w')
    from M this show ?thesis
    proof (cases rule: settle_service_cases)
      case (settled l' g' y d res)
      then have l': "l' = l" using l(1) req by simp
      with settled(8,9) same have g': "g' = g" by blast
      let ?agg = "settle_agg pay (team_entity r g)"
      note tx = settlement_Inr [OF M settled(12) [unfolded g']]
      from settle_tx_Inr(3) [OF tx M] g(4)
      have fin: "settle_complete r E ?agg (settled_db (rp_db r) E ?agg (w_db w)) = (Inr y, d)"
        by (simp add: settle_agg_def team_entity_def)
      from settle_hit_late [OF M inv fin g(1) g(3)] show ?thesis
        by (simp add: settle_agg_def team_entity_def)
    qed (use Pair in simp_all)
  qed
qed

text \<open>A team of two, both paid, then one refunded, joined by \<open>carol\<close>: every step a transaction that succeeds.\<close>

definition ex_paid_db :: db where
  "ex_paid_db = snd (repo_SettlementMarketPayOrder refRepository (ex_env 1) (ex_settle ''bob'' 1) ex_db3)"

definition ex_refunded_db :: db where
  "ex_refunded_db = snd (repo_PaidTeam2Refund refRepository (ex_env 1)
     (BuildPaidTeam2RefundAggregate (ex_refund ''ann'' ''111111111111'') (-1) (-1)) ex_paid_db)"

definition ex_late_db :: db where
  "ex_late_db = snd (repo_LockMarketPayOrder refRepository (ex_env 3) (ex_lock ''carol'' ''11111111'') ex_refunded_db)"

lemma ex_late_reach: "(trade_step refRepository)\<^sup>*\<^sup>* ex_db ex_late_db"
proof -
  have "trade_step refRepository ex_db3 ex_paid_db"
    unfolding ex_paid_db_def
    by (rule trade_step.settle [OF surjective_pairing]) (simp add: pay_in_team_def ex_defs)
  moreover have "trade_step refRepository ex_paid_db ex_refunded_db"
    unfolding ex_refunded_db_def
    by (rule trade_step.paidTeam [OF surjective_pairing])
      (simp add: order_in_team_def ex_paid_db_def trade_eval ex_defs ex_refund_def)
  moreover have "trade_step refRepository ex_refunded_db ex_late_db"
    unfolding ex_late_db_def by (rule trade_step.lock [OF surjective_pairing]) (simp add: ex_lock_def)
  ultimately show ?thesis using ex_reach by (meson rtranclp.rtrancl_into_rtrancl)
qed

lemma ex_late_rows:
  "\<exists>l g. find (trade_no_of refMySQL ''carol'' ''carol-1'') (db_lists ex_late_db) = Some l \<and>
     l_Status l = TradeOrderCreate \<and> g \<in> set (db_orders ex_late_db) \<and>
     sqlEq refMySQL (o_TeamID g) (l_TeamID l) \<and> o_Status g = GroupBuyCompleteFail \<and>
     o_TargetCount g - o_CompleteCount g = 1"
  by (simp add: ex_late_db_def ex_refunded_db_def ex_paid_db_def trade_no_of_def trade_eval ex_defs ex_refund_def)

lemma late_joiner_witness:
  "(trade_step refRepository)\<^sup>*\<^sup>* ex_db ex_late_db \<and>
   (\<exists>e. settle_SettlementMarketPayOrder (NewTradeRepository refRepository (ex_env 1)) (Some safego_Go)
     (ags_TradePaySuccessEntity (ex_settle ''carol'' 1)) (ex_world\<lparr>w_db := ex_late_db\<rparr>)
     = (Inl e, ex_world\<lparr>w_db := ex_late_db\<rparr>))"
proof -
  have inv: "teams_ok (rp_db refRepository) (w_db (ex_world\<lparr>w_db := ex_late_db\<rparr>))"
    using trade_steps_teams_ok [OF ex_late_reach] mysql_ok_ref by (simp add: teams_ok_def ex_db_def)
  from ex_late_rows obtain l g where
    "find (trade_no_of (rp_db refRepository) ''carol'' ''carol-1'')
       (db_lists (w_db (ex_world\<lparr>w_db := ex_late_db\<rparr>))) = Some l"
    "l_Status l = TradeOrderCreate" "g \<in> set (db_orders (w_db (ex_world\<lparr>w_db := ex_late_db\<rparr>)))"
    "sqlEq (rp_db refRepository) (o_TeamID g) (l_TeamID l)" "o_Status g \<noteq> GroupBuyProgress"
    "o_TargetCount g - o_CompleteCount g = 1"
    by auto
  from late_joiner_is_stuck [OF _ inv this, of
      "\<lparr>rcmd_UserID = ''carol'', rcmd_OutTradeNo = ''carol-1'', rcmd_Source = '''', rcmd_Channel = ''''\<rparr>"
      "ags_TradePaySuccessEntity (ex_settle ''carol'' 1)" "ex_env 1"] mysql_ok_ref ex_late_reach
  show ?thesis by (simp add: ex_settle_def)
qed

end
