(* ===== verification/Listener.thy ===== *)
theory Listener
  imports Notify_ACL Team_Stock
begin

text \<open>
  The consumers of the broker (\<open>internal/trigger/listener/listeners.go\<close>) and the message of a refund
  (\<open>valobj.TeamRefundSuccess\<close>) as JSON. A delivery is the JSON value its bytes hold, or \<open>None\<close> when
  they hold none; \<open>json.Unmarshal\<close> into the message is modelled on these values (strings are taken as
  valid UTF-8). Logging is left out.
\<close>

section \<open>The message\<close>

text \<open>
  How \<open>encoding/json\<close> folds a key before it looks the field up: ASCII letters in upper case, and
  the two other characters with a letter among their simple foldings (U+017F and U+212A).
\<close>

definition upper :: "char \<Rightarrow> char" where
  "upper c = (if c \<in> set ''abcdefghijklmnopqrstuvwxyz'' then char_of (of_char c - 32 :: nat) else c)"

fun foldName :: "string \<Rightarrow> string" where
  "foldName [] = []"
| "foldName (c # cs) =
     (if c = CHR 0xC5 \<and> take 1 cs = [CHR 0xBF] then CHR ''S'' # foldName (drop 1 cs)
      else if c = CHR 0xE2 \<and> take 2 cs = [CHR 0x84, CHR 0xAA] then CHR ''K'' # foldName (drop 2 cs)
      else upper c # foldName cs)"

definition field_is :: "string \<Rightarrow> string \<Rightarrow> bool" where
  "field_is name key \<longleftrightarrow> foldName key = foldName name"

text \<open>A value into a string or an integer field: \<open>null\<close> leaves it, the wrong kind is an error.\<close>

fun put_string :: "json \<Rightarrow> (string \<Rightarrow> 'm \<Rightarrow> 'm) \<Rightarrow> 'm \<Rightarrow> 'm option" where
  "put_string (JStr s) put m = Some (put s m)"
| "put_string JNull put m = Some m"
| "put_string _ put m = None"

fun put_int64 :: "json \<Rightarrow> (int64 \<Rightarrow> 'm \<Rightarrow> 'm) \<Rightarrow> 'm \<Rightarrow> 'm option" where
  "put_int64 (JNum n) put m = (if - (2 ^ 63) \<le> n \<and> n < 2 ^ 63 then Some (put (word_of_int n) m) else None)"
| "put_int64 JNull put m = Some m"
| "put_int64 _ put m = None"

definition put_field :: "string \<Rightarrow> json \<Rightarrow> TeamRefundSuccess \<Rightarrow> TeamRefundSuccess option" where
  "put_field key v m =
     (if field_is ''type'' key then put_string v (\<lambda>s m. m\<lparr>trs_Type := s\<rparr>) m
      else if field_is ''userId'' key then put_string v (\<lambda>s m. m\<lparr>trs_UserID := s\<rparr>) m
      else if field_is ''teamId'' key then put_string v (\<lambda>s m. m\<lparr>trs_TeamID := s\<rparr>) m
      else if field_is ''orderId'' key then put_string v (\<lambda>s m. m\<lparr>trs_OrderID := s\<rparr>) m
      else if field_is ''outTradeNo'' key then put_string v (\<lambda>s m. m\<lparr>trs_OutTradeNo := s\<rparr>) m
      else if field_is ''activityId'' key then put_int64 v (\<lambda>n m. m\<lparr>trs_ActivityID := n\<rparr>) m
      else Some m)"

fun put_fields :: "(string \<times> json) list \<Rightarrow> TeamRefundSuccess \<Rightarrow> TeamRefundSuccess option" where
  "put_fields [] m = Some m"
| "put_fields ((k, v) # kvs) m = (case put_field k v m of None \<Rightarrow> None | Some m' \<Rightarrow> put_fields kvs m')"

definition zero_message :: TeamRefundSuccess where
  "zero_message = \<lparr>trs_Type = '''', trs_UserID = '''', trs_TeamID = '''', trs_OrderID = '''',
     trs_OutTradeNo = '''', trs_ActivityID = 0\<rparr>"

definition Unmarshal_TeamRefundSuccess :: "json option \<Rightarrow> TeamRefundSuccess option" where
  "Unmarshal_TeamRefundSuccess body =
     (case body of
        Some (JObj kvs) \<Rightarrow> put_fields kvs zero_message
      | Some JNull \<Rightarrow> Some zero_message
      | _ \<Rightarrow> None)"

section \<open>The consumers\<close>

definition team_success_handler :: "json option \<Rightarrow> ('w, unit) go" where
  "team_success_handler body = go_ret ()"

definition team_refund_handler :: "'w StrategyMap \<Rightarrow> json option \<Rightarrow> ('w, unit) go" where
  "team_refund_handler strategies body =
     (case Unmarshal_TeamRefundSuccess body of
        None \<Rightarrow> go_err (OtherError ''json'')
      | Some msg \<Rightarrow> refund_RestoreTeamLockStock strategies msg)"

text \<open>
  The consumers started, each queue with its handler, and the error of the first queue that cannot be
  consumed.
\<close>

definition StartConsumers ::
    "mq_Client option \<Rightarrow> 'w StrategyMap \<Rightarrow> (string \<times> (json option \<Rightarrow> ('w, unit) go)) list \<times> unit res" where
  "StartConsumers client strategies =
     (case client of
        None \<Rightarrow> ([], Inr ())
      | Some c \<Rightarrow>
          (case cl_consume c (TeamSuccessQueue c) of
             Some err \<Rightarrow> ([], Inl err)
           | None \<Rightarrow>
               (case cl_consume c (TeamRefundQueue c) of
                  Some err \<Rightarrow> ([(TeamSuccessQueue c, team_success_handler)], Inl err)
                | None \<Rightarrow>
                    ([(TeamSuccessQueue c, team_success_handler),
                      (TeamRefundQueue c, team_refund_handler strategies)], Inr ()))))"

section \<open>The message of a refund task\<close>

lemma message_of_refund_task:
  "Unmarshal_TeamRefundSuccess (Some (t_ParameterJSON (refund_task r E order category refundType))) =
    Some \<lparr>trs_Type = refundType, trs_UserID = ro_UserID order, trs_TeamID = ro_TeamID order,
      trs_OrderID = ro_OrderID order, trs_OutTradeNo = ro_OutTradeNo order, trs_ActivityID = ro_ActivityID order\<rparr>"
proof -
  have "- (2 ^ 63) \<le> sint (ro_ActivityID order)" "sint (ro_ActivityID order) < 2 ^ 63"
    using sint_ge [of "ro_ActivityID order"] sint_lt [of "ro_ActivityID order"] by simp_all
  then show ?thesis
    by (simp add: Unmarshal_TeamRefundSuccess_def refund_task_def put_field_def field_is_def upper_def
        zero_message_def)
qed

lemma consume_idle:
  "handler b w = (Inr (), w) \<Longrightarrow> mq_Consume handler (replicate n b) w = (replicate n True, w)"
  by (induction n) (simp_all add: consume_one_def)

lemma consume_refund:
  assumes "Unmarshal_TeamRefundSuccess body = Some msg" and "GetRefundTypeByCode (trs_Type msg) = Inr rt"
  shows "team_refund_handler (all_strategies (NewTradeRepository r E) spawn) body =
    on_redis (repo_Refund2AddRecovery r (rkey (trs_ActivityID msg) (trs_TeamID msg)) (trs_OrderID msg))"
  using assms by (simp add: team_refund_handler_def RestoreTeamLockStock_all doReverseStock_def NewTradeRepository_def)

section \<open>Properties\<close>

text \<open>
  The message a refund writes is read back by the consumer as it was written, whatever the order
  and whichever of the kinds of refund made it, and finds the kind of the refund again.
\<close>

lemma refund_message_round_trip:
  assumes "GetRefundStrategy teamStatus orderStatus = Inr rt"
  shows "\<exists>msg. Unmarshal_TeamRefundSuccess
      (Some (t_ParameterJSON (refund_task r E order category (rt_Code rt)))) = Some msg \<and>
    trs_UserID msg = ro_UserID order \<and> trs_TeamID msg = ro_TeamID order \<and> trs_OrderID msg = ro_OrderID order \<and>
    trs_OutTradeNo msg = ro_OutTradeNo order \<and> trs_ActivityID msg = ro_ActivityID order \<and>
    GetRefundTypeByCode (trs_Type msg) = Inr rt"
  using GetRefundTypeByCode_rt_Code [OF assms] by (simp add: message_of_refund_task)

lemma refund_message_witness:
  "\<exists>msg. Unmarshal_TeamRefundSuccess (Some (t_ParameterJSON (refund_task refRepository (ex_env 1)
     (ex_refund ''ann'' ''111111111111'') TaskTradePaid2Refund (rt_Code RefundPaidUnformed)))) = Some msg \<and>
   trs_UserID msg = ''ann'' \<and> trs_ActivityID msg = 100123"
proof -
  have "GetRefundStrategy 0 1 = Inr RefundPaidUnformed" by (simp add: GetRefundStrategy_def)
  from refund_message_round_trip [OF this, of refRepository "ex_env 1" "ex_refund ''ann'' ''111111111111''"
      TaskTradePaid2Refund]
  show ?thesis by (auto simp: ex_refund_def)
qed

text \<open>
  C22. With Redis up, the refund lock of the order still free and the counters of the team in order
  and below their limit, let the broker deliver the message of a refund any number of times, with
  nothing in between: every delivery is acknowledged, and all of them together raise the recovered
  places of the team by one.
\<close>

theorem redeliveries_give_back_once:
  assumes R: "redis_ok (rp_redis r)" "redis_up (rp_redis r)" and K: "stock_ok a t (w_redis w)"
    and room: "recovered a t (w_redis w) + 1 < int64_max"
    and fresh: "w_redis w (refund_lock_key oid) = None" "oid \<noteq> ''''"
    and msg: "Unmarshal_TeamRefundSuccess body = Some msg" "trs_ActivityID msg = a" "trs_TeamID msg = t"
      "trs_OrderID msg = oid" "GetRefundTypeByCode (trs_Type msg) = Inr rt"
    and run: "mq_Consume (team_refund_handler (all_strategies (NewTradeRepository r E) spawn))
      (replicate (Suc n) body) w = (acks, w')"
  shows "acks = replicate (Suc n) True \<and> recovered a t (w_redis w') = recovered a t (w_redis w) + 1 \<and>
    used a t (w_redis w') = used a t (w_redis w) \<and> w_db w' = w_db w"
proof -
  let ?h = "team_refund_handler (all_strategies (NewTradeRepository r E) spawn)"
  let ?K = "(w_redis w)(refund_lock_key oid \<mapsto> VInt 1 (Some 2592000),
    rkey a t \<mapsto> VInt (recovered a t (w_redis w) + 1) (ttl_of (w_redis w (rkey a t))))"
  have h: "?h body v = (case repo_Refund2AddRecovery r (rkey a t) oid (w_redis v) of (q, K) \<Rightarrow> (q, v\<lparr>w_redis := K\<rparr>))" for v
    using consume_refund [OF msg(1,5), of r E spawn] msg(2-4) by (simp add: on_redis_def)
  have "repo_Refund2AddRecovery r (rkey a t) oid ?K = (Inr (), ?K)"
    using SetNX_up [OF R, of 2592000 "refund_lock_key oid" ?K] fresh
    by (simp add: repo_Refund2AddRecovery_def Let_def go_bind_def)
  then have "?h body (w\<lparr>w_redis := ?K\<rparr>) = (Inr (), w\<lparr>w_redis := ?K\<rparr>)" unfolding h by simp
  note again = consume_idle [where handler = ?h, OF this, of n]
  have "?h body w = (Inr (), w\<lparr>w_redis := ?K\<rparr>)"
    unfolding h using Refund2AddRecovery_up [OF R K room fresh(2)] fresh(1) by simp
  then have "mq_Consume ?h (replicate (Suc n) body) w = (replicate (Suc n) True, w\<lparr>w_redis := ?K\<rparr>)"
    using again by (simp add: consume_one_def del: fun_upd_apply)
  with run have "acks = replicate (Suc n) True" "w' = w\<lparr>w_redis := ?K\<rparr>" by simp_all
  then show ?thesis by simp
qed

lemma redeliveries_witness:
  "\<exists>acks w'. mq_Consume (team_refund_handler (all_strategies (NewTradeRepository refRepository (ex_env 1)) None))
     (replicate 3 (Some (t_ParameterJSON (refund_task refRepository (ex_env 1)
        (ex_refund ''ann'' ''111111111111'') TaskTradePaid2Refund (rt_Code RefundPaidUnformed))))) ex_world
     = (acks, w') \<and> acks = [True, True, True] \<and> recovered 100123 ''11111111'' (w_redis w') = 1"
proof -
  let ?body = "Some (t_ParameterJSON (refund_task refRepository (ex_env 1)
    (ex_refund ''ann'' ''111111111111'') TaskTradePaid2Refund (rt_Code RefundPaidUnformed)))"
  obtain acks w' where run: "mq_Consume (team_refund_handler
      (all_strategies (NewTradeRepository refRepository (ex_env 1)) None)) (replicate (Suc 2) ?body) ex_world = (acks, w')"
    by force
  have rt: "GetRefundTypeByCode (rt_Code RefundPaidUnformed) = Inr RefundPaidUnformed"
    by (rule GetRefundTypeByCode_rt_Code [of 0 1]) (simp add: GetRefundStrategy_def)
  have K: "w_redis ex_world = Map.empty" by (simp add: ex_world_def)
  note ok = fresh_stock_ok [OF ex_stock_fresh, of 100123 "''11111111''"]
  from redeliveries_give_back_once [OF _ _ _ _ _ _ message_of_refund_task _ _ _ _ run, of 100123 "''11111111''"
      "''111111111111''" RefundPaidUnformed] rt K ok redis_ok_ref redis_up_ref
  have "acks = replicate (Suc 2) True" "recovered 100123 ''11111111'' (w_redis w') = 1"
    by (simp_all add: ex_refund_def int64_max_def)
  with run show ?thesis by (simp add: numeral_2_eq_2 numeral_3_eq_3)
qed

end
