(* ===== verification/Jobs.thy ===== *)
theory Jobs
  imports Listener
begin

text \<open>
  The scheduled jobs (\<open>internal/trigger/job/jobs.go\<close>), one run of each: the retry of notify tasks and
  the refund of orders that timed out unpaid, each under a distributed lock and under
  \<open>safego.Recover\<close>, which ends the run on a panic. The label of a run is the one it counts in the
  metrics. The tickers that start the runs, and logging, are left out.
\<close>

section \<open>The interface of the refund service\<close>

record 'w ITradeRefundOrderService =
  rs_RefundOrder :: "TradeRefundCommandEntity \<Rightarrow> ('w, TradeRefundBehaviorEntity option) go"
  rs_RestoreTeamLockStock :: "TeamRefundSuccess \<Rightarrow> ('w, unit) go"
  rs_QueryTimeoutUnpaidOrderList :: "('w, TimeoutUnpaidOrderEntity list) go"

definition NewTradeRefundOrderService ::
    "'w ITradeRepository \<Rightarrow> 'w StrategyMap \<Rightarrow> 'w ITradeRefundOrderService" where
  "NewTradeRefundOrderService repo strategies =
     \<lparr>rs_RefundOrder = refund_RefundOrder repo strategies,
      rs_RestoreTeamLockStock = refund_RestoreTeamLockStock strategies,
      rs_QueryTimeoutUnpaidOrderList = refund_QueryTimeoutUnpaidOrderList repo\<rparr>"

section \<open>The jobs\<close>

text \<open>The interval of a job, in seconds.\<close>

definition NewNotifyJob_interval :: "int \<Rightarrow> int" where
  "NewNotifyJob_interval intervalSec = (if intervalSec \<le> 0 then 30 else intervalSec)"

definition NewTimeoutRefundJob_interval :: "int \<Rightarrow> int" where
  "NewTimeoutRefundJob_interval intervalSec = (if intervalSec \<le> 0 then 60 else intervalSec)"

datatype job_label = JobSkipLock | JobError | JobSuccess (job_success: int) (job_fail: int) | JobPanic

text \<open>\<open>safego.Recover\<close>, deferred around the run.\<close>

definition recovered_run :: "(job_label res \<times> world) option \<Rightarrow> (job_label \<times> world) option" where
  "recovered_run r = map_option (\<lambda>(q, w). (case q of Inl _ \<Rightarrow> JobPanic | Inr l \<Rightarrow> l, w)) r"

definition notify_body :: "world ITradeRepository \<Rightarrow> world ITradePort \<Rightarrow> (world, job_label) go" where
  "notify_body repo port w =
     (case ExecNotifyJob repo port None w of
        (Inl (Panic p), w') \<Rightarrow> (Inl (Panic p), w')
      | (Inl err, w') \<Rightarrow> (Inr JobError, w')
      | (Inr result, w') \<Rightarrow> (Inr (JobSuccess (case result ''waitCount'' of Some n \<Rightarrow> n | None \<Rightarrow> 0) 0), w'))"

definition NotifyJob_exec ::
    "redis \<Rightarrow> lock_env \<Rightarrow> world ITradeRepository \<Rightarrow> world ITradePort \<Rightarrow> world \<Rightarrow> (job_label \<times> world) option" where
  "NotifyJob_exec R L repo port w =
     recovered_run (with_lock R L ''group_buy_market_notify_job_exec'' 3000 50 JobSkipLock
       (notify_body repo port) w)"

definition timeout_command :: "TimeoutUnpaidOrderEntity \<Rightarrow> TradeRefundCommandEntity" where
  "timeout_command item =
     \<lparr>rcmd_UserID = tu_UserID item, rcmd_OutTradeNo = tu_OutTradeNo item,
      rcmd_Source = or_default (tu_Source item) ''s01'', rcmd_Channel = or_default (tu_Channel item) ''c01''\<rparr>"

fun refund_items ::
    "'w ITradeRefundOrderService \<Rightarrow> TimeoutUnpaidOrderEntity list \<Rightarrow> int \<Rightarrow> int \<Rightarrow> ('w, job_label) go" where
  "refund_items svc [] success fail w = (Inr (JobSuccess success fail), w)"
| "refund_items svc (item # items) success fail w =
     (case rs_RefundOrder svc (timeout_command item) w of
        (Inl (Panic p), w') \<Rightarrow> (Inl (Panic p), w')
      | (Inl err, w') \<Rightarrow> refund_items svc items success (fail + 1) w'
      | (Inr _, w') \<Rightarrow> refund_items svc items (success + 1) fail w')"

definition timeout_body :: "'w ITradeRefundOrderService \<Rightarrow> ('w, job_label) go" where
  "timeout_body svc w =
     (case rs_QueryTimeoutUnpaidOrderList svc w of
        (Inl (Panic p), w') \<Rightarrow> (Inl (Panic p), w')
      | (Inl err, w') \<Rightarrow> (Inr JobError, w')
      | (Inr items, w') \<Rightarrow>
          if items = [] then (Inr (JobSuccess 0 0), w') else refund_items svc items 0 0 w')"

definition TimeoutRefundJob_exec ::
    "redis \<Rightarrow> lock_env \<Rightarrow> world ITradeRefundOrderService \<Rightarrow> world \<Rightarrow> (job_label \<times> world) option" where
  "TimeoutRefundJob_exec R L svc w =
     recovered_run (with_lock R L ''group_buy_market_timeout_refund_job_exec'' 3000 60 JobSkipLock
       (timeout_body svc) w)"

section \<open>What a run does to the orders\<close>

text \<open>The world a refund leaves, and the orders it may close: the one the trade number finds.\<close>

abbreviation refund_svc :: "TradeRepository \<Rightarrow> call_env \<Rightarrow> world ITradeRefundOrderService" where
  "refund_svc r E \<equiv> NewTradeRefundOrderService (NewTradeRepository r E)
     (all_strategies (NewTradeRepository r E) (Some safego_Go))"

text \<open>
  What a batch of refunds keeps of one order, \<open>l\<close>: while the first order with its trade number is
  another one, the batch never touches \<open>l\<close>.
\<close>

definition shadowed :: "mysql \<Rightarrow> GroupBuyOrderList \<Rightarrow> GroupBuyOrderList list \<Rightarrow> bool" where
  "shadowed M l ls \<longleftrightarrow> l \<in> set ls \<and>
     (\<exists>l0. find (trade_no_of M (l_UserID l) (l_OutTradeNo l)) ls = Some l0 \<and>
        \<not> sqlEq M (l_OrderID l0) (l_OrderID l))"

lemma find_upd_where:
  "(\<And>x. P (f x) = P x) \<Longrightarrow> find P (upd_where Q f xs) = map_option (\<lambda>x. if Q x then f x else x) (find P xs)"
  by (induction xs) auto

lemma trade_no_of_close [simp]: "trade_no_of M u n (close_set E l) = trade_no_of M u n l"
  by (simp add: trade_no_of_def)

text \<open>The rows after a refund of the order a trade number finds, on a database that meets the invariant.\<close>

lemma refunded_rows:
  assumes M: "mysql_ok (rp_db r)" and inv: "teams_ok (rp_db r) d"
    and l0: "find (trade_no_of (rp_db r) u n) (db_lists d) = Some l0"
    and rt: "GetRefundStrategy ts (l_Status l0) = Inr rt"
    and ran: "refund_by r E rt order d = (Inr x, d')" "ro_UserID order = u" "ro_OrderID order = l_OrderID l0"
      "ro_TeamID order = l_TeamID l0"
  shows "teams_ok (rp_db r) d'"
    and "db_lists d' = upd_where (\<lambda>l. l = l0) (close_set E) (db_lists d)"
    and "trade_step r d d'"
proof -
  from l0 have mem: "l0 \<in> set (db_lists d)" "trade_no_of (rp_db r) u n l0" by (auto simp: find_Some_iff)
  have key: "distinct (map (\<lambda>l. my_ck (rp_db r) (l_OrderID l)) (db_lists d))"
    using inv unfolding teams_ok_def by blast
  have one: "l = l0" if "l \<in> set (db_lists d)" "sqlEq (rp_db r) (l_OrderID l) (l_OrderID l0)" for l
    using filter_key_unique [OF key that(1) mem(1)] that(2) by (simp add: sqlEq_def)
  have "order_in_team (rp_db r) d (ro_OrderID order) (ro_TeamID order)"
    unfolding order_in_team_def
  proof (intro ballI impI)
    fix l assume "l \<in> set (db_lists d)" and "sqlEq (rp_db r) (l_OrderID l) (ro_OrderID order)"
    with one ran(3) have "l = l0" by simp
    then show "sqlEq (rp_db r) (l_TeamID l) (ro_TeamID order)" using ran(4) by simp
  qed
  then show step: "trade_step r d d'"
    using ran(1) refund_types_of [OF rt] trade_step.intros(3-5) unfolding refund_by_def by (auto split: if_splits)
  from step show "teams_ok (rp_db r) d'" using trade_step_teams_ok inv M by blast
  have from_rt: "refund_from rt = l_Status l0"
    using rt by (auto simp: GetRefundStrategy_def refund_from_def split: if_splits)
  have "close_hit (rp_db r) order (refund_from rt) l \<longleftrightarrow> l = l0" if "l \<in> set (db_lists d)" for l
    using one [OF that] mem(2) ran(2,3) from_rt by (auto simp: trade_no_of_def)
  with refund_by_Inr [OF M inv ran(1) refund_types_of [OF rt]]
  show "db_lists d' = upd_where (\<lambda>l. l = l0) (close_set E) (db_lists d)"
    by (simp add: upd_where_def)
qed

lemma refund_call_shadowed:
  assumes M: "mysql_ok (rp_db r)" and inv: "teams_ok (rp_db r) (w_db w)"
    and sh: "shadowed (rp_db r) l (db_lists (w_db w))"
    and run: "refund_RefundOrder (NewTradeRepository r E)
      (all_strategies (NewTradeRepository r E) (Some safego_Go)) cmd w = (q, w')"
  shows "teams_ok (rp_db r) (w_db w') \<and> shadowed (rp_db r) l (db_lists (w_db w'))"
  using M run
proof (cases rule: refund_service_cases)
  case (refunded l' g rt x d b)
  have db: "w_db w' = d" using refunded(10) by (simp add: refunded_world_def split: option.splits)
  have rows: "teams_ok (rp_db r) d" "db_lists d = upd_where (\<lambda>l. l = l') (close_set E) (db_lists (w_db w))"
    using refunded_rows(1,2) [OF M inv refunded(5,8,9)] by simp_all
  from sh obtain l0 where l: "l \<in> set (db_lists (w_db w))"
    and l0: "find (trade_no_of (rp_db r) (l_UserID l) (l_OutTradeNo l)) (db_lists (w_db w)) = Some l0"
      "\<not> sqlEq (rp_db r) (l_OrderID l0) (l_OrderID l)"
    unfolding shadowed_def by blast
  have "l \<noteq> l'"
  proof
    assume "l = l'"
    with refunded(5) have "trade_no_of (rp_db r) (rcmd_UserID cmd) (rcmd_OutTradeNo cmd) l"
      by (auto simp: find_Some_iff)
    then have "trade_no_of (rp_db r) (rcmd_UserID cmd) (rcmd_OutTradeNo cmd)
        = trade_no_of (rp_db r) (l_UserID l) (l_OutTradeNo l)"
      by (simp add: trade_no_of_def sqlEq_def fun_eq_iff)
    with refunded(5) l0 \<open>l = l'\<close> show False by (simp add: sqlEq_def)
  qed
  with l have "l \<in> set (db_lists d)" unfolding rows(2) by (auto simp: upd_where_def image_iff)
  moreover have "find (trade_no_of (rp_db r) (l_UserID l) (l_OutTradeNo l)) (db_lists d)
      = Some (if l0 = l' then close_set E l0 else l0)"
    unfolding rows(2) using l0(1) by (subst find_upd_where) auto
  then have "\<exists>l0'. find (trade_no_of (rp_db r) (l_UserID l) (l_OutTradeNo l)) (db_lists d) = Some l0' \<and>
      \<not> sqlEq (rp_db r) (l_OrderID l0') (l_OrderID l)"
    using l0(2) by auto
  ultimately show ?thesis using rows(1) db by (simp add: shadowed_def)
qed (use inv sh in simp_all)

lemma with_lock_Some:
  assumes "with_lock R L key wait lease s body w = Some (q, w')"
  obtains (skipped) K where "q = Inr s" "w' = w\<lparr>w_redis := K\<rparr>"
  | (ran) K q1 w1 K' where "body (w\<lparr>w_redis := K\<rparr>) = (q1, w1)" "q = q1" "w' = w1\<lparr>w_redis := K'\<rparr>"
  using assms by (auto simp: with_lock_def on_redis_def split: option.splits sum.splits if_splits prod.splits)

lemma refund_items_keep:
  assumes "\<And>cmd q w w'. P w \<Longrightarrow> rs_RefundOrder svc cmd w = (q, w') \<Longrightarrow> P w'"
    and "refund_items svc items s f w = (q, w')" and "P w"
  shows "P w'"
  using assms(2,3)
proof (induction items arbitrary: s f w)
  case (Cons item items)
  obtain x w1 where x: "rs_RefundOrder svc (timeout_command item) w = (x, w1)" by force
  with assms(1) Cons.prems(2) have "P w1" by blast
  with Cons x show ?case by (auto split: sum.splits go_error.splits)
qed simp

lemma timeout_job_keep:
  assumes "\<And>cmd q w w'. P w \<Longrightarrow> rs_RefundOrder svc cmd w = (q, w') \<Longrightarrow> P w'"
    and "reads (rs_QueryTimeoutUnpaidOrderList svc)" and "\<And>w K. P (w\<lparr>w_redis := K\<rparr>) = P w"
    and "TimeoutRefundJob_exec R L svc w = Some (lab, w')" and "P w"
  shows "P w'"
proof -
  have body: "P w2" if run: "timeout_body svc w1 = (q, w2)" and "P w1" for q w1 w2
  proof -
    obtain x w3 where x: "rs_QueryTimeoutUnpaidOrderList svc w1 = (x, w3)" by force
    then have "w3 = w1" using readsD [OF assms(2)] by blast
    with run x that(2) show ?thesis
      by (auto simp: timeout_body_def split: sum.splits go_error.splits if_splits
          intro: refund_items_keep [where P = P, OF assms(1)])
  qed
  from assms(4) obtain q where "with_lock R L ''group_buy_market_timeout_refund_job_exec'' 3000 60 JobSkipLock
      (timeout_body svc) w = Some (q, w')"
    by (auto simp: TimeoutRefundJob_exec_def recovered_run_def)
  then show ?thesis
  proof (cases rule: with_lock_Some)
    case (skipped K)
    then show ?thesis using assms(3,5) by simp
  next
    case (ran K q1 w1 K')
    then show ?thesis using body [OF ran(1)] assms(3,5) by simp
  qed
qed

section \<open>Properties\<close>

text \<open>Runs of the timeout job and refunds asked for by users, in any order and number.\<close>

inductive refund_activity :: "TradeRepository \<Rightarrow> world \<Rightarrow> world \<Rightarrow> bool" for r where
  job: "TimeoutRefundJob_exec R L (refund_svc r E) w = Some (lab, w') \<Longrightarrow> refund_activity r w w'"
| call: "rs_RefundOrder (refund_svc r E) cmd w = (q, w') \<Longrightarrow> refund_activity r w w'"

lemma refund_svc_RefundOrder: "rs_RefundOrder (refund_svc r E) =
    refund_RefundOrder (NewTradeRepository r E) (all_strategies (NewTradeRepository r E) (Some safego_Go))"
  by (simp add: NewTradeRefundOrderService_def)

lemma refund_activity_shadowed:
  assumes "refund_activity r w w'" and M: "mysql_ok (rp_db r)"
    and "teams_ok (rp_db r) (w_db w) \<and> shadowed (rp_db r) l (db_lists (w_db w))"
  shows "teams_ok (rp_db r) (w_db w') \<and> shadowed (rp_db r) l (db_lists (w_db w'))"
  using assms(1)
proof cases
  case (job R L E lab)
  let ?P = "\<lambda>w. teams_ok (rp_db r) (w_db w) \<and> shadowed (rp_db r) l (db_lists (w_db w))"
  have "?P w2" if "?P w1" "rs_RefundOrder (refund_svc r E) cmd w1 = (q, w2)" for cmd q w1 w2
    using that(1) refund_call_shadowed [OF M _ _ that(2) [unfolded refund_svc_RefundOrder]] by blast
  moreover have "reads (rs_QueryTimeoutUnpaidOrderList (refund_svc r E))"
    using port_reads(9) by (simp add: NewTradeRefundOrderService_def refund_QueryTimeoutUnpaidOrderList_def)
  moreover have "?P (w\<lparr>w_redis := K\<rparr>) = ?P w" for w :: world and K by simp
  ultimately show ?thesis using job assms(3) by (rule timeout_job_keep [where P = ?P])
next
  case (call E cmd q)
  with assms(3) refund_call_shadowed [OF M _ _ call [unfolded refund_svc_RefundOrder]] show ?thesis by blast
qed

text \<open>
  C23. An order whose trade number belongs first to another order is never released: however often
  the timeout job runs and whatever refunds its user asks for, it stays as it is, as every refund
  with its number goes to the first order.
\<close>

theorem shadowed_order_is_never_released:
  assumes M: "mysql_ok (rp_db r)" and inv: "teams_ok (rp_db r) (w_db w)"
    and l: "l \<in> set (db_lists (w_db w))"
    and first: "find (trade_no_of (rp_db r) (l_UserID l) (l_OutTradeNo l)) (db_lists (w_db w)) = Some l0"
      "\<not> sqlEq (rp_db r) (l_OrderID l0) (l_OrderID l)"
    and runs: "(refund_activity r)\<^sup>*\<^sup>* w w'"
  shows "l \<in> set (db_lists (w_db w'))"
proof -
  have "teams_ok (rp_db r) (w_db w) \<and> shadowed (rp_db r) l (db_lists (w_db w))"
    using inv l first by (auto simp: shadowed_def)
  with runs have "teams_ok (rp_db r) (w_db w') \<and> shadowed (rp_db r) l (db_lists (w_db w'))"
    by (induction rule: rtranclp_induct) (auto dest: refund_activity_shadowed [OF _ M])
  then show ?thesis by (simp add: shadowed_def)
qed

text \<open>
  When the timeout job comes to an unpaid order whose trade number belongs first to an order
  that is paid, the refund it asks for, when it succeeds, closes the paid order and leaves the unpaid
  one.
\<close>

lemma timeout_refund_closes_paid_order:
  assumes M: "mysql_ok (rp_db r)" and inv: "teams_ok (rp_db r) (w_db w)"
    and l: "l \<in> set (db_lists (w_db w))" "l_Status l = TradeOrderCreate"
    and first: "find (trade_no_of (rp_db r) (l_UserID l) (l_OutTradeNo l)) (db_lists (w_db w)) = Some l0"
      "l_Status l0 = TradeOrderComplete"
    and run: "rs_RefundOrder (refund_svc r E) (timeout_command (timeout_entity l g)) w = (Inr res, w')"
  shows "l0\<lparr>l_Status := TradeOrderClose, l_UpdateTime := ce_now E 0\<rparr> \<in> set (db_lists (w_db w')) \<and>
    l \<in> set (db_lists (w_db w'))"
proof -
  from run have "refund_RefundOrder (NewTradeRepository r E)
      (all_strategies (NewTradeRepository r E) (Some safego_Go)) (timeout_command (timeout_entity l g)) w = (Inr res, w')"
    by (simp add: NewTradeRefundOrderService_def)
  with M show ?thesis
  proof (cases rule: refund_service_cases)
    case (refunded l' g' rt x d b)
    have "w_db w' = d" using refunded(10) by (simp add: refunded_world_def split: option.splits)
    moreover have "l' = l0" using refunded(5) first(1) by (simp add: timeout_command_def timeout_entity_def)
    moreover have "db_lists d = upd_where (\<lambda>l. l = l') (close_set E) (db_lists (w_db w))"
      using refunded_rows [OF M inv refunded(5,8,9)] by simp
    moreover have "l0 \<in> set (db_lists (w_db w))" "l \<noteq> l0"
      using first l(2) by (auto simp: find_Some_iff)
    ultimately show ?thesis using l(1) by (auto simp: upd_where_def image_iff)
  qed (use first in \<open>simp_all add: timeout_command_def timeout_entity_def\<close>)
qed

abbreviation ex_shadowed :: GroupBuyOrderList where
  "ex_shadowed \<equiv> (ex_row 2 ''ann'' ''333333333333'' 0 None)\<lparr>l_TeamID := ''22222222''\<rparr>"

text \<open>The user \<open>ann\<close> has paid in team 11111111 and locked a second order, with the same number, in 22222222.\<close>

definition ex_twice :: world where
  "ex_twice = ex_world\<lparr>w_db := ex_db\<lparr>
     db_orders := [ex_team 1 1 0, (ex_team 1 0 0)\<lparr>o_ID := 2, o_TeamID := ''22222222''\<rparr>],
     db_lists := [ex_row 1 ''ann'' ''111111111111'' 1 (Some 1200), ex_shadowed]\<rparr>\<rparr>"

lemma ex_twice_ok: "teams_ok (rp_db refRepository) (w_db ex_twice)"
  by (simp add: teams_ok_def team_ok_def open_count_def paid_count_def ex_twice_def ex_defs)

lemma ex_twice_rows:
  "ex_shadowed \<in> set (db_lists (w_db ex_twice))"
  "find (trade_no_of (rp_db refRepository) (l_UserID ex_shadowed) (l_OutTradeNo ex_shadowed)) (db_lists (w_db ex_twice))
   = Some (ex_row 1 ''ann'' ''111111111111'' 1 (Some 1200))"
  by (simp_all add: ex_twice_def trade_no_of_def ex_defs)

lemma shadowed_order_witness:
  "ex_shadowed \<in> set (db_lists (w_db (snd (rs_RefundOrder (refund_svc refRepository (ex_env 1))
     (timeout_command (timeout_entity ex_shadowed (ex_team 1 0 0))) ex_twice))))"
proof -
  have "(refund_activity refRepository)\<^sup>*\<^sup>* ex_twice (snd (rs_RefundOrder (refund_svc refRepository (ex_env 1))
     (timeout_command (timeout_entity ex_shadowed (ex_team 1 0 0))) ex_twice))"
    by (rule r_into_rtranclp, rule refund_activity.call [OF surjective_pairing])
  from shadowed_order_is_never_released [OF _ ex_twice_ok ex_twice_rows _ this] mysql_ok_ref show ?thesis
    by (simp add: ex_row_def)
qed

lemma ex_twice_refunds:
  "\<exists>res w'. rs_RefundOrder (refund_svc refRepository (ex_env 1))
     (timeout_command (timeout_entity ex_shadowed (ex_team 1 0 0))) ex_twice = (Inr res, w')"
  unfolding refund_svc_RefundOrder
  by (simp add: timeout_command_def timeout_entity_def refund_RefundOrder_def
      NewTradeRefundRuleFilter_def chain_of_foldr empty_refund_ctx_def
      DataNodeFilter_Apply_def UniqueRefundNodeFilter_Apply_def RefundOrderNodeFilter_Apply_def
      GetRefundStrategy_def Paid2RefundStrategy_def sendRefundNotify_def safego_Go_def
      NewTradeRepository_def repo_QueryMarketPayOrderEntityByOutTradeNo_def
      repo_QueryGroupBuyTeamByTeamID_def team_entity_def on_db_def ex_twice_def ex_world_def refund_order_of_def
      trade_eval ex_defs)

lemma timeout_refund_witness:
  "\<exists>res w'. rs_RefundOrder (refund_svc refRepository (ex_env 1))
     (timeout_command (timeout_entity ex_shadowed (ex_team 1 0 0))) ex_twice = (Inr res, w') \<and>
     ex_shadowed \<in> set (db_lists (w_db w')) \<and>
     (ex_row 1 ''ann'' ''111111111111'' 2 (Some 1200)) \<in> set (db_lists (w_db w'))"
proof -
  obtain res w' where run: "rs_RefundOrder (refund_svc refRepository (ex_env 1))
     (timeout_command (timeout_entity ex_shadowed (ex_team 1 0 0))) ex_twice = (Inr res, w')"
    using ex_twice_refunds by blast
  from timeout_refund_closes_paid_order [OF _ ex_twice_ok ex_twice_rows(1) _ ex_twice_rows(2) _ run] mysql_ok_ref
  have "ex_row 1 ''ann'' ''111111111111'' 2 (Some 1200) \<in> set (db_lists (w_db w'))"
    "ex_shadowed \<in> set (db_lists (w_db w'))"
    by (simp_all add: ex_row_def ex_env_def)
  with run show ?thesis by blast
qed

end
