(* ===== verification/Metrics.thy ===== *)
theory Metrics
  imports Complex_Main Jobs
begin

text \<open>
  The metrics (\<open>internal/infrastructure/metrics/metrics.go\<close>): the families the package registers, the
  observations the rest of the program makes, and the collector of connection pool and dependency
  health. The client library of Prometheus is a parameter: adding to, setting and observing the child
  of a family with some label values, and reading the numbers back. \<open>prom_ok\<close> states what its
  documentation says of the registered families. Values are whole numbers, as everything the program
  adds or sets is; a \<open>float64\<close> holds them exactly up to \<open>2 ^ 53\<close>. Seconds are \<open>rat\<close>.
\<close>

section \<open>The families\<close>

datatype metric_kind = Counter | Gauge | Histogram "rat list"

record family =
  mf_name :: string
  mf_kind :: metric_kind
  mf_labels :: "string list"

definition CounterVec :: "string \<Rightarrow> string list \<Rightarrow> family" where
  "CounterVec name labels = \<lparr>mf_name = name, mf_kind = Counter, mf_labels = labels\<rparr>"

definition HistogramVec :: "string \<Rightarrow> rat list \<Rightarrow> string list \<Rightarrow> family" where
  "HistogramVec name buckets labels = \<lparr>mf_name = name, mf_kind = Histogram buckets, mf_labels = labels\<rparr>"

definition GaugeVec :: "string \<Rightarrow> string list \<Rightarrow> family" where
  "GaugeVec name labels = \<lparr>mf_name = name, mf_kind = Gauge, mf_labels = labels\<rparr>"

definition HTTPRequests :: family where
  "HTTPRequests = CounterVec ''gbm_http_requests_total'' [''method'', ''path'', ''status'']"

definition HTTPDuration :: family where
  "HTTPDuration = HistogramVec ''gbm_http_request_duration_seconds''
     [5/1000, 1/100, 25/1000, 5/100, 1/10, 25/100, 5/10, 1, 25/10, 5, 10] [''method'', ''path'']"

definition HTTPInFlight :: family where
  "HTTPInFlight = GaugeVec ''gbm_http_requests_in_flight'' []"

definition RateLimit :: family where
  "RateLimit = CounterVec ''gbm_rate_limit_total'' [''result'']"

definition BizRequests :: family where
  "BizRequests = CounterVec ''gbm_biz_requests_total'' [''path'', ''code'']"

definition StockOps :: family where
  "StockOps = CounterVec ''gbm_stock_ops_total'' [''op'', ''result'']"

definition DCCUpdates :: family where
  "DCCUpdates = CounterVec ''gbm_dcc_updates_total'' [''key'', ''source'']"

definition JobRuns :: family where
  "JobRuns = CounterVec ''gbm_job_runs_total'' [''job'', ''result'']"

definition JobProcessed :: family where
  "JobProcessed = CounterVec ''gbm_job_processed_total'' [''job'', ''result'']"

definition JobDuration :: family where
  "JobDuration = HistogramVec ''gbm_job_duration_seconds''
     [1/100, 5/100, 1/10, 25/100, 5/10, 1, 25/10, 5, 15, 30, 60] [''job'']"

definition NotifyFamily :: family where
  "NotifyFamily = CounterVec ''gbm_notify_total'' [''channel'', ''result'']"

definition NotifyDuration :: family where
  "NotifyDuration = HistogramVec ''gbm_notify_duration_seconds''
     [1/100, 25/1000, 5/100, 1/10, 25/100, 5/10, 1, 25/10, 5, 10] [''channel'']"

definition MQPublish :: family where
  "MQPublish = CounterVec ''gbm_mq_publish_total'' [''routing_key'', ''result'']"

definition MQConsume :: family where
  "MQConsume = CounterVec ''gbm_mq_consume_total'' [''queue'', ''result'']"

definition MQConsumeDuration :: family where
  "MQConsumeDuration = HistogramVec ''gbm_mq_consume_duration_seconds''
     [5/1000, 1/100, 25/1000, 5/100, 1/10, 25/100, 5/10, 1, 25/10, 5, 15] [''queue'']"

definition RedisOps :: family where
  "RedisOps = CounterVec ''gbm_redis_ops_total'' [''op'', ''result'']"

definition RedisDuration :: family where
  "RedisDuration = HistogramVec ''gbm_redis_op_duration_seconds''
     [5/10000, 1/1000, 25/10000, 5/1000, 1/100, 25/1000, 5/100, 1/10, 25/100, 5/10, 1] [''op'']"

definition DependencyUp :: family where
  "DependencyUp = GaugeVec ''gbm_dependency_up'' [''name'']"

definition DBOpenConnections :: family where
  "DBOpenConnections = GaugeVec ''gbm_db_open_connections'' []"

definition DBInUse :: family where
  "DBInUse = GaugeVec ''gbm_db_in_use'' []"

definition DBIdle :: family where
  "DBIdle = GaugeVec ''gbm_db_idle'' []"

definition DBWaitCount :: family where
  "DBWaitCount = GaugeVec ''gbm_db_wait_count'' []"

definition DBMaxOpen :: family where
  "DBMaxOpen = GaugeVec ''gbm_db_max_open_connections'' []"

definition families :: "family list" where
  "families =
     [HTTPRequests, HTTPDuration, HTTPInFlight, RateLimit, BizRequests, StockOps, DCCUpdates, JobRuns,
      JobProcessed, JobDuration, NotifyFamily, NotifyDuration, MQPublish, MQConsume, MQConsumeDuration,
      RedisOps, RedisDuration, DependencyUp, DBOpenConnections, DBInUse, DBIdle, DBWaitCount, DBMaxOpen]"

lemmas family_defs = CounterVec_def HistogramVec_def GaugeVec_def HTTPRequests_def HTTPDuration_def
  HTTPInFlight_def RateLimit_def BizRequests_def StockOps_def DCCUpdates_def JobRuns_def JobProcessed_def
  JobDuration_def NotifyFamily_def NotifyDuration_def MQPublish_def MQConsume_def MQConsumeDuration_def
  RedisOps_def RedisDuration_def DependencyUp_def DBOpenConnections_def DBInUse_def DBIdle_def
  DBWaitCount_def DBMaxOpen_def

section \<open>The library\<close>

text \<open>A child of a family is addressed by the name and the label values; reading an absent one gives 0.\<close>

type_synonym child = "string \<times> string list"

record 'm prometheus =
  pm_Add :: "family \<Rightarrow> string list \<Rightarrow> int \<Rightarrow> ('m, unit) go"
  pm_Set :: "family \<Rightarrow> string list \<Rightarrow> int \<Rightarrow> ('m, unit) go"
  pm_Observe :: "family \<Rightarrow> string list \<Rightarrow> rat \<Rightarrow> ('m, unit) go"
  pm_value :: "'m \<Rightarrow> child \<Rightarrow> int"
  pm_count :: "'m \<Rightarrow> child \<Rightarrow> nat"

definition exact :: "int \<Rightarrow> bool" where
  "exact v \<longleftrightarrow> \<bar>v\<bar> \<le> 2 ^ 53"

definition ascii :: "string \<Rightarrow> bool" where
  "ascii s \<longleftrightarrow> (\<forall>c \<in> set s. of_char c < (128 :: nat))"

text \<open>Label values that a family accepts: as many as it has labels, in valid UTF-8.\<close>

definition labels_ok :: "family \<Rightarrow> string list \<Rightarrow> bool" where
  "labels_ok f vs \<longleftrightarrow> f \<in> set families \<and> length vs = length (mf_labels f) \<and> (\<forall>v \<in> set vs. ascii v)"

definition prom_ok :: "'m prometheus \<Rightarrow> bool" where
  "prom_ok P \<longleftrightarrow>
     (\<forall>f vs v m. labels_ok f vs \<longrightarrow> mf_kind f = Gauge \<or> mf_kind f = Counter \<and> 0 \<le> v \<longrightarrow>
        exact v \<longrightarrow> exact (pm_value P m (mf_name f, vs) + v) \<longrightarrow>
        (\<exists>m'. pm_Add P f vs v m = (Inr (), m') \<and> pm_count P m' = pm_count P m \<and>
           pm_value P m' = (pm_value P m)((mf_name f, vs) := pm_value P m (mf_name f, vs) + v))) \<and>
     (\<forall>f vs v m. labels_ok f vs \<longrightarrow> mf_kind f = Gauge \<longrightarrow> exact v \<longrightarrow>
        (\<exists>m'. pm_Set P f vs v m = (Inr (), m') \<and> pm_count P m' = pm_count P m \<and>
           pm_value P m' = (pm_value P m)((mf_name f, vs) := v))) \<and>
     (\<forall>f vs x m b. labels_ok f vs \<longrightarrow> mf_kind f = Histogram b \<longrightarrow>
        (\<exists>m'. pm_Observe P f vs x m = (Inr (), m') \<and> pm_value P m' = pm_value P m \<and>
           pm_count P m' = (pm_count P m)((mf_name f, vs) := pm_count P m (mf_name f, vs) + 1)))"

definition pm_Inc :: "'m prometheus \<Rightarrow> family \<Rightarrow> string list \<Rightarrow> ('m, unit) go" where
  "pm_Inc P f vs = pm_Add P f vs 1"

definition pm_Dec :: "'m prometheus \<Rightarrow> family \<Rightarrow> string list \<Rightarrow> ('m, unit) go" where
  "pm_Dec P f vs = pm_Add P f vs (- 1)"

section \<open>Observations\<close>

definition ObserveHTTP :: "'m prometheus \<Rightarrow> string \<Rightarrow> string \<Rightarrow> string \<Rightarrow> rat \<Rightarrow> ('m, unit) go" where
  "ObserveHTTP P meth path status seconds =
     go_bind (pm_Inc P HTTPRequests [meth, path, status])
       (\<lambda>_. pm_Observe P HTTPDuration [meth, path] seconds)"

definition ObserveBiz :: "'m prometheus \<Rightarrow> string \<Rightarrow> string \<Rightarrow> ('m, unit) go" where
  "ObserveBiz P path code =
     (if path = '''' \<or> code = '''' then go_ret () else pm_Inc P BizRequests [path, code])"

definition ObserveRateLimit :: "'m prometheus \<Rightarrow> bool \<Rightarrow> ('m, unit) go" where
  "ObserveRateLimit P allowed =
     (if allowed then pm_Inc P RateLimit [''allow''] else pm_Inc P RateLimit [''deny''])"

definition ObserveJob :: "'m prometheus \<Rightarrow> string \<Rightarrow> string \<Rightarrow> ('m, unit) go" where
  "ObserveJob P job result = pm_Inc P JobRuns [job, result]"

definition ObserveJobProcessed :: "'m prometheus \<Rightarrow> string \<Rightarrow> string \<Rightarrow> int \<Rightarrow> ('m, unit) go" where
  "ObserveJobProcessed P job result n =
     (if n \<le> 0 then go_ret () else pm_Add P JobProcessed [job, result] n)"

definition ObserveJobDuration :: "'m prometheus \<Rightarrow> string \<Rightarrow> rat \<Rightarrow> ('m, unit) go" where
  "ObserveJobDuration P job seconds = pm_Observe P JobDuration [job] seconds"

definition ObserveNotify :: "'m prometheus \<Rightarrow> string \<Rightarrow> string \<Rightarrow> ('m, unit) go" where
  "ObserveNotify P channel result = pm_Inc P NotifyFamily [channel, result]"

definition ObserveNotifyDuration :: "'m prometheus \<Rightarrow> string \<Rightarrow> rat \<Rightarrow> ('m, unit) go" where
  "ObserveNotifyDuration P channel seconds = pm_Observe P NotifyDuration [channel] seconds"

definition ObserveStock :: "'m prometheus \<Rightarrow> string \<Rightarrow> string \<Rightarrow> ('m, unit) go" where
  "ObserveStock P op_name result = pm_Inc P StockOps [op_name, result]"

definition ObserveDCC :: "'m prometheus \<Rightarrow> string \<Rightarrow> string \<Rightarrow> ('m, unit) go" where
  "ObserveDCC P key source = pm_Inc P DCCUpdates [key, source]"

definition ObserveMQPublish :: "'m prometheus \<Rightarrow> string \<Rightarrow> string \<Rightarrow> ('m, unit) go" where
  "ObserveMQPublish P routingKey result =
     pm_Inc P MQPublish [or_default routingKey ''unknown'', result]"

definition ObserveMQConsume :: "'m prometheus \<Rightarrow> string \<Rightarrow> string \<Rightarrow> rat \<Rightarrow> ('m, unit) go" where
  "ObserveMQConsume P queue result seconds =
     go_bind (pm_Inc P MQConsume [queue, result]) (\<lambda>_. pm_Observe P MQConsumeDuration [queue] seconds)"

definition ObserveRedis :: "'m prometheus \<Rightarrow> string \<Rightarrow> go_error option \<Rightarrow> rat \<Rightarrow> ('m, unit) go" where
  "ObserveRedis P op_name err seconds =
     go_bind (pm_Inc P RedisOps [op_name, if err \<noteq> None then ''error'' else ''ok''])
       (\<lambda>_. pm_Observe P RedisDuration [op_name] seconds)"

section \<open>The collector\<close>

record db_stats =
  st_OpenConnections :: int
  st_InUse :: int
  st_Idle :: int
  st_WaitCount :: int
  st_MaxOpenConnections :: int

text \<open>
  One sample. \<open>stats\<close> is nothing for a nil database; \<open>deps\<close> are the entries of the map in the order
  the iteration takes them, each with what its check answers, nothing for a nil check.
\<close>

definition sample_pool :: "'m prometheus \<Rightarrow> db_stats option \<Rightarrow> ('m, unit) go" where
  "sample_pool P stats =
     (case stats of
        None \<Rightarrow> go_ret ()
      | Some s \<Rightarrow>
          go_bind (pm_Set P DBOpenConnections [] (st_OpenConnections s))
            (\<lambda>_. go_bind (pm_Set P DBInUse [] (st_InUse s))
              (\<lambda>_. go_bind (pm_Set P DBIdle [] (st_Idle s))
                (\<lambda>_. go_bind (pm_Set P DBWaitCount [] (st_WaitCount s))
                  (\<lambda>_. pm_Set P DBMaxOpen [] (st_MaxOpenConnections s))))))"

fun sample_deps :: "'m prometheus \<Rightarrow> (string \<times> go_error option option) list \<Rightarrow> ('m, unit) go" where
  "sample_deps P [] = go_ret ()"
| "sample_deps P ((name, None) # deps) = sample_deps P deps"
| "sample_deps P ((name, Some err) # deps) =
     go_bind (pm_Set P DependencyUp [name] (if err \<noteq> None then 0 else 1)) (\<lambda>_. sample_deps P deps)"

definition sample ::
    "'m prometheus \<Rightarrow> db_stats option \<Rightarrow> (string \<times> go_error option option) list \<Rightarrow> ('m, unit) go" where
  "sample P stats deps = go_bind (sample_pool P stats) (\<lambda>_. sample_deps P deps)"

text \<open>
  The loop: a sample at once, then one at each tick until \<open>stop\<close> is closed. \<open>ticks\<close> is what the
  select takes: \<open>Some\<close> the answers at a tick, \<open>None\<close> the closed channel.
\<close>

type_synonym probe = "db_stats option \<times> (string \<times> go_error option option) list"

fun collect_ticks :: "'m prometheus \<Rightarrow> probe option list \<Rightarrow> ('m, unit) go" where
  "collect_ticks P [] = go_ret ()"
| "collect_ticks P (None # ticks) = go_ret ()"
| "collect_ticks P (Some (stats, deps) # ticks) =
     go_bind (sample P stats deps) (\<lambda>_. collect_ticks P ticks)"

definition collect_loop :: "'m prometheus \<Rightarrow> probe \<Rightarrow> probe option list \<Rightarrow> ('m, unit) go" where
  "collect_loop P start ticks = go_bind (sample P (fst start) (snd start)) (\<lambda>_. collect_ticks P ticks)"

text \<open>\<open>Stop\<close> closes the channel once: \<open>sync.Once\<close> makes the second call do nothing.\<close>

record Collectors =
  co_closed :: bool
  co_once :: bool

definition StartCollectors :: Collectors where
  "StartCollectors = \<lparr>co_closed = False, co_once = False\<rparr>"

definition close_channel :: "bool \<Rightarrow> bool res" where
  "close_channel c = (if c then Inl (Panic ''close of closed channel'') else Inr True)"

definition Collectors_Stop :: "(Collectors, unit) go" where
  "Collectors_Stop c =
     (if co_once c then (Inr (), c)
      else case close_channel (co_closed c) of
          Inl e \<Rightarrow> (Inl e, c\<lparr>co_once := True\<rparr>)
        | Inr b \<Rightarrow> (Inr (), c\<lparr>co_closed := b, co_once := True\<rparr>))"


section \<open>What the observations do\<close>

lemma families_distinct: "distinct (map mf_name families)"
  by (simp add: families_def family_defs)

text \<open>The bounds of every histogram rise, as the library asks for.\<close>

lemma buckets_sorted: "f \<in> set families \<Longrightarrow> mf_kind f = Histogram b \<Longrightarrow> sorted_wrt (<) b"
  by (auto simp: families_def family_defs)

lemma family_registered [simp]:
  "HTTPRequests \<in> set families" "HTTPDuration \<in> set families" "HTTPInFlight \<in> set families"
  "RateLimit \<in> set families" "BizRequests \<in> set families" "StockOps \<in> set families"
  "DCCUpdates \<in> set families" "JobRuns \<in> set families" "JobProcessed \<in> set families"
  "JobDuration \<in> set families" "NotifyFamily \<in> set families" "NotifyDuration \<in> set families"
  "MQPublish \<in> set families" "MQConsume \<in> set families" "MQConsumeDuration \<in> set families"
  "RedisOps \<in> set families" "RedisDuration \<in> set families" "DependencyUp \<in> set families"
  "DBOpenConnections \<in> set families" "DBInUse \<in> set families" "DBIdle \<in> set families"
  "DBWaitCount \<in> set families" "DBMaxOpen \<in> set families"
  by (simp_all add: families_def)

text \<open>A number raised by \<open>n\<close>, a gauge set, an observation counted.\<close>

definition raised :: "'m prometheus \<Rightarrow> family \<Rightarrow> string list \<Rightarrow> int \<Rightarrow> 'm \<Rightarrow> 'm \<Rightarrow> bool" where
  "raised P f vs n m m' \<longleftrightarrow> pm_count P m' = pm_count P m \<and>
     pm_value P m' = (pm_value P m)((mf_name f, vs) := pm_value P m (mf_name f, vs) + n)"

lemma prom_Add:
  assumes "prom_ok P" and "labels_ok f vs" "mf_kind f = Gauge \<or> mf_kind f = Counter \<and> 0 \<le> v"
    and "exact v" "exact (pm_value P m (mf_name f, vs) + v)"
  shows "\<exists>m'. pm_Add P f vs v m = (Inr (), m') \<and> raised P f vs v m m'"
  using assms unfolding prom_ok_def raised_def by blast

lemma prom_Set:
  assumes "prom_ok P" and "labels_ok f vs" "mf_kind f = Gauge" and "exact v"
  shows "\<exists>m'. pm_Set P f vs v m = (Inr (), m') \<and> pm_count P m' = pm_count P m \<and>
    pm_value P m' = (pm_value P m)((mf_name f, vs) := v)"
  using assms unfolding prom_ok_def by blast

lemma prom_Observe:
  assumes "prom_ok P" and "labels_ok f vs" "mf_kind f = Histogram b"
  shows "\<exists>m'. pm_Observe P f vs x m = (Inr (), m') \<and> pm_value P m' = pm_value P m \<and>
    pm_count P m' = (pm_count P m)((mf_name f, vs) := pm_count P m (mf_name f, vs) + 1)"
  using assms unfolding prom_ok_def by blast

lemma exact_step [simp]: "exact 1" "exact (- 1)" "exact 0"
  by (simp_all add: exact_def)

lemma prom_Inc:
  assumes "prom_ok P" and "labels_ok f vs" "mf_kind f = Gauge \<or> mf_kind f = Counter"
    and "exact (pm_value P m (mf_name f, vs) + 1)"
  shows "\<exists>m'. pm_Inc P f vs m = (Inr (), m') \<and> raised P f vs 1 m m'"
  using prom_Add [OF assms(1,2)] assms(3,4) by (auto simp: pm_Inc_def)

lemma prom_Dec:
  assumes "prom_ok P" and "labels_ok f vs" "mf_kind f = Gauge" and "exact (pm_value P m (mf_name f, vs) - 1)"
  shows "\<exists>m'. pm_Dec P f vs m = (Inr (), m') \<and> raised P f vs (- 1) m m'"
  using prom_Add [OF assms(1,2), where v = "- 1" and m = m] assms(3,4) by (auto simp: pm_Dec_def)

lemma ObserveHTTP_runs:
  assumes P: "prom_ok P" and labels: "ascii meth" "ascii path" "ascii status"
    and room: "exact (pm_value P m (mf_name HTTPRequests, [meth, path, status]) + 1)"
  shows "\<exists>m'. ObserveHTTP P meth path status x m = (Inr (), m') \<and>
    pm_value P m' = (pm_value P m)((mf_name HTTPRequests, [meth, path, status]) :=
      pm_value P m (mf_name HTTPRequests, [meth, path, status]) + 1) \<and>
    pm_count P m' = (pm_count P m)((mf_name HTTPDuration, [meth, path]) :=
      pm_count P m (mf_name HTTPDuration, [meth, path]) + 1)"
proof -
  have kinds: "mf_kind HTTPRequests = Counter" "\<exists>b. mf_kind HTTPDuration = Histogram b"
    and ls: "labels_ok HTTPRequests [meth, path, status]" "labels_ok HTTPDuration [meth, path]"
    using labels by (simp_all add: labels_ok_def) (simp_all add: family_defs)
  obtain m1 where "pm_Inc P HTTPRequests [meth, path, status] m = (Inr (), m1)"
    and r: "raised P HTTPRequests [meth, path, status] 1 m m1"
    using prom_Inc [OF P ls(1) _ room] kinds(1) by blast
  moreover obtain m2 where "pm_Observe P HTTPDuration [meth, path] x m1 = (Inr (), m2)" "pm_value P m2 = pm_value P m1"
    "pm_count P m2 = (pm_count P m1)((mf_name HTTPDuration, [meth, path]) := pm_count P m1 (mf_name HTTPDuration, [meth, path]) + 1)"
    using prom_Observe [OF P ls(2)] kinds(2) by blast
  ultimately show ?thesis by (simp add: ObserveHTTP_def go_bind_def raised_def)
qed

text \<open>The numbers after a sample of the dependencies.\<close>

fun deps_values :: "(string \<times> go_error option option) list \<Rightarrow> (child \<Rightarrow> int) \<Rightarrow> child \<Rightarrow> int" where
  "deps_values [] V = V"
| "deps_values ((name, None) # deps) V = deps_values deps V"
| "deps_values ((name, Some err) # deps) V =
     deps_values deps (V((mf_name DependencyUp, [name]) := (if err \<noteq> None then 0 else 1)))"

lemma sample_deps_runs:
  assumes P: "prom_ok P" and names: "\<And>d. d \<in> set deps \<Longrightarrow> ascii (fst d)"
  shows "\<exists>m'. sample_deps P deps m = (Inr (), m') \<and> pm_count P m' = pm_count P m \<and>
    pm_value P m' = deps_values deps (pm_value P m)"
  using names
proof (induction deps arbitrary: m)
  case (Cons d deps)
  obtain name answer where d: "d = (name, answer)" by force
  show ?case
  proof (cases answer)
    case None
    then show ?thesis using Cons by (simp add: d)
  next
    case (Some err)
    have "labels_ok DependencyUp [name]" "mf_kind DependencyUp = Gauge"
      using Cons.prems [of d] by (simp_all add: labels_ok_def d) (simp_all add: family_defs)
    moreover have "exact (if err \<noteq> None then 0 else 1)" by simp
    ultimately obtain m1 where "pm_Set P DependencyUp [name] (if err \<noteq> None then 0 else 1) m = (Inr (), m1)"
      "pm_count P m1 = pm_count P m"
      "pm_value P m1 = (pm_value P m)((mf_name DependencyUp, [name]) := (if err \<noteq> None then 0 else 1))"
      using prom_Set [OF P] by blast
    moreover obtain m2 where "sample_deps P deps m1 = (Inr (), m2)" "pm_count P m2 = pm_count P m1"
      "pm_value P m2 = deps_values deps (pm_value P m1)"
      using Cons.IH [of m1] Cons.prems by auto
    ultimately show ?thesis by (simp only: d Some go_bind_def sample_deps.simps deps_values.simps) simp
  qed
qed simp

text \<open>What a dependency shows: the answer of its check, or what it showed before when it has none.\<close>

lemma deps_values_other: "name \<notin> fst ` set deps \<Longrightarrow> deps_values deps V (n, [name]) = V (n, [name])"
  by (induction deps V rule: deps_values.induct) auto

lemma deps_values_answer:
  assumes "distinct (map fst deps)" and "(name, Some err) \<in> set deps"
  shows "deps_values deps V (mf_name DependencyUp, [name]) = (if err \<noteq> None then 0 else 1)"
  using assms
proof (induction deps V rule: deps_values.induct)
  case (3 n e deps V)
  show ?case
  proof (cases "n = name")
    case True
    with 3 have "(name, Some err) \<notin> set deps" and "e = err" and "name \<notin> fst ` set deps" by force+
    then show ?thesis by (simp add: True deps_values_other)
  next
    case False
    with 3 have "distinct (map fst deps)" "(name, Some err) \<in> set deps" by auto
    from 3(1) [OF this] show ?thesis by (simp only: deps_values.simps)
  qed
qed auto

text \<open>A call that succeeds and leaves what is shown of the dependencies and the histograms.\<close>

definition keeps_deps :: "'m prometheus \<Rightarrow> ('m, unit) go \<Rightarrow> bool" where
  "keeps_deps P c \<longleftrightarrow> (\<forall>m. \<exists>m'. c m = (Inr (), m') \<and> pm_count P m' = pm_count P m \<and>
     (\<forall>name. pm_value P m' (mf_name DependencyUp, [name]) = pm_value P m (mf_name DependencyUp, [name])))"

lemma keeps_deps_bind:
  assumes "keeps_deps P c" and "keeps_deps P d"
  shows "keeps_deps P (go_bind c (\<lambda>_. d))"
  unfolding keeps_deps_def
proof
  fix m
  obtain m1 where "c m = (Inr (), m1)" "pm_count P m1 = pm_count P m"
    "\<forall>name. pm_value P m1 (mf_name DependencyUp, [name]) = pm_value P m (mf_name DependencyUp, [name])"
    using assms(1) unfolding keeps_deps_def by blast
  moreover obtain m2 where "d m1 = (Inr (), m2)" "pm_count P m2 = pm_count P m1"
    "\<forall>name. pm_value P m2 (mf_name DependencyUp, [name]) = pm_value P m1 (mf_name DependencyUp, [name])"
    using assms(2) unfolding keeps_deps_def by blast
  ultimately show "\<exists>m'. go_bind c (\<lambda>_. d) m = (Inr (), m') \<and> pm_count P m' = pm_count P m \<and>
     (\<forall>name. pm_value P m' (mf_name DependencyUp, [name]) = pm_value P m (mf_name DependencyUp, [name]))"
    by (simp add: go_bind_def)
qed

lemma keeps_deps_set:
  assumes "prom_ok P" and f: "f \<in> {DBOpenConnections, DBInUse, DBIdle, DBWaitCount, DBMaxOpen}" and "exact v"
  shows "keeps_deps P (pm_Set P f [] v)"
proof -
  have "labels_ok f []" "mf_kind f = Gauge"
    using f by (auto simp: labels_ok_def) (auto simp: family_defs)
  from prom_Set [OF assms(1) this assms(3)] show ?thesis unfolding keeps_deps_def by fastforce
qed

definition stats_exact :: "db_stats \<Rightarrow> bool" where
  "stats_exact s \<longleftrightarrow> exact (st_OpenConnections s) \<and> exact (st_InUse s) \<and> exact (st_Idle s) \<and>
     exact (st_WaitCount s) \<and> exact (st_MaxOpenConnections s)"

lemma sample_runs:
  assumes P: "prom_ok P" and names: "\<And>d. d \<in> set deps \<Longrightarrow> ascii (fst d)"
    and stats: "\<And>s. stats = Some s \<Longrightarrow> stats_exact s"
  shows "\<exists>m' V. sample P stats deps m = (Inr (), m') \<and> pm_count P m' = pm_count P m \<and>
    pm_value P m' = deps_values deps V \<and> (\<forall>name. V (mf_name DependencyUp, [name]) = pm_value P m (mf_name DependencyUp, [name]))"
proof -
  have "keeps_deps P (sample_pool P stats)"
  proof (cases stats)
    case None
    then show ?thesis by (simp add: sample_pool_def keeps_deps_def)
  next
    case (Some s)
    with stats have "stats_exact s" by blast
    then show ?thesis
      unfolding sample_pool_def Some option.case
      by (intro keeps_deps_bind keeps_deps_set [OF P]) (simp_all add: stats_exact_def)
  qed
  then obtain m1 where m1: "sample_pool P stats m = (Inr (), m1)" "pm_count P m1 = pm_count P m"
    "\<forall>name. pm_value P m1 (mf_name DependencyUp, [name]) = pm_value P m (mf_name DependencyUp, [name])"
    unfolding keeps_deps_def by blast
  obtain m2 where "sample_deps P deps m1 = (Inr (), m2)" "pm_count P m2 = pm_count P m1"
    "pm_value P m2 = deps_values deps (pm_value P m1)"
    using sample_deps_runs [OF P names] by blast
  with m1 show ?thesis by (intro exI [of _ m2] exI [of _ "pm_value P m1"]) (simp add: sample_def go_bind_def)
qed

text \<open>Two calls of \<open>Stop\<close> close the channel once.\<close>

lemma Collectors_Stop_twice:
  "go_bind Collectors_Stop (\<lambda>_. Collectors_Stop) StartCollectors = (Inr (), \<lparr>co_closed = True, co_once = True\<rparr>)"
  by (simp add: Collectors_Stop_def StartCollectors_def close_channel_def go_bind_def)

text \<open>A registry that holds two tables of numbers.\<close>

definition refPrometheus :: "((child \<Rightarrow> int) \<times> (child \<Rightarrow> nat)) prometheus" where
  "refPrometheus =
     \<lparr>pm_Add = (\<lambda>f vs v (V, N). if length vs = length (mf_labels f)
        then (Inr (), V((mf_name f, vs) := V (mf_name f, vs) + v), N)
        else (Inl (Panic ''inconsistent label cardinality''), V, N)),
      pm_Set = (\<lambda>f vs v (V, N). if length vs = length (mf_labels f)
        then (Inr (), V((mf_name f, vs) := v), N)
        else (Inl (Panic ''inconsistent label cardinality''), V, N)),
      pm_Observe = (\<lambda>f vs x (V, N). if length vs = length (mf_labels f)
        then (Inr (), V, N((mf_name f, vs) := N (mf_name f, vs) + 1))
        else (Inl (Panic ''inconsistent label cardinality''), V, N)),
      pm_value = fst, pm_count = snd\<rparr>"

lemma prom_ok_ref: "prom_ok refPrometheus"
  by (simp add: prom_ok_def refPrometheus_def labels_ok_def)

end
