(* ===== verification/Discount.thy ===== *)
theory Discount
  imports Trade_Ports Complex_Main
begin

text \<open>
  The activity context (\<open>internal/domain/activity\<close>): its value objects, the port of its repository, and
  the four ways to compute a discounted price (\<open>service/discount\<close>), over any repository.

  The operations of \<open>shopspring/decimal\<close> are a parameter; \<open>decimal_ok\<close> is what its documentation says
  of them, on the rational number a decimal denotes.
\<close>

section \<open>Decimals\<close>

definition dec_val :: "decimal \<Rightarrow> rat" where
  "dec_val d = of_int (d_coef d) * 10 powi d_exp d"

record decimal_ops =
  do_Sub :: "decimal \<Rightarrow> decimal \<Rightarrow> decimal"
  do_Mul :: "decimal \<Rightarrow> decimal \<Rightarrow> decimal"
  do_LessThan :: "decimal \<Rightarrow> decimal \<Rightarrow> bool"
  do_LessThanOrEqual :: "decimal \<Rightarrow> decimal \<Rightarrow> bool"
  do_Truncate0 :: "decimal \<Rightarrow> decimal"
  do_NewFromString :: "string \<Rightarrow> decimal option"
  do_Cent :: decimal

definition dec_Zero :: decimal where
  "dec_Zero = Decimal 0 0"

definition toward_zero :: "rat \<Rightarrow> rat" where
  "toward_zero q = (if q < 0 then - of_int \<lfloor>- q\<rfloor> else of_int \<lfloor>q\<rfloor>)"

definition decimal_ok :: "decimal_ops \<Rightarrow> bool" where
  "decimal_ok D \<longleftrightarrow>
     (\<forall>a b. dec_val (do_Sub D a b) = dec_val a - dec_val b \<and>
        dec_val (do_Mul D a b) = dec_val a * dec_val b \<and>
        (do_LessThan D a b \<longleftrightarrow> dec_val a < dec_val b) \<and>
        (do_LessThanOrEqual D a b \<longleftrightarrow> dec_val a \<le> dec_val b)) \<and>
     (\<forall>a. dec_val (do_Truncate0 D a) = toward_zero (dec_val a)) \<and> dec_val (do_Cent D) = 1 / 100"

text \<open>\<open>x, _ := decimal.NewFromString(s)\<close>: the error is dropped, with the zero decimal.\<close>

definition from_string :: "decimal_ops \<Rightarrow> string \<Rightarrow> decimal" where
  "from_string D s = (case do_NewFromString D s of Some d \<Rightarrow> d | None \<Rightarrow> dec_Zero)"

section \<open>Value objects\<close>

type_synonym DiscountType = int

definition DiscountTypeBase :: DiscountType where [simp]: "DiscountTypeBase = 0"
definition DiscountTypeTag :: DiscountType where [simp]: "DiscountTypeTag = 1"

record GroupBuyDiscount =
  gd_DiscountName :: string
  gd_DiscountDesc :: string
  gd_DiscountType :: DiscountType
  gd_MarketPlan :: string
  gd_MarketExpr :: string
  gd_TagID :: string

record GroupBuyActivityDiscountVO =
  gv_ActivityID :: int64
  gv_ActivityName :: string
  gv_Source :: string
  gv_Channel :: string
  gv_GoodsID :: string
  gv_GroupBuyDiscount :: "GroupBuyDiscount option"
  gv_GroupType :: int
  gv_TakeLimitCount :: int
  gv_Target :: int
  gv_ValidTime :: int
  gv_Status :: int
  gv_StartTime :: time
  gv_EndTime :: time
  gv_TagID :: string
  gv_TagScope :: string

definition IsVisible :: "GroupBuyActivityDiscountVO \<Rightarrow> bool" where
  "IsVisible v =
     (if gv_TagScope v = '''' then True
      else let parts = splitOn (CHR '','') (gv_TagScope v)
           in \<not> (length parts > 0 \<and> parts ! 0 = ''1''))"

definition IsEnable :: "GroupBuyActivityDiscountVO \<Rightarrow> bool" where
  "IsEnable v =
     (if gv_TagScope v = '''' then True
      else let parts = splitOn (CHR '','') (gv_TagScope v)
           in if length parts = 2 \<and> parts ! 1 = ''2'' then False
              else if length parts = 1 \<and> parts ! 0 = ''2'' then False
              else True)"

record SCSkuActivityVO =
  sv_Source :: string
  sv_Channel :: string
  sv_ActivityID :: int64
  sv_GoodsID :: string

record SkuVO =
  sk_GoodsID :: string
  sk_GoodsName :: string
  sk_OriginalPrice :: decimal

record TeamStatisticVO =
  ts_AllTeamCount :: int64
  ts_AllTeamCompleteCount :: int64
  ts_AllTeamUserCount :: int64

record UserGroupBuyOrderDetailEntity =
  ud_UserID :: string
  ud_TeamID :: string
  ud_ActivityID :: int64
  ud_TargetCount :: int
  ud_CompleteCount :: int
  ud_LockCount :: int
  ud_ValidStartTime :: time
  ud_ValidEndTime :: time
  ud_OutTradeNo :: string

section \<open>The port of the repository\<close>

record 'w IActivityRepository =
  QueryGroupBuyActivityDiscountVO :: "int64 \<Rightarrow> ('w, GroupBuyActivityDiscountVO option) go"
  QuerySkuByGoodsID :: "string \<Rightarrow> ('w, SkuVO option) go"
  QuerySCSkuActivityBySCGoodsID :: "string \<Rightarrow> string \<Rightarrow> string \<Rightarrow> ('w, SCSkuActivityVO option) go"
  RepoIsTagCrowdRange :: "string \<Rightarrow> string \<Rightarrow> ('w, bool) go"
  DowngradeSwitch :: "('w, bool) go"
  CutRange :: "string \<Rightarrow> ('w, bool) go"
  QueryDetailListByOwner :: "int64 \<Rightarrow> string \<Rightarrow> nat \<Rightarrow> ('w, UserGroupBuyOrderDetailEntity list) go"
  QueryDetailListByRandom :: "int64 \<Rightarrow> string \<Rightarrow> nat \<Rightarrow> ('w, UserGroupBuyOrderDetailEntity list) go"
  QueryTeamStatisticByActivityID :: "int64 \<Rightarrow> ('w, TeamStatisticVO option) go"

section \<open>The discounts\<close>

record 'w IDiscountCalculateService =
  dcs_Plan :: string
  dcs_Calculate :: "string \<Rightarrow> decimal \<Rightarrow> GroupBuyDiscount \<Rightarrow> ('w, decimal) go"

definition FilterAndCalculate ::
    "'w IActivityRepository \<Rightarrow> (decimal \<Rightarrow> GroupBuyDiscount \<Rightarrow> decimal) \<Rightarrow>
     string \<Rightarrow> decimal \<Rightarrow> GroupBuyDiscount \<Rightarrow> ('w, decimal) go" where
  "FilterAndCalculate repo doCalc userID originalPrice discount =
     (if gd_DiscountType discount = DiscountTypeTag then
        go_bind (RepoIsTagCrowdRange repo (gd_TagID discount) userID)
          (\<lambda>ok. if \<not> ok then go_ret originalPrice else go_ret (doCalc originalPrice discount))
      else go_ret (doCalc originalPrice discount))"

definition minPay :: "decimal_ops \<Rightarrow> decimal \<Rightarrow> decimal" where
  "minPay D price = (if do_LessThanOrEqual D price dec_Zero then do_Cent D else price)"

definition ZJ_calc :: "decimal_ops \<Rightarrow> decimal \<Rightarrow> GroupBuyDiscount \<Rightarrow> decimal" where
  "ZJ_calc D price d = (let expr = from_string D (gd_MarketExpr d) in minPay D (do_Sub D price expr))"

definition MJ_calc :: "decimal_ops \<Rightarrow> decimal \<Rightarrow> GroupBuyDiscount \<Rightarrow> decimal" where
  "MJ_calc D price d =
     (let parts = splitOn (CHR '','') (gd_MarketExpr d) in
      if length parts < 2 then price
      else let x = from_string D (TrimSpace (parts ! 0));
               y = from_string D (TrimSpace (parts ! 1))
           in if do_LessThan D price x then price else minPay D (do_Sub D price y))"

definition N_calc :: "decimal_ops \<Rightarrow> decimal \<Rightarrow> GroupBuyDiscount \<Rightarrow> decimal" where
  "N_calc D price d = from_string D (gd_MarketExpr d)"

definition ZK_calc :: "decimal_ops \<Rightarrow> decimal \<Rightarrow> GroupBuyDiscount \<Rightarrow> decimal" where
  "ZK_calc D price d =
     (let expr = from_string D (gd_MarketExpr d);
          price' = do_Truncate0 D (do_Mul D price expr)
      in minPay D price')"

definition ZJCalculateService :: "decimal_ops \<Rightarrow> 'w IActivityRepository \<Rightarrow> 'w IDiscountCalculateService" where
  "ZJCalculateService D repo = \<lparr>dcs_Plan = ''ZJ'', dcs_Calculate = FilterAndCalculate repo (ZJ_calc D)\<rparr>"

definition MJCalculateService :: "decimal_ops \<Rightarrow> 'w IActivityRepository \<Rightarrow> 'w IDiscountCalculateService" where
  "MJCalculateService D repo = \<lparr>dcs_Plan = ''MJ'', dcs_Calculate = FilterAndCalculate repo (MJ_calc D)\<rparr>"

definition NCalculateService :: "decimal_ops \<Rightarrow> 'w IActivityRepository \<Rightarrow> 'w IDiscountCalculateService" where
  "NCalculateService D repo = \<lparr>dcs_Plan = ''N'', dcs_Calculate = FilterAndCalculate repo (N_calc D)\<rparr>"

definition ZKCalculateService :: "decimal_ops \<Rightarrow> 'w IActivityRepository \<Rightarrow> 'w IDiscountCalculateService" where
  "ZKCalculateService D repo = \<lparr>dcs_Plan = ''ZK'', dcs_Calculate = FilterAndCalculate repo (ZK_calc D)\<rparr>"

type_synonym 'w Registry = "string \<rightharpoonup> 'w IDiscountCalculateService"

definition NewRegistry :: "'w IDiscountCalculateService list \<Rightarrow> 'w Registry" where
  "NewRegistry services = foldl (\<lambda>m s. m(dcs_Plan s \<mapsto> s)) Map.empty services"

definition Registry_Get :: "'w Registry \<Rightarrow> string \<Rightarrow> 'w IDiscountCalculateService option" where
  "Registry_Get reg plan = reg plan"

text \<open>The registry the wiring of the server builds.\<close>

definition all_discounts :: "decimal_ops \<Rightarrow> 'w IActivityRepository \<Rightarrow> 'w Registry" where
  "all_discounts D repo = NewRegistry [ZJCalculateService D repo, MJCalculateService D repo,
     NCalculateService D repo, ZKCalculateService D repo]"

lemma all_discounts_simps [simp]:
  "all_discounts D repo ''ZJ'' = Some (ZJCalculateService D repo)"
  "all_discounts D repo ''MJ'' = Some (MJCalculateService D repo)"
  "all_discounts D repo ''N'' = Some (NCalculateService D repo)"
  "all_discounts D repo ''ZK'' = Some (ZKCalculateService D repo)"
  by (simp_all add: all_discounts_def NewRegistry_def ZJCalculateService_def MJCalculateService_def
      NCalculateService_def ZKCalculateService_def)

lemma all_discounts_plans:
  assumes "all_discounts D repo plan = Some s"
  shows "plan \<in> {''ZJ'', ''MJ'', ''N'', ''ZK''}"
  using assms by (auto simp: all_discounts_def NewRegistry_def ZJCalculateService_def MJCalculateService_def
      NCalculateService_def ZKCalculateService_def split: if_splits)

lemma dec_val_Zero [simp]: "dec_val dec_Zero = 0"
  by (simp add: dec_Zero_def dec_val_def)

lemma decimal_okD:
  assumes "decimal_ok D"
  shows "dec_val (do_Sub D a b) = dec_val a - dec_val b" "dec_val (do_Mul D a b) = dec_val a * dec_val b"
    "do_LessThan D a b \<longleftrightarrow> dec_val a < dec_val b" "do_LessThanOrEqual D a b \<longleftrightarrow> dec_val a \<le> dec_val b"
    "dec_val (do_Truncate0 D a) = toward_zero (dec_val a)" "dec_val (do_Cent D) = 1 / 100"
  using assms unfolding decimal_ok_def by blast+

lemma dec_val_minPay:
  assumes "decimal_ok D"
  shows "dec_val (minPay D p) = (if dec_val p \<le> 0 then 1 / 100 else dec_val p)"
  using assms by (simp add: minPay_def decimal_ok_def)

lemma toward_zero_le: "0 \<le> q \<Longrightarrow> toward_zero q \<le> q"
  by (simp add: toward_zero_def)

lemma FilterAndCalculate_cases:
  assumes "FilterAndCalculate repo calc u price d w = (Inr p, w')"
  shows "p = price \<or> p = calc price d"
  using assms by (auto simp: FilterAndCalculate_def elim!: go_bind_Inr_cases split: if_splits)

text \<open>A discount whose expression takes something off, and not more than the price it is a share of.\<close>

definition discount_sane :: "decimal_ops \<Rightarrow> string \<Rightarrow> GroupBuyDiscount \<Rightarrow> bool" where
  "discount_sane D plan d \<longleftrightarrow>
     (if plan = ''MJ'' then
        (\<forall>y. map TrimSpace (take 1 (drop 1 (splitOn (CHR '','') (gd_MarketExpr d)))) = [y] \<longrightarrow>
           0 \<le> dec_val (from_string D y))
      else 0 \<le> dec_val (from_string D (gd_MarketExpr d)) \<and>
        (plan = ''ZK'' \<longrightarrow> dec_val (from_string D (gd_MarketExpr d)) \<le> 1))"

lemma MJ_calc_bounds:
  assumes D: "decimal_ok D" and "0 < dec_val price"
  shows "0 < dec_val (MJ_calc D price d)"
    and "discount_sane D ''MJ'' d \<Longrightarrow> dec_val (MJ_calc D price d) \<le> max (dec_val price) (1 / 100)"
proof -
  show "0 < dec_val (MJ_calc D price d)"
    using assms by (simp add: MJ_calc_def Let_def dec_val_minPay)
  assume sane: "discount_sane D ''MJ'' d"
  show "dec_val (MJ_calc D price d) \<le> max (dec_val price) (1 / 100)"
  proof (cases "splitOn (CHR '','') (gd_MarketExpr d)")
    case (Cons a as)
    show ?thesis
    proof (cases as)
      case (Cons b bs)
      with \<open>splitOn _ _ = a # as\<close> sane have "0 \<le> dec_val (from_string D (TrimSpace b))"
        by (simp add: discount_sane_def)
      with D \<open>splitOn _ _ = a # as\<close> Cons show ?thesis
        by (simp add: MJ_calc_def Let_def dec_val_minPay decimal_okD le_max_iff_disj)
    qed (use Cons in \<open>simp add: MJ_calc_def\<close>)
  qed simp
qed

lemma ZJ_calc_bounds:
  assumes D: "decimal_ok D" and "0 < dec_val price"
  shows "0 < dec_val (ZJ_calc D price d)"
    and "discount_sane D ''ZJ'' d \<Longrightarrow> dec_val (ZJ_calc D price d) \<le> max (dec_val price) (1 / 100)"
  using assms by (simp_all add: ZJ_calc_def Let_def dec_val_minPay discount_sane_def decimal_okD le_max_iff_disj)

lemma ZK_calc_bounds:
  assumes D: "decimal_ok D" and p: "0 < dec_val price"
  shows "0 < dec_val (ZK_calc D price d)"
    and "discount_sane D ''ZK'' d \<Longrightarrow> dec_val (ZK_calc D price d) \<le> max (dec_val price) (1 / 100)"
proof -
  show "0 < dec_val (ZK_calc D price d)" using assms by (simp add: ZK_calc_def dec_val_minPay)
  let ?e = "dec_val (from_string D (gd_MarketExpr d))"
  assume "discount_sane D ''ZK'' d"
  then have e: "0 \<le> ?e" "?e \<le> 1" by (simp_all add: discount_sane_def)
  have "toward_zero (dec_val price * ?e) \<le> dec_val price * ?e" using p e by (intro toward_zero_le) simp
  also have "\<dots> \<le> dec_val price" using p e by (simp add: mult_left_le)
  finally show "dec_val (ZK_calc D price d) \<le> max (dec_val price) (1 / 100)"
    using D by (simp add: ZK_calc_def Let_def dec_val_minPay decimal_okD le_max_iff_disj)
qed

section \<open>A reference instance\<close>

definition dec_coef_at :: "int \<Rightarrow> decimal \<Rightarrow> int" where
  "dec_coef_at e d = d_coef d * 10 ^ nat (d_exp d - e)"

definition refDecimal :: decimal_ops where
  "refDecimal =
     \<lparr>do_Sub = (\<lambda>a b. let e = min (d_exp a) (d_exp b) in Decimal (dec_coef_at e a - dec_coef_at e b) e),
      do_Mul = (\<lambda>a b. Decimal (d_coef a * d_coef b) (d_exp a + d_exp b)),
      do_LessThan = (\<lambda>a b. let e = min (d_exp a) (d_exp b) in dec_coef_at e a < dec_coef_at e b),
      do_LessThanOrEqual = (\<lambda>a b. let e = min (d_exp a) (d_exp b) in dec_coef_at e a \<le> dec_coef_at e b),
      do_Truncate0 = (\<lambda>a. if 0 \<le> d_exp a then a
        else Decimal (sgn (d_coef a) * (\<bar>d_coef a\<bar> div 10 ^ nat (- d_exp a))) 0),
      do_NewFromString = (\<lambda>s. if s = ''20'' then Some (Decimal 20 0)
        else if s = ''100'' then Some (Decimal 100 0) else if s = ''0.85'' then Some (Decimal 85 (-2)) else None),
      do_Cent = Decimal 1 (-2)\<rparr>"


lemma dec_val_at:
  assumes "e \<le> d_exp d"
  shows "dec_val d = of_int (dec_coef_at e d) * 10 powi e"
proof -
  have "(10 :: rat) powi d_exp d = 10 powi (d_exp d - e) * 10 powi e"
    by (simp flip: power_int_add)
  also have "(10 :: rat) powi (d_exp d - e) = of_int (10 ^ nat (d_exp d - e))"
    using assms by (simp add: power_int_def)
  finally show ?thesis by (simp add: dec_val_def dec_coef_at_def)
qed

lemma toward_zero_div:
  assumes "0 < m"
  shows "toward_zero (of_int c / of_int m) = of_int (sgn c * (\<bar>c\<bar> div m))"
proof (cases "c < 0")
  case True
  have "- (of_int c / of_int m :: rat) = of_int (- c) / of_int m" by simp
  then have "\<lfloor>- (of_int c / of_int m :: rat)\<rfloor> = (- c) div m" by (simp only: floor_divide_of_int_eq)
  moreover have "(of_int c / of_int m :: rat) < 0" using True assms by (simp add: divide_less_0_iff)
  ultimately show ?thesis using True by (simp add: toward_zero_def)
next
  case False
  then have "\<not> (of_int c / of_int m :: rat) < 0" using assms by (simp add: divide_less_0_iff)
  with False show ?thesis by (cases "c = 0") (simp_all add: toward_zero_def floor_divide_of_int_eq)
qed

lemma decimal_ok_ref: "decimal_ok refDecimal"
proof -
  have at: "dec_val a = of_int (dec_coef_at (min (d_exp a) (d_exp b)) a) * 10 powi min (d_exp a) (d_exp b)"
    "dec_val b = of_int (dec_coef_at (min (d_exp a) (d_exp b)) b) * 10 powi min (d_exp a) (d_exp b)" for a b
    by (rule dec_val_at, simp)+
  have pos: "(0 :: rat) < 10 powi e" for e by simp
  have sub: "dec_val (do_Sub refDecimal a b) = dec_val a - dec_val b" for a b
    by (subst at [of a b], subst at(2) [of b a]) (simp add: refDecimal_def Let_def dec_val_def left_diff_distrib)
  have less: "do_LessThan refDecimal a b \<longleftrightarrow> dec_val a < dec_val b"
    "do_LessThanOrEqual refDecimal a b \<longleftrightarrow> dec_val a \<le> dec_val b" for a b
    using at(1) [of a b] at(2) [of b a] pos [of "min (d_exp a) (d_exp b)"]
    by (simp_all add: refDecimal_def Let_def)
  have mul: "dec_val (do_Mul refDecimal a b) = dec_val a * dec_val b" for a b
    by (simp add: refDecimal_def dec_val_def power_int_add)
  have trunc: "dec_val (do_Truncate0 refDecimal a) = toward_zero (dec_val a)" for a
  proof (cases "0 \<le> d_exp a")
    case True
    then have "dec_val a = of_int (d_coef a * 10 ^ nat (d_exp a))" by (simp add: dec_val_def power_int_def)
    then have "toward_zero (dec_val a) = dec_val a" by (simp add: toward_zero_def flip: of_int_minus)
    with True show ?thesis by (simp add: refDecimal_def)
  next
    case False
    then have "(10 :: rat) powi d_exp a = inverse 10 ^ nat (- d_exp a)" by (simp add: power_int_def)
    also have "\<dots> = inverse (of_int (10 ^ nat (- d_exp a)))" by (simp only: power_inverse of_int_power of_int_numeral)
    finally have v: "dec_val a = of_int (d_coef a) / of_int (10 ^ nat (- d_exp a))"
      unfolding dec_val_def divide_inverse by (simp only:)
    have "do_Truncate0 refDecimal a = Decimal (sgn (d_coef a) * (\<bar>d_coef a\<bar> div 10 ^ nat (- d_exp a))) 0"
      using False by (simp add: refDecimal_def)
    then have "dec_val (do_Truncate0 refDecimal a) = of_int (sgn (d_coef a) * (\<bar>d_coef a\<bar> div 10 ^ nat (- d_exp a)))"
      by (simp only: dec_val_def decimal.sel power_int_0_right mult_1_right)
    then show ?thesis unfolding v by (subst toward_zero_div) simp_all
  qed
  have "dec_val (do_Cent refDecimal) = 1 / 100" by (simp add: refDecimal_def dec_val_def power_int_def power2_eq_square)
  then show ?thesis unfolding decimal_ok_def using sub less mul trunc by simp
qed

section \<open>Properties\<close>

text \<open>
  C25. Whatever the plan, but for N, a discount of a positive price leaves a positive price, and when
  its expression takes something off it, at most the original one (or one cent).
\<close>

theorem discounted_price_bounds:
  assumes D: "decimal_ok D" and price: "0 < dec_val price" and plan: "plan \<noteq> ''N''"
    and s: "Registry_Get (all_discounts D repo) plan = Some s"
    and run: "dcs_Calculate s userID price d w = (Inr p, w')"
  shows "0 < dec_val p \<and> (discount_sane D plan d \<longrightarrow> dec_val p \<le> max (dec_val price) (1 / 100))"
proof -
  from s plan have "plan \<in> {''ZJ'', ''MJ'', ''ZK''}"
    using all_discounts_plans unfolding Registry_Get_def by blast
  then consider "plan = ''ZJ''" "FilterAndCalculate repo (ZJ_calc D) userID price d w = (Inr p, w')"
    | "plan = ''MJ''" "FilterAndCalculate repo (MJ_calc D) userID price d w = (Inr p, w')"
    | "plan = ''ZK''" "FilterAndCalculate repo (ZK_calc D) userID price d w = (Inr p, w')"
    using s run by (auto simp: Registry_Get_def ZJCalculateService_def MJCalculateService_def ZKCalculateService_def)
  then show ?thesis
  proof cases
    case 1
    with FilterAndCalculate_cases [OF 1(2)] ZJ_calc_bounds [OF D price] price show ?thesis by auto
  next
    case 2
    with FilterAndCalculate_cases [OF 2(2)] MJ_calc_bounds [OF D price] price show ?thesis by auto
  next
    case 3
    with FilterAndCalculate_cases [OF 3(2)] ZK_calc_bounds [OF D price] price show ?thesis by auto
  qed
qed

definition ex_discount :: "string \<Rightarrow> string \<Rightarrow> GroupBuyDiscount" where
  "ex_discount plan expr = \<lparr>gd_DiscountName = ''d'', gd_DiscountDesc = ''d'', gd_DiscountType = 0,
     gd_MarketPlan = plan, gd_MarketExpr = expr, gd_TagID = ''''\<rparr>"

text \<open>A reduction of 20 on a price of 0.85: the cent that is left to pay.\<close>

lemma discounted_price_witness:
  "\<exists>p w'. dcs_Calculate (ZJCalculateService refDecimal (undefined :: unit IActivityRepository)) ''ann''
     (Decimal 85 (-2)) (ex_discount ''ZJ'' ''20'') () = (Inr p, w') \<and> 0 < dec_val p \<and> dec_val p \<le> 85 / 100"
proof -
  let ?d = "ex_discount ''ZJ'' ''20''"
  have price: "dec_val (Decimal 85 (-2)) = 85 / 100"
    by (simp add: dec_val_def power_int_def power2_eq_square)
  have "dcs_Calculate (ZJCalculateService refDecimal (undefined :: unit IActivityRepository)) ''ann''
     (Decimal 85 (-2)) ?d () = (Inr (ZJ_calc refDecimal (Decimal 85 (-2)) ?d), ())"
    by (simp add: ZJCalculateService_def FilterAndCalculate_def ex_discount_def)
  moreover from discounted_price_bounds [OF decimal_ok_ref _ _ _ this, of "''ZJ''" "undefined :: unit IActivityRepository"]
  have "0 < dec_val (ZJ_calc refDecimal (Decimal 85 (-2)) ?d)"
    "dec_val (ZJ_calc refDecimal (Decimal 85 (-2)) ?d) \<le> 85 / 100"
    by (simp_all add: price Registry_Get_def discount_sane_def ex_discount_def from_string_def refDecimal_def
        dec_val_def power_int_def power2_eq_square)
  ultimately show ?thesis by blast
qed

text \<open>
  The plan N pays what its expression says and no more: an expression that is no number, zero
  or negative makes the price zero or negative, for every user it applies to.
\<close>

lemma n_plan_has_no_floor:
  assumes D: "decimal_ok D" and base: "gd_DiscountType d \<noteq> DiscountTypeTag"
    and s: "Registry_Get (all_discounts D repo) ''N'' = Some s"
    and expr: "case do_NewFromString D (gd_MarketExpr d) of None \<Rightarrow> True | Some x \<Rightarrow> dec_val x \<le> 0"
  shows "\<exists>p. dcs_Calculate s userID price d w = (Inr p, w) \<and> dec_val p \<le> 0"
  using assms
  by (auto simp: Registry_Get_def NCalculateService_def FilterAndCalculate_def N_calc_def from_string_def
      split: option.splits)

lemma n_plan_witness:
  "\<exists>p. dcs_Calculate (NCalculateService refDecimal (undefined :: unit IActivityRepository)) ''ann''
     (Decimal 100 0) (ex_discount ''N'' ''9,9'') () = (Inr p, ()) \<and> dec_val p \<le> 0"
  using n_plan_has_no_floor [OF decimal_ok_ref, of "ex_discount ''N'' ''9,9''" "undefined :: unit IActivityRepository"]
  by (simp add: Registry_Get_def ex_discount_def refDecimal_def)

end
