(* ===== verification/Trial.thy ===== *)
theory Trial
  imports Discount
begin

text \<open>
  The trial calculation of the activity context (\<open>service/trial/node/nodes.go\<close>: root, switch, market,
  tag, end and error node) and the index service (\<open>service/index_service.go\<close>), over any repository and
  discount registry. Logging is left out.

  The activity and the product are loaded by two goroutines; both only read. What the model takes as a
  parameter of a call: whether the semaphore is acquired within the time limit, and, when both loads
  fail, whose error comes first.
\<close>

section \<open>Entities\<close>

record MarketProductEntity =
  mp_UserID :: string
  mp_GoodsID :: string
  mp_Source :: string
  mp_Channel :: string
  mp_ActivityID :: "int64 option"

record TrialBalanceEntity =
  tb_GoodsID :: string
  tb_GoodsName :: string
  tb_OriginalPrice :: decimal
  tb_DeductionPrice :: decimal
  tb_PayPrice :: decimal
  tb_TargetCount :: int
  tb_StartTime :: time
  tb_EndTime :: time
  tb_IsVisible :: bool
  tb_IsEnable :: bool
  tb_GroupBuyActivityDiscountVO :: "GroupBuyActivityDiscountVO option"

record TrialContext =
  tc_GroupBuyActivityDiscountVO :: "GroupBuyActivityDiscountVO option"
  tc_SkuVO :: "SkuVO option"
  tc_DeductionPrice :: "decimal option"
  tc_PayPrice :: "decimal option"
  tc_Visible :: bool
  tc_Enable :: bool

definition empty_trial_context :: TrialContext where
  "empty_trial_context = \<lparr>tc_GroupBuyActivityDiscountVO = None, tc_SkuVO = None, tc_DeductionPrice = None,
     tc_PayPrice = None, tc_Visible = False, tc_Enable = False\<rparr>"

definition zero_trial :: TrialBalanceEntity where
  "zero_trial = \<lparr>tb_GoodsID = '''', tb_GoodsName = '''', tb_OriginalPrice = dec_Zero, tb_DeductionPrice = dec_Zero,
     tb_PayPrice = dec_Zero, tb_TargetCount = 0, tb_StartTime = 0, tb_EndTime = 0, tb_IsVisible = False,
     tb_IsEnable = False, tb_GroupBuyActivityDiscountVO = None\<rparr>"

section \<open>The nodes\<close>

record 'w trial_chain =
  ch_repo :: "'w IActivityRepository"
  ch_discount :: "'w Registry"
  ch_ops :: decimal_ops

record load_env =
  le_acquire :: "go_error option"
  le_skuFirst :: bool

type_synonym 'w trial_node = "MarketProductEntity \<Rightarrow> TrialContext \<Rightarrow> ('w, TrialBalanceEntity) go"

text \<open>A dereference of the nil pointers the node relies on panics.\<close>

definition endNode :: "'w trial_node" where
  "endNode req dc =
     (case (tc_GroupBuyActivityDiscountVO dc, tc_SkuVO dc) of
        (Some g, Some sku) \<Rightarrow> go_ret
          \<lparr>tb_GoodsID = sk_GoodsID sku, tb_GoodsName = sk_GoodsName sku, tb_OriginalPrice = sk_OriginalPrice sku,
           tb_DeductionPrice = (case tc_DeductionPrice dc of Some p \<Rightarrow> p | None \<Rightarrow> dec_Zero),
           tb_PayPrice = (case tc_PayPrice dc of Some p \<Rightarrow> p | None \<Rightarrow> dec_Zero),
           tb_TargetCount = gv_Target g, tb_StartTime = gv_StartTime g, tb_EndTime = gv_EndTime g,
           tb_IsVisible = tc_Visible dc, tb_IsEnable = tc_Enable dc, tb_GroupBuyActivityDiscountVO = Some g\<rparr>
      | _ \<Rightarrow> go_err (Panic ''nil pointer dereference''))"

definition errorNode :: "'w trial_node" where
  "errorNode req dc =
     (if tc_GroupBuyActivityDiscountVO dc = None \<or> tc_SkuVO dc = None then go_err (NewAppException E0002)
      else go_ret zero_trial)"

definition tagNode :: "'w trial_chain \<Rightarrow> 'w trial_node" where
  "tagNode c req dc =
     (case tc_GroupBuyActivityDiscountVO dc of
        None \<Rightarrow> go_err (Panic ''nil pointer dereference'')
      | Some g \<Rightarrow>
          if gv_TagID g = '''' then endNode req (dc\<lparr>tc_Visible := True, tc_Enable := True\<rparr>)
          else go_bind (RepoIsTagCrowdRange (ch_repo c) (gv_TagID g) (mp_UserID req))
            (\<lambda>inCrowd. endNode req
               (dc\<lparr>tc_Visible := IsVisible g \<or> inCrowd, tc_Enable := IsEnable g \<or> inCrowd\<rparr>)))"

definition loadActivity ::
    "'w trial_chain \<Rightarrow> MarketProductEntity \<Rightarrow> ('w, GroupBuyActivityDiscountVO option) go" where
  "loadActivity c req =
     (case mp_ActivityID req of
        Some activityID \<Rightarrow> QueryGroupBuyActivityDiscountVO (ch_repo c) activityID
      | None \<Rightarrow>
          go_bind (QuerySCSkuActivityBySCGoodsID (ch_repo c) (mp_Source req) (mp_Channel req) (mp_GoodsID req))
            (\<lambda>sc. case sc of
               None \<Rightarrow> go_ret None
             | Some v \<Rightarrow> QueryGroupBuyActivityDiscountVO (ch_repo c) (sv_ActivityID v)))"

definition multiThreadLoad ::
    "'w trial_chain \<Rightarrow> load_env \<Rightarrow> MarketProductEntity \<Rightarrow> TrialContext \<Rightarrow> ('w, TrialContext) go" where
  "multiThreadLoad c L req dc w =
     (case le_acquire L of
        Some err \<Rightarrow> (Inl err, w)
      | None \<Rightarrow>
          (case loadActivity c req w of (act, w1) \<Rightarrow>
             case QuerySkuByGoodsID (ch_repo c) (mp_GoodsID req) w1 of (sku, w2) \<Rightarrow>
               (case (act, sku) of
                  (Inr a, Inr s) \<Rightarrow> (Inr (dc\<lparr>tc_GroupBuyActivityDiscountVO := a, tc_SkuVO := s\<rparr>), w2)
                | (Inl e, Inr s) \<Rightarrow> (Inl e, w2)
                | (Inr a, Inl e) \<Rightarrow> (Inl e, w2)
                | (Inl e1, Inl e2) \<Rightarrow> (Inl (if le_skuFirst L then e2 else e1), w2))))"

definition marketNode :: "'w trial_chain \<Rightarrow> load_env \<Rightarrow> 'w trial_node" where
  "marketNode c L req dc =
     go_bind (multiThreadLoad c L req dc)
       (\<lambda>dc. case (tc_GroupBuyActivityDiscountVO dc, tc_SkuVO dc) of
          (Some g, Some sku) \<Rightarrow>
            (case gv_GroupBuyDiscount g of
               None \<Rightarrow> errorNode req dc
             | Some gbd \<Rightarrow>
                 (case Registry_Get (ch_discount c) (gd_MarketPlan gbd) of
                    None \<Rightarrow> go_err (NewAppException E0001)
                  | Some svc \<Rightarrow>
                      go_bind (dcs_Calculate svc (mp_UserID req) (sk_OriginalPrice sku) gbd)
                        (\<lambda>payPrice.
                           let deduction = do_Sub (ch_ops c) (sk_OriginalPrice sku) payPrice
                           in tagNode c req (dc\<lparr>tc_DeductionPrice := Some deduction, tc_PayPrice := Some payPrice\<rparr>))))
        | _ \<Rightarrow> errorNode req dc)"

definition switchNode :: "'w trial_chain \<Rightarrow> load_env \<Rightarrow> 'w trial_node" where
  "switchNode c L req dc =
     go_bind (DowngradeSwitch (ch_repo c))
       (\<lambda>down. if down then go_err (NewAppException E0003)
          else go_bind (CutRange (ch_repo c) (mp_UserID req))
            (\<lambda>cut. if \<not> cut then go_err (NewAppException E0004) else marketNode c L req dc))"

definition rootNode :: "'w trial_chain \<Rightarrow> load_env \<Rightarrow> 'w trial_node" where
  "rootNode c L req dc =
     (if mp_UserID req = '''' \<or> mp_GoodsID req = '''' \<or> mp_Source req = '''' \<or> mp_Channel req = ''''
      then go_err (NewAppException ILLEGAL_PARAMETER)
      else switchNode c L req dc)"

definition trial_Apply ::
    "'w trial_chain \<Rightarrow> load_env \<Rightarrow> MarketProductEntity \<Rightarrow> ('w, TrialBalanceEntity) go" where
  "trial_Apply c L req = rootNode c L req empty_trial_context"

section \<open>The index service\<close>

record 'w IIndexGroupBuyMarketService =
  IndexMarketTrial :: "MarketProductEntity \<Rightarrow> ('w, TrialBalanceEntity) go"
  QueryInProgressUserGroupBuyOrderDetailList ::
    "int64 \<Rightarrow> string \<Rightarrow> nat \<Rightarrow> nat \<Rightarrow> ('w, UserGroupBuyOrderDetailEntity list) go"
  QueryTeamStatistic :: "int64 \<Rightarrow> ('w, TeamStatisticVO option) go"

definition index_QueryDetailList ::
    "'w IActivityRepository \<Rightarrow> int64 \<Rightarrow> string \<Rightarrow> nat \<Rightarrow> nat \<Rightarrow> ('w, UserGroupBuyOrderDetailEntity list) go" where
  "index_QueryDetailList repo activityID userID ownerCount randomCount =
     go_bind (if ownerCount \<noteq> 0 then QueryDetailListByOwner repo activityID userID ownerCount else go_ret [])
       (\<lambda>own. go_bind
          (if randomCount \<noteq> 0 then QueryDetailListByRandom repo activityID userID randomCount else go_ret [])
          (\<lambda>rand. go_ret (own @ rand)))"

definition NewIndexGroupBuyMarketService ::
    "'w IActivityRepository \<Rightarrow> 'w trial_chain \<Rightarrow> load_env \<Rightarrow> 'w IIndexGroupBuyMarketService" where
  "NewIndexGroupBuyMarketService repo c L =
     \<lparr>IndexMarketTrial = trial_Apply c L,
      QueryInProgressUserGroupBuyOrderDetailList = index_QueryDetailList repo,
      QueryTeamStatistic = QueryTeamStatisticByActivityID repo\<rparr>"

section \<open>What a trial does, over a repository whose queries only read\<close>

locale activity_queries =
  fixes repo :: "'w IActivityRepository"
    and sound :: bool
  assumes reads_activity: "reads (QueryGroupBuyActivityDiscountVO repo a)"
    and reads_sku: "reads (QuerySkuByGoodsID repo g)"
    and reads_sc: "reads (QuerySCSkuActivityBySCGoodsID repo s ch g)"
    and reads_crowd: "sound \<Longrightarrow> reads (RepoIsTagCrowdRange repo t u)"
    and reads_down: "reads (DowngradeSwitch repo)"
    and reads_cut: "reads (CutRange repo u)"
begin

lemma reads_loadActivity:
  assumes "ch_repo c = repo"
  shows "reads (loadActivity c req)"
  unfolding loadActivity_def assms
  by (auto intro!: reads_bind reads_ret reads_activity reads_sc split: option.splits)

lemma loadActivity_query:
  assumes "loadActivity c req w = (Inr (Some g), w)" and "ch_repo c = repo"
  obtains a where "QueryGroupBuyActivityDiscountVO repo a w = (Inr (Some g), w)"
    "\<forall>i. mp_ActivityID req = Some i \<longrightarrow> a = i"
proof (cases "mp_ActivityID req")
  case (Some i)
  then have "QueryGroupBuyActivityDiscountVO repo i w = (Inr (Some g), w)"
    using assms(1) unfolding loadActivity_def assms(2) by simp
  then show ?thesis by (rule that) (use Some in simp)
next
  case None
  with assms(1) have "go_bind (QuerySCSkuActivityBySCGoodsID repo (mp_Source req) (mp_Channel req) (mp_GoodsID req))
      (\<lambda>sc. case sc of None \<Rightarrow> go_ret None | Some v \<Rightarrow> QueryGroupBuyActivityDiscountVO repo (sv_ActivityID v)) w
      = (Inr (Some g), w)"
    unfolding loadActivity_def assms(2) by simp
  then obtain sc w1 where sc: "QuerySCSkuActivityBySCGoodsID repo (mp_Source req) (mp_Channel req) (mp_GoodsID req) w
      = (Inr sc, w1)"
    and rest: "(case sc of None \<Rightarrow> go_ret None | Some v \<Rightarrow> QueryGroupBuyActivityDiscountVO repo (sv_ActivityID v)) w1
      = (Inr (Some g), w)"
    by (elim go_bind_Inr_cases)
  have "w1 = w" using readsD [OF reads_sc sc] .
  with rest obtain v :: SCSkuActivityVO where "QueryGroupBuyActivityDiscountVO repo (sv_ActivityID v) w = (Inr (Some g), w)"
    by (cases sc) auto
  then show ?thesis by (rule that) (use None in simp)
qed

lemma load_cases:
  assumes "multiThreadLoad c L req dc w = (q, w')" and "ch_repo c = repo"
  obtains (failed) e where "q = Inl e" "w' = w"
  | (loaded) a s where "loadActivity c req w = (Inr a, w)" "QuerySkuByGoodsID repo (mp_GoodsID req) w = (Inr s, w)"
      "q = Inr (dc\<lparr>tc_GroupBuyActivityDiscountVO := a, tc_SkuVO := s\<rparr>)" "w' = w"
proof (cases "le_acquire L")
  case (Some e)
  with assms have "q = Inl e" "w' = w" by (simp_all add: multiThreadLoad_def)
  then show ?thesis by (rule failed)
next
  case None
  obtain x w1 where x: "loadActivity c req w = (x, w1)" by force
  obtain y w2 where y: "QuerySkuByGoodsID repo (mp_GoodsID req) w1 = (y, w2)" by force
  have w: "w1 = w" "w2 = w"
    using readsD [OF reads_loadActivity [OF assms(2)] x] readsD [OF reads_sku y] by simp_all
  note run = assms(1) [unfolded multiThreadLoad_def None option.case x prod.case assms(2) y w]
  show ?thesis
  proof (cases "\<exists>a s. x = Inr a \<and> y = Inr s")
    case True
    then obtain a s where as: "x = Inr a" "y = Inr s" by blast
    with run y w have "q = Inr (dc\<lparr>tc_GroupBuyActivityDiscountVO := a, tc_SkuVO := s\<rparr>)" "w' = w" by simp_all
    with loaded x y w as show ?thesis by blast
  next
    case False
    with run y w have "\<exists>e. q = Inl e" "w' = w" by (auto split: sum.splits)
    with failed show ?thesis by blast
  qed
qed

lemma reads_calculate:
  "sound \<Longrightarrow> all_discounts D repo plan = Some s \<Longrightarrow> reads (dcs_Calculate s u p d)"
  using all_discounts_plans [of D repo plan s]
  by (auto simp: ZJCalculateService_def MJCalculateService_def NCalculateService_def ZKCalculateService_def
      FilterAndCalculate_def intro!: reads_bind reads_ret reads_crowd)

lemma endNode_run:
  assumes "endNode req dc w = (q, w')" and "tc_GroupBuyActivityDiscountVO dc = Some g" "tc_SkuVO dc = Some sku"
    "tc_PayPrice dc = Some pay" "tc_DeductionPrice dc = Some ded"
  obtains trial where "q = Inr trial" "w' = w" "tb_GoodsID trial = sk_GoodsID sku"
      "tb_OriginalPrice trial = sk_OriginalPrice sku" "tb_PayPrice trial = pay" "tb_DeductionPrice trial = ded"
      "tb_GroupBuyActivityDiscountVO trial = Some g" "tb_IsVisible trial = tc_Visible dc" "tb_IsEnable trial = tc_Enable dc"
proof -
  from assms obtain trial where t: "trial = \<lparr>tb_GoodsID = sk_GoodsID sku, tb_GoodsName = sk_GoodsName sku,
      tb_OriginalPrice = sk_OriginalPrice sku, tb_DeductionPrice = ded, tb_PayPrice = pay,
      tb_TargetCount = gv_Target g, tb_StartTime = gv_StartTime g, tb_EndTime = gv_EndTime g,
      tb_IsVisible = tc_Visible dc, tb_IsEnable = tc_Enable dc, tb_GroupBuyActivityDiscountVO = Some g\<rparr>"
    and q: "q = Inr trial" "w' = w"
    by (simp add: endNode_def)
  from q show ?thesis by (rule that) (simp_all add: t)
qed

lemma tag_cases:
  assumes "tagNode c req dc w = (q, w')" and "ch_repo c = repo"
    and sound
    and "tc_GroupBuyActivityDiscountVO dc = Some g" "tc_SkuVO dc = Some sku" "tc_PayPrice dc = Some pay"
    and "tc_DeductionPrice dc = Some ded"
  obtains (failed) e where "q = Inl e" "w' = w"
  | (tried) trial where "q = Inr trial" "w' = w" "tb_GoodsID trial = sk_GoodsID sku"
      "tb_OriginalPrice trial = sk_OriginalPrice sku" "tb_PayPrice trial = pay" "tb_DeductionPrice trial = ded"
      "tb_GroupBuyActivityDiscountVO trial = Some g"
      "if gv_TagID g = '''' then tb_IsVisible trial \<and> tb_IsEnable trial
       else \<exists>b. RepoIsTagCrowdRange repo (gv_TagID g) (mp_UserID req) w = (Inr b, w) \<and>
         tb_IsVisible trial = (IsVisible g \<or> b) \<and> tb_IsEnable trial = (IsEnable g \<or> b)"
proof (cases "gv_TagID g = ''''")
  case True
  with assms(1,4) have "endNode req (dc\<lparr>tc_Visible := True, tc_Enable := True\<rparr>) w = (q, w')"
    by (simp add: tagNode_def)
  then show ?thesis
    by (rule endNode_run [where g = g and sku = sku and pay = pay and ded = ded])
      (use assms(4-7) True in \<open>simp_all add: tried\<close>)
next
  case False
  with assms have "go_bind (RepoIsTagCrowdRange repo (gv_TagID g) (mp_UserID req))
      (\<lambda>b. endNode req (dc\<lparr>tc_Visible := IsVisible g \<or> b, tc_Enable := IsEnable g \<or> b\<rparr>)) w = (q, w')"
    by (simp add: tagNode_def)
  then show ?thesis
  proof (cases rule: go_bind_cases)
    case (fails e)
    with failed readsD [OF reads_crowd [OF assms(3)] fails(1)] show ?thesis by blast
  next
    case (goes_on b w1)
    then have w1: "w1 = w" using readsD [OF reads_crowd [OF assms(3)]] by blast
    from goes_on(2) show ?thesis
    proof (rule endNode_run [where g = g and sku = sku and pay = pay and ded = ded])
      fix trial
      assume q: "q = Inr trial" "w' = w1" and t: "tb_GoodsID trial = sk_GoodsID sku"
        "tb_OriginalPrice trial = sk_OriginalPrice sku" "tb_PayPrice trial = pay" "tb_DeductionPrice trial = ded"
        "tb_GroupBuyActivityDiscountVO trial = Some g"
        and v: "tb_IsVisible trial = tc_Visible (dc\<lparr>tc_Visible := IsVisible g \<or> b, tc_Enable := IsEnable g \<or> b\<rparr>)"
        "tb_IsEnable trial = tc_Enable (dc\<lparr>tc_Visible := IsVisible g \<or> b, tc_Enable := IsEnable g \<or> b\<rparr>)"
      show thesis
        by (rule tried [OF q(1) _ t]) (use q(2) v False w1 goes_on(1) in simp_all)
    qed (use assms(4-7) in simp_all)
  qed
qed

lemma market_cases:
  assumes run: "marketNode c L req dc w = (q, w')" and c: "ch_repo c = repo" "ch_discount c = all_discounts (ch_ops c) repo"
    and sound
  obtains (failed) e where "q = Inl e" "w' = w"
  | (empty) g where "q = Inr zero_trial" "w' = w" "loadActivity c req w = (Inr (Some g), w)" "gv_GroupBuyDiscount g = None"
  | (tried) g sku gbd svc pay trial where "q = Inr trial" "w' = w"
      "loadActivity c req w = (Inr (Some g), w)" "QuerySkuByGoodsID repo (mp_GoodsID req) w = (Inr (Some sku), w)"
      "gv_GroupBuyDiscount g = Some gbd" "all_discounts (ch_ops c) repo (gd_MarketPlan gbd) = Some svc"
      "dcs_Calculate svc (mp_UserID req) (sk_OriginalPrice sku) gbd w = (Inr pay, w)"
      "tb_GoodsID trial = sk_GoodsID sku" "tb_OriginalPrice trial = sk_OriginalPrice sku" "tb_PayPrice trial = pay"
      "tb_DeductionPrice trial = do_Sub (ch_ops c) (sk_OriginalPrice sku) pay"
      "tb_GroupBuyActivityDiscountVO trial = Some g"
      "if gv_TagID g = '''' then tb_IsVisible trial \<and> tb_IsEnable trial
       else \<exists>b. RepoIsTagCrowdRange repo (gv_TagID g) (mp_UserID req) w = (Inr b, w) \<and>
         tb_IsVisible trial = (IsVisible g \<or> b) \<and> tb_IsEnable trial = (IsEnable g \<or> b)"
  using run unfolding marketNode_def
proof (cases rule: go_bind_cases)
  case (fails e)
  from fails(1) c(1) have "w' = w" by (cases rule: load_cases) simp_all
  with fails(2) failed show ?thesis by blast
next
  case (goes_on dc1 w1)
  from goes_on(1) c(1) obtain a s where load: "loadActivity c req w = (Inr a, w)"
    "QuerySkuByGoodsID repo (mp_GoodsID req) w = (Inr s, w)" "w1 = w"
    and dc1: "dc1 = dc\<lparr>tc_GroupBuyActivityDiscountVO := a, tc_SkuVO := s\<rparr>"
    by (cases rule: load_cases) simp_all
  show ?thesis
  proof (cases "\<exists>g sku gbd. a = Some g \<and> s = Some sku \<and> gv_GroupBuyDiscount g = Some gbd")
    case False
    then have "(\<exists>e. q = Inl e) \<and> w' = w \<or> q = Inr zero_trial \<and> w' = w \<and> (\<exists>g. a = Some g \<and> gv_GroupBuyDiscount g = None)"
      using goes_on(2) load(3) dc1 by (auto simp: errorNode_def split: option.splits)
    with load(1) failed empty show ?thesis by blast
  next
    case True
    then obtain g sku gbd where g: "a = Some g" "s = Some sku" "gv_GroupBuyDiscount g = Some gbd" by blast
    show ?thesis
    proof (cases "all_discounts (ch_ops c) repo (gd_MarketPlan gbd)")
      case None
      with goes_on(2) load(3) dc1 g c(2) have "q = Inl (NewAppException E0001)" "w' = w"
        by (auto simp: Registry_Get_def)
      then show ?thesis by (rule failed)
    next
      case svc: (Some svc)
      let ?dc = "\<lambda>pay. dc1\<lparr>tc_DeductionPrice := Some (do_Sub (ch_ops c) (sk_OriginalPrice sku) pay), tc_PayPrice := Some pay\<rparr>"
      from goes_on(2) load(3) dc1 g c(2) svc
      have "go_bind (dcs_Calculate svc (mp_UserID req) (sk_OriginalPrice sku) gbd) (\<lambda>pay. tagNode c req (?dc pay)) w
          = (q, w')"
        by (simp add: Registry_Get_def Let_def)
      then show ?thesis
      proof (cases rule: go_bind_cases)
        case (fails e)
        with failed readsD [OF reads_calculate [OF \<open>sound\<close> svc] fails(1)] show ?thesis by blast
      next
        case pay: (goes_on pay w2)
        then have w2: "w2 = w" using readsD [OF reads_calculate [OF \<open>sound\<close> svc]] by blast
        from pay(2) c(1) \<open>sound\<close> show ?thesis
          by (rule tag_cases [where g = g and sku = sku and pay = pay
                and ded = "do_Sub (ch_ops c) (sk_OriginalPrice sku) pay"])
            (use load g svc pay(1) w2 dc1 failed tried in auto)
      qed
    qed
  qed
qed

lemma switch_cases:
  assumes "switchNode c L req dc w = (q, w')" and c: "ch_repo c = repo"
  obtains (failed) e where "q = Inl e" "w' = w"
  | (let_in) "DowngradeSwitch repo w = (Inr False, w)" "CutRange repo (mp_UserID req) w = (Inr True, w)"
      "marketNode c L req dc w = (q, w')"
  using assms(1) reads_down unfolding switchNode_def c
proof (cases rule: go_read_cases)
  case down: (goes_on d)
  show ?thesis
  proof (cases d)
    case True
    with down(2) that(1) show ?thesis by auto
  next
    case False
    with down(2) have "go_bind (CutRange repo (mp_UserID req))
        (\<lambda>cut. if \<not> cut then go_err (NewAppException E0004) else marketNode c L req dc) w = (q, w')"
      by simp
    then show ?thesis using reads_cut
    proof (cases rule: go_read_cases)
      case (goes_on b)
      with down(1) False that show ?thesis by (cases b) auto
    qed (rule that(1))
  qed
qed (rule that(1))

text \<open>A trial that succeeds, step by step; one that fails has read only.\<close>

lemma trial_cases:
  assumes run: "trial_Apply c L req w = (q, w')" and c: "ch_repo c = repo" "ch_discount c = all_discounts (ch_ops c) repo"
    and sound
  obtains (failed) e where "q = Inl e" "w' = w"
  | (empty) g where "q = Inr zero_trial" "w' = w" "loadActivity c req w = (Inr (Some g), w)" "gv_GroupBuyDiscount g = None"
  | (tried) g sku gbd svc pay trial where "q = Inr trial" "w' = w"
      "mp_UserID req \<noteq> ''''" "mp_GoodsID req \<noteq> ''''" "mp_Source req \<noteq> ''''" "mp_Channel req \<noteq> ''''"
      "DowngradeSwitch repo w = (Inr False, w)" "CutRange repo (mp_UserID req) w = (Inr True, w)"
      "loadActivity c req w = (Inr (Some g), w)" "QuerySkuByGoodsID repo (mp_GoodsID req) w = (Inr (Some sku), w)"
      "gv_GroupBuyDiscount g = Some gbd" "all_discounts (ch_ops c) repo (gd_MarketPlan gbd) = Some svc"
      "dcs_Calculate svc (mp_UserID req) (sk_OriginalPrice sku) gbd w = (Inr pay, w)"
      "tb_GoodsID trial = sk_GoodsID sku" "tb_OriginalPrice trial = sk_OriginalPrice sku" "tb_PayPrice trial = pay"
      "tb_DeductionPrice trial = do_Sub (ch_ops c) (sk_OriginalPrice sku) pay"
      "tb_GroupBuyActivityDiscountVO trial = Some g"
      "if gv_TagID g = '''' then tb_IsVisible trial \<and> tb_IsEnable trial
       else \<exists>b. RepoIsTagCrowdRange repo (gv_TagID g) (mp_UserID req) w = (Inr b, w) \<and>
         tb_IsVisible trial = (IsVisible g \<or> b) \<and> tb_IsEnable trial = (IsEnable g \<or> b)"
proof (cases "mp_UserID req = '''' \<or> mp_GoodsID req = '''' \<or> mp_Source req = '''' \<or> mp_Channel req = ''''")
  case True
  with run have "q = Inl (NewAppException ILLEGAL_PARAMETER)" "w' = w"
    by (auto simp: trial_Apply_def rootNode_def)
  then show ?thesis by (rule failed)
next
  case ids: False
  then have "switchNode c L req empty_trial_context w = (q, w')"
    using run unfolding trial_Apply_def rootNode_def by auto
  then show ?thesis using c(1)
  proof (cases rule: switch_cases)
    case switch: let_in
    from switch(3) c \<open>sound\<close> show ?thesis
      by (rule market_cases) (use failed empty tried ids switch(1,2) in auto)
  qed (rule failed)
qed

end

end
