(* ===== verification/Activity_Repository.thy ===== *)
theory Activity_Repository
  imports Trial Trade_Repository
begin

text \<open>
  The repository of the activity context (\<open>internal/infrastructure/repository/activity_repository.go\<close>)
  over the database, Redis and the settings, and the trial calculation on it.

  A call reads the clock and, to shuffle a list, the random source; the shuffle is a parameter that
  permutes. A statement over \<open>IN (SELECT ...)\<close> is a test on the rows of both tables.
\<close>

record ActivityRepository =
  ar_db :: mysql
  ar_redis :: redis

record activity_env =
  ae_now :: time
  ae_shuffle :: "GroupBuyOrderList list \<Rightarrow> GroupBuyOrderList list"

section \<open>Configuration\<close>

definition discount_vo :: "GroupBuyDiscountRow \<Rightarrow> GroupBuyDiscount" where
  "discount_vo d =
     \<lparr>gd_DiscountName = dr_DiscountName d, gd_DiscountDesc = dr_DiscountDesc d,
      gd_DiscountType = dr_DiscountType d, gd_MarketPlan = dr_MarketPlan d,
      gd_MarketExpr = dr_MarketExpr d, gd_TagID = dr_TagID d\<rparr>"

definition activity_vo :: "GroupBuyActivity \<Rightarrow> GroupBuyDiscountRow \<Rightarrow> GroupBuyActivityDiscountVO" where
  "activity_vo act d =
     \<lparr>gv_ActivityID = a_ActivityID act, gv_ActivityName = a_ActivityName act, gv_Source = '''',
      gv_Channel = '''', gv_GoodsID = '''', gv_GroupBuyDiscount = Some (discount_vo d),
      gv_GroupType = a_GroupType act, gv_TakeLimitCount = a_TakeLimitCount act, gv_Target = a_Target act,
      gv_ValidTime = a_ValidTime act, gv_Status = a_Status act, gv_StartTime = a_StartTime act,
      gv_EndTime = a_EndTime act, gv_TagID = a_TagID act, gv_TagScope = a_TagScope act\<rparr>"

definition arepo_QueryGroupBuyActivityDiscountVO ::
    "ActivityRepository \<Rightarrow> int64 \<Rightarrow> (db, GroupBuyActivityDiscountVO option) go" where
  "arepo_QueryGroupBuyActivityDiscountVO r activityID =
     go_bind
       (dbFirst db_activities (my_activities (ar_db r)) (\<lambda>a. a_ActivityID a = activityID \<and> a_Status a = 1))
       (\<lambda>row. case row of
          None \<Rightarrow> go_ret None
        | Some act \<Rightarrow>
            go_bind
              (dbFirst db_discounts (my_discounts (ar_db r))
                 (\<lambda>d. sqlEq (ar_db r) (dr_DiscountID d) (a_DiscountID act)))
              (\<lambda>row2. go_ret (map_option (activity_vo act) row2)))"

definition arepo_QuerySkuByGoodsID :: "ActivityRepository \<Rightarrow> string \<Rightarrow> (db, SkuVO option) go" where
  "arepo_QuerySkuByGoodsID r goodsID =
     go_bind (dbFirst db_skus (my_skus (ar_db r)) (\<lambda>s. sqlEq (ar_db r) (sku_GoodsID s) goodsID))
       (\<lambda>row. go_ret (map_option
          (\<lambda>s. \<lparr>sk_GoodsID = sku_GoodsID s, sk_GoodsName = sku_GoodsName s,
                sk_OriginalPrice = sku_OriginalPrice s\<rparr>) row))"

definition arepo_QuerySCSkuActivityBySCGoodsID ::
    "ActivityRepository \<Rightarrow> string \<Rightarrow> string \<Rightarrow> string \<Rightarrow> (db, SCSkuActivityVO option) go" where
  "arepo_QuerySCSkuActivityBySCGoodsID r source channel goodsID =
     go_bind
       (dbFirst db_scskus (my_scskus (ar_db r))
          (\<lambda>s. sqlEq (ar_db r) (sca_Source s) source \<and> sqlEq (ar_db r) (sca_Channel s) channel \<and>
               sqlEq (ar_db r) (sca_GoodsID s) goodsID))
       (\<lambda>row. go_ret (map_option
          (\<lambda>s. \<lparr>sv_Source = sca_Source s, sv_Channel = sca_Channel s, sv_ActivityID = sca_ActivityID s,
                sv_GoodsID = sca_GoodsID s\<rparr>) row))"

section \<open>The crowd of a tag\<close>

text \<open>The second count drops its error, with the count at zero.\<close>

definition dbCount_or_0 :: "(db, nat) go \<Rightarrow> (db, nat) go" where
  "dbCount_or_0 q d = (case q d of (Inr n, d') \<Rightarrow> (Inr n, d') | (Inl e, d') \<Rightarrow> (Inr 0, d'))"

definition crowd_detail_query :: "ActivityRepository \<Rightarrow> string \<Rightarrow> string \<Rightarrow> (db, bool) go" where
  "crowd_detail_query r tagID userID =
     go_bind
       (dbCount db_cdetails (my_cdetails (ar_db r))
          (\<lambda>c. sqlEq (ar_db r) (cd_TagID c) tagID \<and> sqlEq (ar_db r) (cd_UserID c) userID))
       (\<lambda>count. go_bind
          (dbCount_or_0 (dbCount db_cdetails (my_cdetails (ar_db r)) (\<lambda>c. sqlEq (ar_db r) (cd_TagID c) tagID)))
          (\<lambda>total. if total = 0 then go_ret True else go_ret (count > 0)))"

definition arepo_IsTagCrowdRange :: "ActivityRepository \<Rightarrow> string \<Rightarrow> string \<Rightarrow> (world, bool) go" where
  "arepo_IsTagCrowdRange r tagID userID =
     go_bind (on_redis (IsTagCrowdRange (ar_redis r) tagID userID))
       (\<lambda>ok. go_bind (on_redis (redisDo (ar_redis r) (rs_cmd (ar_redis r) (EXISTS tagID))))
          (\<lambda>exists. if reply_int exists > 0 then go_ret ok else on_db (crowd_detail_query r tagID userID)))"

section \<open>Teams in progress\<close>

definition order_detail :: "GroupBuyOrderList \<Rightarrow> GroupBuyOrder \<Rightarrow> UserGroupBuyOrderDetailEntity" where
  "order_detail l g =
     \<lparr>ud_UserID = l_UserID l, ud_TeamID = o_TeamID g, ud_ActivityID = o_ActivityID g,
      ud_TargetCount = o_TargetCount g, ud_CompleteCount = o_CompleteCount g,
      ud_LockCount = o_LockCount g, ud_ValidStartTime = o_ValidStartTime g,
      ud_ValidEndTime = o_ValidEndTime g, ud_OutTradeNo = l_OutTradeNo l\<rparr>"

definition order_details ::
    "(string \<rightharpoonup> GroupBuyOrder) \<Rightarrow> GroupBuyOrderList list \<Rightarrow> UserGroupBuyOrderDetailEntity list" where
  "order_details orderMap rows =
     List.map_filter (\<lambda>l. map_option (order_detail l) (orderMap (l_TeamID l))) rows"

definition arepo_assembleOrderDetails ::
    "ActivityRepository \<Rightarrow> activity_env \<Rightarrow> GroupBuyOrderList list \<Rightarrow> (db, UserGroupBuyOrderDetailEntity list) go" where
  "arepo_assembleOrderDetails r E rows =
     (if rows = [] then go_ret []
      else let teamIDs = rev (remdups (rev (filter (\<lambda>t. t \<noteq> '''') (map l_TeamID rows)))) in
        go_bind
          (dbFind db_orders (my_orders (ar_db r))
             (\<lambda>g. o_Status g = 0 \<and> o_TargetCount g > o_LockCount g \<and> o_ValidEndTime g > ae_now E \<and>
                  list_ex (\<lambda>t. sqlEq (ar_db r) (o_TeamID g) t) teamIDs) Unordered None)
          (\<lambda>orders. let orderMap = foldl (\<lambda>m g. m(o_TeamID g \<mapsto> g)) Map.empty orders
             in go_ret (order_details orderMap rows)))"

definition arepo_QueryDetailListByOwner ::
    "ActivityRepository \<Rightarrow> activity_env \<Rightarrow> int64 \<Rightarrow> string \<Rightarrow> nat \<Rightarrow> (db, UserGroupBuyOrderDetailEntity list) go" where
  "arepo_QueryDetailListByOwner r E activityID userID ownerCount =
     go_bind
       (dbFind db_lists (my_lists (ar_db r))
          (\<lambda>l. l_ActivityID l = activityID \<and> sqlEq (ar_db r) (l_UserID l) userID \<and>
               (l_Status l = 0 \<or> l_Status l = 1) \<and> l_EndTime l > ae_now E) IdDesc (Some ownerCount))
       (\<lambda>rows. arepo_assembleOrderDetails r E rows)"

definition arepo_QueryDetailListByRandom ::
    "ActivityRepository \<Rightarrow> activity_env \<Rightarrow> int64 \<Rightarrow> string \<Rightarrow> nat \<Rightarrow> (db, UserGroupBuyOrderDetailEntity list) go" where
  "arepo_QueryDetailListByRandom r E activityID userID randomCount d =
     go_bind
       (dbFind db_lists (my_lists (ar_db r))
          (\<lambda>l. l_ActivityID l = activityID \<and> \<not> sqlEq (ar_db r) (l_UserID l) userID \<and>
               (l_Status l = 0 \<or> l_Status l = 1) \<and> l_EndTime l > ae_now E \<and>
               list_ex (\<lambda>g. o_ActivityID g = activityID \<and> o_Status g = 0 \<and>
                  sqlEq (ar_db r) (l_TeamID l) (o_TeamID g)) (db_orders d)) IdDesc (Some (randomCount * 2)))
       (\<lambda>rows. arepo_assembleOrderDetails r E
          (if length rows > randomCount then take randomCount (ae_shuffle E rows) else rows)) d"

section \<open>Statistics\<close>

text \<open>
  The three figures drop their errors, each at zero then. The sum is the sum over the rows its
  statement selects.
\<close>

definition dbSum_or_0 :: "(db, GroupBuyOrder list) go \<Rightarrow> (db, int) go" where
  "dbSum_or_0 q d = (case q d of (Inr gs, d') \<Rightarrow> (Inr (sum_list (map o_LockCount gs)), d') | (Inl e, d') \<Rightarrow> (Inr 0, d'))"

definition arepo_QueryTeamStatisticByActivityID ::
    "ActivityRepository \<Rightarrow> int64 \<Rightarrow> (db, TeamStatisticVO option) go" where
  "arepo_QueryTeamStatisticByActivityID r activityID =
     (let M = ar_db r in
      go_bind
        (dbFind db_lists (my_lists M)
           (\<lambda>l. l_ActivityID l = activityID \<and> (l_Status l = 0 \<or> l_Status l = 1)) Unordered None)
        (\<lambda>rows.
           let teamIDs = remdups (map l_TeamID rows);
               inTeams = (\<lambda>g. list_ex (\<lambda>t. sqlEq M (o_TeamID g) t) teamIDs)
           in if teamIDs = [] then
                go_ret (Some \<lparr>ts_AllTeamCount = 0, ts_AllTeamCompleteCount = 0, ts_AllTeamUserCount = 0\<rparr>)
              else
                go_bind (dbCount_or_0 (dbCount db_orders (my_orders M) inTeams))
                  (\<lambda>allTeam. go_bind (dbCount_or_0 (dbCount db_orders (my_orders M) (\<lambda>g. o_Status g = 1 \<and> inTeams g)))
                     (\<lambda>completeTeam. go_bind (dbSum_or_0 (dbFind db_orders (my_orders M) inTeams Unordered None))
                        (\<lambda>userCount. go_ret (Some
                           \<lparr>ts_AllTeamCount = of_nat allTeam, ts_AllTeamCompleteCount = of_nat completeTeam,
                            ts_AllTeamUserCount = of_int userCount\<rparr>))))))"

section \<open>The repository as the port\<close>

definition NewActivityRepository :: "ActivityRepository \<Rightarrow> activity_env \<Rightarrow> world IActivityRepository" where
  "NewActivityRepository r E =
     \<lparr>QueryGroupBuyActivityDiscountVO = (\<lambda>a. on_db (arepo_QueryGroupBuyActivityDiscountVO r a)),
      QuerySkuByGoodsID = (\<lambda>g. on_db (arepo_QuerySkuByGoodsID r g)),
      QuerySCSkuActivityBySCGoodsID = (\<lambda>s c g. on_db (arepo_QuerySCSkuActivityBySCGoodsID r s c g)),
      RepoIsTagCrowdRange = (\<lambda>t u. arepo_IsTagCrowdRange r t u),
      DowngradeSwitch = (\<lambda>w. (Inr (IsDowngradeSwitch (w_dcc w)), w)),
      CutRange = (\<lambda>u w. (Inr (IsCutRange (w_dcc w) u), w)),
      QueryDetailListByOwner = (\<lambda>a u n. on_db (arepo_QueryDetailListByOwner r E a u n)),
      QueryDetailListByRandom = (\<lambda>a u n. on_db (arepo_QueryDetailListByRandom r E a u n)),
      QueryTeamStatisticByActivityID = (\<lambda>a. on_db (arepo_QueryTeamStatisticByActivityID r a))\<rparr>"

section \<open>What only reads\<close>

lemma redisDo_reads:
  assumes "redis_ok R" and "\<And>K. snd (f K) = K"
  shows "reads (redisDo R f)"
  unfolding reads_def
proof
  fix K
  obtain q K' where run: "redisDo R f K = (q, K')" by force
  then show "snd (redisDo R f K) = K" using assms(1) by (cases rule: redisDo_cases) (simp_all add: assms(2) run)
qed

lemma on_redis_reads: "reads f \<Longrightarrow> reads (on_redis f)"
  unfolding reads_def on_redis_def by (simp add: case_prod_beta)

lemma dbCount_or_0_reads [go_frames]: "reads q \<Longrightarrow> reads (dbCount_or_0 q)"
  unfolding reads_def dbCount_or_0_def by (simp add: case_prod_beta split: sum.splits)

lemma arepo_reads [go_frames]:
  "reads (arepo_QueryGroupBuyActivityDiscountVO r a)"
  "reads (arepo_QuerySkuByGoodsID r g)"
  "reads (arepo_QuerySCSkuActivityBySCGoodsID r s c g)"
  "reads (crowd_detail_query r t u)"
  unfolding arepo_QueryGroupBuyActivityDiscountVO_def arepo_QuerySkuByGoodsID_def
    arepo_QuerySCSkuActivityBySCGoodsID_def crowd_detail_query_def
  by (auto intro!: go_frames split: option.splits)

text \<open>\<open>GETBIT\<close> is a read command, whatever the key holds.\<close>

definition getbit_reads :: "redis \<Rightarrow> bool" where
  "getbit_reads R \<longleftrightarrow> (\<forall>k i K. snd (rs_cmd R (GETBIT k i) K) = K)"

lemma IsTagCrowdRange_reads:
  assumes "redis_ok R" and "getbit_reads R"
  shows "reads (IsTagCrowdRange R t u)"
proof -
  have "reads (redisDo R (rs_cmd R (EXISTS t)))"
    using redis_EXISTS [OF assms(1)] by (intro redisDo_reads [OF assms(1)]) simp
  moreover have "reads (redisDo R (rs_cmd R (GETBIT t i)))" for i
    using assms(2) by (intro redisDo_reads [OF assms(1)]) (simp add: getbit_reads_def)
  ultimately show ?thesis unfolding IsTagCrowdRange_def by (auto intro!: reads_bind reads_ret)
qed

lemma arepo_IsTagCrowdRange_reads:
  assumes "redis_ok (ar_redis r)" and "getbit_reads (ar_redis r)"
  shows "reads (arepo_IsTagCrowdRange r t u)"
proof -
  have "reads (redisDo (ar_redis r) (rs_cmd (ar_redis r) (EXISTS t)))"
    using redis_EXISTS [OF assms(1)] by (intro redisDo_reads [OF assms(1)]) simp
  with IsTagCrowdRange_reads [OF assms] show ?thesis
    unfolding arepo_IsTagCrowdRange_def
    by (auto intro!: reads_bind reads_ret on_redis_reads on_db_reads arepo_reads)
qed

interpretation activity_repo:
  activity_queries "NewActivityRepository r E" "redis_ok (ar_redis r) \<and> getbit_reads (ar_redis r)" for r E
  by unfold_locales
    (auto simp: NewActivityRepository_def reads_def [of "\<lambda>w. (Inr (IsDowngradeSwitch (w_dcc w)), w)"]
      reads_def [of "\<lambda>w. (Inr (IsCutRange (w_dcc w) u), w)" for u]
      intro: go_frames arepo_IsTagCrowdRange_reads)

section \<open>Properties\<close>

text \<open>The chain of the trial over this repository, as the server wires it.\<close>

definition trial_chain_of :: "decimal_ops \<Rightarrow> ActivityRepository \<Rightarrow> activity_env \<Rightarrow> world trial_chain" where
  "trial_chain_of D r E =
     \<lparr>ch_repo = NewActivityRepository r E, ch_discount = all_discounts D (NewActivityRepository r E), ch_ops = D\<rparr>"

lemma mysql_ok_config:
  assumes "mysql_ok M"
  shows "gorm_ok dr_ID (\<lambda>i. dr_ID_update (\<lambda>_. i)) (\<lambda>r x. sqlEq M (dr_DiscountID r) (dr_DiscountID x)) (my_discounts M)"
    and "gorm_ok sku_ID (\<lambda>i. sku_ID_update (\<lambda>_. i)) (\<lambda>r x. sqlEq M (sku_GoodsID r) (sku_GoodsID x)) (my_skus M)"
  using assms unfolding mysql_ok_def by blast+

lemma find_activity_vo:
  assumes "QueryGroupBuyActivityDiscountVO (NewActivityRepository r E) a w = (Inr (Some g), w)"
    and M: "mysql_ok (ar_db r)"
  obtains act d where "act \<in> set (db_activities (w_db w))" "a_ActivityID act = a" "a_Status act = 1"
    "d \<in> set (db_discounts (w_db w))" "sqlEq (ar_db r) (dr_DiscountID d) (a_DiscountID act)" "g = activity_vo act d"
proof -
  from assms(1) obtain d1 where run: "arepo_QueryGroupBuyActivityDiscountVO r a (w_db w) = (Inr (Some g), d1)"
    by (auto simp: NewActivityRepository_def on_db_def split: prod.splits)
  then obtain row d2 where
    act: "dbFirst db_activities (my_activities (ar_db r)) (\<lambda>x. a_ActivityID x = a \<and> a_Status x = 1) (w_db w)
      = (Inr row, d2)"
    and rest: "(case row of None \<Rightarrow> go_ret None
        | Some act \<Rightarrow> go_bind (dbFirst db_discounts (my_discounts (ar_db r))
                 (\<lambda>d. sqlEq (ar_db r) (dr_DiscountID d) (a_DiscountID act)))
              (\<lambda>row2. go_ret (map_option (activity_vo act) row2))) d2 = (Inr (Some g), d1)"
    unfolding arepo_QueryGroupBuyActivityDiscountVO_def by (elim go_bind_Inr_cases)
  from rest obtain act' where row: "row = Some act'" by (cases row) auto
  from act mysql_okD(4) [OF M] have find: "find (\<lambda>x. a_ActivityID x = a \<and> a_Status x = 1) (db_activities (w_db w)) = Some act'"
    and d2: "d2 = w_db w"
    by (cases rule: dbFirst_cases; simp add: row)+
  from rest row d2 obtain row2 d3 where
    disc: "dbFirst db_discounts (my_discounts (ar_db r))
        (\<lambda>d. sqlEq (ar_db r) (dr_DiscountID d) (a_DiscountID act')) (w_db w) = (Inr row2, d3)"
    and g: "Some g = map_option (activity_vo act') row2"
    by (auto elim!: go_bind_Inr_cases)
  from g obtain dd where row2: "row2 = Some dd" "g = activity_vo act' dd" by (cases row2) auto
  from disc mysql_ok_config(1) [OF M] have "find (\<lambda>d. sqlEq (ar_db r) (dr_DiscountID d) (a_DiscountID act'))
      (db_discounts (w_db w)) = Some dd"
    by (cases rule: dbFirst_cases) (simp_all add: row2)
  with find row2(2) show ?thesis by (intro that [of act' dd]) (auto simp: find_Some_iff)
qed

lemma find_sku_vo:
  assumes "QuerySkuByGoodsID (NewActivityRepository r E) n w = (Inr (Some v), w)" and M: "mysql_ok (ar_db r)"
  obtains s where "s \<in> set (db_skus (w_db w))" "sqlEq (ar_db r) (sku_GoodsID s) n" "sk_GoodsID v = sku_GoodsID s"
    "sk_OriginalPrice v = sku_OriginalPrice s"
proof -
  from assms(1) obtain row d where
    "dbFirst db_skus (my_skus (ar_db r)) (\<lambda>s. sqlEq (ar_db r) (sku_GoodsID s) n) (w_db w) = (Inr row, d)"
    and v: "Some v = map_option (\<lambda>s. \<lparr>sk_GoodsID = sku_GoodsID s, sk_GoodsName = sku_GoodsName s,
                sk_OriginalPrice = sku_OriginalPrice s\<rparr>) row"
    by (auto simp: NewActivityRepository_def on_db_def arepo_QuerySkuByGoodsID_def
        split: prod.splits elim!: go_bind_Inr_cases)
  then have find: "dbFirst db_skus (my_skus (ar_db r)) (\<lambda>s. sqlEq (ar_db r) (sku_GoodsID s) n) (w_db w) = (Inr row, d)"
    by simp
  from v obtain s where s: "row = Some s" by (cases row) auto
  from find mysql_ok_config(2) [OF M]
  have "find (\<lambda>s. sqlEq (ar_db r) (sku_GoodsID s) n) (db_skus (w_db w)) = Some s"
    by (cases rule: dbFirst_cases) (simp_all add: s)
  with s v show ?thesis by (intro that [of s]) (auto simp: find_Some_iff)
qed

text \<open>A trial on the concrete repository: it fails, or prices the rows it found.\<close>

lemma trial_rows:
  assumes M: "mysql_ok (ar_db r)" and R: "redis_ok (ar_redis r)" "getbit_reads (ar_redis r)"
    and run: "trial_Apply (trial_chain_of D r E) L req w = (q, w')"
  obtains (failed) e where "q = Inl e" "w' = w"
  | (tried) trial act d s svc b where "q = Inr trial" "w' = w"
      "mp_UserID req \<noteq> '''' \<and> mp_GoodsID req \<noteq> '''' \<and> mp_Source req \<noteq> '''' \<and> mp_Channel req \<noteq> ''''"
      "\<not> IsDowngradeSwitch (w_dcc w) \<and> IsCutRange (w_dcc w) (mp_UserID req)"
      "s \<in> set (db_skus (w_db w))" "sqlEq (ar_db r) (sku_GoodsID s) (mp_GoodsID req) \<and>
        tb_OriginalPrice trial = sku_OriginalPrice s"
      "act \<in> set (db_activities (w_db w))"
      "a_Status act = 1 \<and> (\<forall>a. mp_ActivityID req = Some a \<longrightarrow> a_ActivityID act = a)"
      "d \<in> set (db_discounts (w_db w))"
      "sqlEq (ar_db r) (dr_DiscountID d) (a_DiscountID act) \<and>
        tb_GroupBuyActivityDiscountVO trial = Some (activity_vo act d)"
      "Registry_Get (all_discounts D (NewActivityRepository r E)) (dr_MarketPlan d) = Some svc \<and>
        dcs_Calculate svc (mp_UserID req) (tb_OriginalPrice trial) (discount_vo d) w = (Inr (tb_PayPrice trial), w)"
      "tb_DeductionPrice trial = do_Sub D (tb_OriginalPrice trial) (tb_PayPrice trial)"
      "if a_TagID act = '''' then tb_IsVisible trial \<and> tb_IsEnable trial
       else arepo_IsTagCrowdRange r (a_TagID act) (mp_UserID req) w = (Inr b, w) \<and>
         tb_IsVisible trial = (IsVisible (activity_vo act d) \<or> b) \<and>
         tb_IsEnable trial = (IsEnable (activity_vo act d) \<or> b)"
proof -
  let ?repo = "NewActivityRepository r E"
  let ?c = "trial_chain_of D r E"
  have c: "ch_repo ?c = ?repo" "ch_discount ?c = all_discounts (ch_ops ?c) ?repo" and ops: "ch_ops ?c = D"
    by (simp_all add: trial_chain_of_def)
  have sound: "redis_ok (ar_redis r) \<and> getbit_reads (ar_redis r)" using R by blast
  from run c sound show ?thesis
  proof (cases rule: activity_repo.trial_cases)
    case (failed e)
    then show ?thesis by (rule that(1))
  next
    case (empty g)
    from empty(3) c(1) obtain a where a: "QueryGroupBuyActivityDiscountVO ?repo a w = (Inr (Some g), w)"
      by (rule activity_repo.loadActivity_query)
    then have "gv_GroupBuyDiscount g \<noteq> None"
      by (rule find_activity_vo [OF _ M]) (simp add: activity_vo_def)
    with empty(4) show ?thesis by simp
  next
    case (tried g sku gbd svc pay trial)
    from tried(9) c(1) obtain a where a: "QueryGroupBuyActivityDiscountVO ?repo a w = (Inr (Some g), w)"
      "\<forall>i. mp_ActivityID req = Some i \<longrightarrow> a = i"
      by (rule activity_repo.loadActivity_query)
    from a(1) M obtain act d where act: "act \<in> set (db_activities (w_db w))" "a_ActivityID act = a" "a_Status act = 1"
      "d \<in> set (db_discounts (w_db w))" "sqlEq (ar_db r) (dr_DiscountID d) (a_DiscountID act)" "g = activity_vo act d"
      by (rule find_activity_vo)
    then have gbd: "gbd = discount_vo d" "gv_TagID g = a_TagID act" using tried(11) by (simp_all add: activity_vo_def)
    from tried(10) M obtain s where s: "s \<in> set (db_skus (w_db w))" "sqlEq (ar_db r) (sku_GoodsID s) (mp_GoodsID req)"
      "sk_OriginalPrice sku = sku_OriginalPrice s"
      by (rule find_sku_vo)
    have price: "Registry_Get (all_discounts D ?repo) (dr_MarketPlan d) = Some svc"
      "dcs_Calculate svc (mp_UserID req) (tb_OriginalPrice trial) (discount_vo d) w = (Inr (tb_PayPrice trial), w)"
      using tried(12,13,15,16) gbd(1) ops by (simp_all add: Registry_Get_def discount_vo_def)
    from tried(19) gbd(2) act(6) obtain b where vis: "if a_TagID act = '''' then tb_IsVisible trial \<and> tb_IsEnable trial
        else arepo_IsTagCrowdRange r (a_TagID act) (mp_UserID req) w = (Inr b, w) \<and>
          tb_IsVisible trial = (IsVisible (activity_vo act d) \<or> b) \<and>
          tb_IsEnable trial = (IsEnable (activity_vo act d) \<or> b)"
      by (auto simp: NewActivityRepository_def split: if_splits)
    show ?thesis
      by (rule that(2) [OF tried(1,2) _ _ s(1) _ act(1) _ act(4) _ _ _ vis])
        (use tried(3-8,15-18) a(2) act(2,3,5,6) s(2,3) price ops in \<open>auto simp: NewActivityRepository_def\<close>)
  qed
qed

text \<open>
  C26. A trial changes nothing, and one that succeeds was allowed to: the request is complete, the
  market is not switched off and the user is in the share of users let in; the price is that of a
  product row of the goods asked for, discounted as an effective activity and its discount say, what
  is paid and what is taken off add up to it, and the user sees the activity and may join it exactly
  when it has no tag, when its scope does not restrict that, or when the user is in the crowd of the
  tag.
\<close>

theorem trial_outcome:
  assumes M: "mysql_ok (ar_db r)" and R: "redis_ok (ar_redis r)" "getbit_reads (ar_redis r)" and D: "decimal_ok D"
    and run: "trial_Apply (trial_chain_of D r E) L req w = (q, w')"
  shows "w' = w \<and> (case q of Inl e \<Rightarrow> True | Inr trial \<Rightarrow>
    mp_UserID req \<noteq> '''' \<and> mp_GoodsID req \<noteq> '''' \<and> mp_Source req \<noteq> '''' \<and> mp_Channel req \<noteq> '''' \<and>
    \<not> IsDowngradeSwitch (w_dcc w) \<and> IsCutRange (w_dcc w) (mp_UserID req) \<and>
    dec_val (tb_PayPrice trial) + dec_val (tb_DeductionPrice trial) = dec_val (tb_OriginalPrice trial) \<and>
    (\<exists>s \<in> set (db_skus (w_db w)). sqlEq (ar_db r) (sku_GoodsID s) (mp_GoodsID req) \<and>
       tb_OriginalPrice trial = sku_OriginalPrice s) \<and>
    (\<exists>act \<in> set (db_activities (w_db w)). \<exists>d \<in> set (db_discounts (w_db w)). \<exists>svc b.
       a_Status act = 1 \<and> (\<forall>a. mp_ActivityID req = Some a \<longrightarrow> a_ActivityID act = a) \<and>
       sqlEq (ar_db r) (dr_DiscountID d) (a_DiscountID act) \<and>
       tb_GroupBuyActivityDiscountVO trial = Some (activity_vo act d) \<and>
       Registry_Get (all_discounts D (NewActivityRepository r E)) (dr_MarketPlan d) = Some svc \<and>
       dcs_Calculate svc (mp_UserID req) (tb_OriginalPrice trial) (discount_vo d) w = (Inr (tb_PayPrice trial), w) \<and>
       (if a_TagID act = '''' then tb_IsVisible trial \<and> tb_IsEnable trial
        else arepo_IsTagCrowdRange r (a_TagID act) (mp_UserID req) w = (Inr b, w) \<and>
          tb_IsVisible trial = (IsVisible (activity_vo act d) \<or> b) \<and>
          tb_IsEnable trial = (IsEnable (activity_vo act d) \<or> b))))"
  using M R run
proof (cases rule: trial_rows)
  case (tried trial act d s svc b)
  have "dec_val (tb_PayPrice trial) + dec_val (tb_DeductionPrice trial) = dec_val (tb_OriginalPrice trial)"
    using tried(12) decimal_okD(1) [OF D] by simp
  with tried show ?thesis unfolding tried(1,2) sum.case by blast
qed simp

definition ex_market :: world where
  "ex_market =
     \<lparr>w_db = \<lparr>db_activities = [\<lparr>a_ID = 1, a_ActivityID = 100123, a_ActivityName = ''a'', a_DiscountID = ''25120207'',
          a_GroupType = 0, a_TakeLimitCount = 1, a_Target = 2, a_ValidTime = 15, a_Status = 1, a_StartTime = 0,
          a_EndTime = 100000, a_TagID = '''', a_TagScope = '''', a_CreateTime = 0, a_UpdateTime = 0\<rparr>],
        db_discounts = [\<lparr>dr_ID = 1, dr_DiscountID = ''25120207'', dr_DiscountName = ''d'', dr_DiscountDesc = ''d'',
          dr_DiscountType = 0, dr_MarketPlan = ''ZJ'', dr_MarketExpr = ''20'', dr_TagID = '''', dr_CreateTime = 0,
          dr_UpdateTime = 0\<rparr>],
        db_skus = [\<lparr>sku_ID = 1, sku_Source = ''s01'', sku_Channel = ''c01'', sku_GoodsID = ''9890001'',
          sku_GoodsName = ''g'', sku_OriginalPrice = Decimal 100 0, sku_CreateTime = 0, sku_UpdateTime = 0\<rparr>],
        db_scskus = [], db_orders = [], db_lists = [], db_tasks = [], db_ctags = [], db_cdetails = [], db_cjobs = []\<rparr>,
      w_redis = Map.empty, w_dcc = dcc_New ''0'' '''' '''' ''0'', w_mq = [], w_async = [], w_http = []\<rparr>"

definition refActivity :: ActivityRepository where
  "refActivity = \<lparr>ar_db = refMySQL, ar_redis = refRedis\<rparr>"

definition ex_activity_env :: activity_env where
  "ex_activity_env = \<lparr>ae_now = 1000, ae_shuffle = (\<lambda>ls. ls)\<rparr>"

definition ex_product :: MarketProductEntity where
  "ex_product = \<lparr>mp_UserID = ''ann'', mp_GoodsID = ''9890001'', mp_Source = ''s01'', mp_Channel = ''c01'',
     mp_ActivityID = Some 100123\<rparr>"

lemma getbit_reads_ref: "getbit_reads refRedis"
  by (simp add: getbit_reads_def split: option.splits)

lemma ex_trial:
  "\<exists>trial. trial_Apply (trial_chain_of refDecimal refActivity ex_activity_env) \<lparr>le_acquire = None, le_skuFirst = False\<rparr>
     ex_product ex_market = (Inr trial, ex_market)"
  by (simp add: IsCutRange_def trial_Apply_def rootNode_def switchNode_def marketNode_def multiThreadLoad_def loadActivity_def
      tagNode_def endNode_def trial_chain_of_def NewActivityRepository_def on_db_def
      arepo_QueryGroupBuyActivityDiscountVO_def arepo_QuerySkuByGoodsID_def refActivity_def ex_market_def
      ex_product_def activity_vo_def discount_vo_def Registry_Get_def ZJCalculateService_def FilterAndCalculate_def
      go_bind_def IsDowngradeSwitch_def dcc_New_def empty_trial_context_def Let_def)

lemma trial_witness:
  "\<exists>trial. trial_Apply (trial_chain_of refDecimal refActivity ex_activity_env) \<lparr>le_acquire = None, le_skuFirst = False\<rparr>
     ex_product ex_market = (Inr trial, ex_market) \<and>
     dec_val (tb_PayPrice trial) + dec_val (tb_DeductionPrice trial) = 100 \<and> tb_IsEnable trial"
proof -
  obtain trial where run: "trial_Apply (trial_chain_of refDecimal refActivity ex_activity_env)
      \<lparr>le_acquire = None, le_skuFirst = False\<rparr> ex_product ex_market = (Inr trial, ex_market)"
    using ex_trial by blast
  from trial_outcome [OF _ _ _ decimal_ok_ref run] mysql_ok_ref redis_ok_ref getbit_reads_ref
  have "dec_val (tb_PayPrice trial) + dec_val (tb_DeductionPrice trial) = dec_val (Decimal 100 0)" "tb_IsEnable trial"
    by (auto simp: refActivity_def ex_market_def)
  with run show ?thesis by (simp add: dec_val_def)
qed

end
