(* ===== verification/Market_Dto.thy ===== *)
theory Market_Dto
  imports Activity_Repository Jobs Keys "HOL-Library.Log_Nat"
begin

text \<open>
  The requests and responses of the market API (\<open>internal/api/dto\<close>) and their translation to and from
  the entities of the two domains (\<open>internal/application/assembler\<close>). A pointer that may be nil is an
  \<open>option\<close>; the field tags for JSON are left out.
\<close>

section \<open>Requests and responses\<close>

record GoodsMarketRequestDTO =
  gmq_UserID :: string
  gmq_Source :: string
  gmq_Channel :: string
  gmq_GoodsID :: string

record GoodsDTO =
  gdt_GoodsID :: string
  gdt_OriginalPrice :: decimal
  gdt_DeductionPrice :: decimal
  gdt_PayPrice :: decimal

record TeamDTO =
  tmd_UserID :: string
  tmd_TeamID :: string
  tmd_ActivityID :: int64
  tmd_TargetCount :: int
  tmd_CompleteCount :: int
  tmd_LockCount :: int
  tmd_ValidStartTime :: time
  tmd_ValidEndTime :: time
  tmd_ValidTimeCountdown :: string
  tmd_OutTradeNo :: string

record TeamStatDTO =
  tsd_AllTeamCount :: int64
  tsd_AllTeamCompleteCount :: int64
  tsd_AllTeamUserCount :: int64

record GoodsMarketResponseDTO =
  gms_ActivityID :: int64
  gms_Goods :: "GoodsDTO option"
  gms_TeamList :: "TeamDTO list"
  gms_TeamStatistic :: "TeamStatDTO option"

record NotifyConfigDTO =
  ncd_NotifyType :: string
  ncd_NotifyMQ :: string
  ncd_NotifyUrl :: string

record LockMarketPayOrderRequestDTO =
  lrq_UserID :: string
  lrq_TeamID :: string
  lrq_ActivityID :: int64
  lrq_GoodsID :: string
  lrq_Source :: string
  lrq_Channel :: string
  lrq_OutTradeNo :: string
  lrq_NotifyConfig :: "NotifyConfigDTO option"
  lrq_NotifyURL :: string

record LockMarketPayOrderResponseDTO =
  lrs_OrderID :: string
  lrs_OriginalPrice :: decimal
  lrs_DeductionPrice :: decimal
  lrs_PayPrice :: decimal
  lrs_TradeOrderStatus :: int
  lrs_TeamID :: string

record SettlementMarketPayOrderRequestDTO =
  srq_UserID :: string
  srq_Source :: string
  srq_Channel :: string
  srq_OutTradeNo :: string
  srq_OutTradeTime :: time

record SettlementMarketPayOrderResponseDTO =
  srs_UserID :: string
  srs_TeamID :: string
  srs_ActivityID :: int64
  srs_OutTradeNo :: string

record RefundMarketPayOrderRequestDTO =
  rrq_UserID :: string
  rrq_OutTradeNo :: string
  rrq_Source :: string
  rrq_Channel :: string

record RefundMarketPayOrderResponseDTO =
  rrs_UserID :: string
  rrs_OrderID :: string
  rrs_TeamID :: string
  rrs_Code :: string
  rrs_Info :: string

section \<open>The countdown\<close>

text \<open>
  \<open>to.Sub(from)\<close> saturates at the ends of \<open>time.Duration\<close>.
\<close>

definition time_Sub :: "time \<Rightarrow> time \<Rightarrow> int" where
  "time_Sub t u = max (- (2 ^ 63)) (min (2 ^ 63 - 1) (t - u))"

text \<open>
  Rounding a number that is not negative to \<open>float64\<close>: to 53 significant bits, to the nearest, halves
  to the even one. (The numbers below are far from the ends of the exponent range.)
\<close>

definition float_exp :: "rat \<Rightarrow> int" where
  "float_exp x = (case quotient_of x of (p, q) \<Rightarrow>
     let k = int (floorlog 2 (nat p)) - int (floorlog 2 (nat q)) - 1
     in if 2 powi (k + 1) \<le> x then k + 1 else k)"

definition round_even :: "rat \<Rightarrow> int" where
  "round_even y = (let r = \<lfloor>y\<rfloor>; f = y - of_int r in
     if f < 1 / 2 then r else if f > 1 / 2 then r + 1 else if even r then r else r + 1)"

definition float64 :: "rat \<Rightarrow> rat" where
  "float64 x = (if x \<le> 0 then 0
     else let e = float_exp x - 52 in of_int (round_even (x / 2 powi e)) * 2 powi e)"

text \<open>
  \<open>Duration.Hours\<close>, \<open>Minutes\<close> and \<open>Seconds\<close> of a duration of \<open>d\<close> nanoseconds, with the unit in
  nanoseconds: the whole units plus the rest as a fraction, in \<open>float64\<close>, to which the whole numbers
  convert exactly.
\<close>

definition duration_in :: "int \<Rightarrow> int \<Rightarrow> rat" where
  "duration_in unit d = float64 (of_int (d div unit) + float64 (of_int (d mod unit) / of_int unit))"

text \<open>\<open>fmt.Sprintf("%02d", n)\<close>, of a number that is not negative.\<close>

definition fmt02 :: "nat \<Rightarrow> string" where
  "fmt02 n = (if n < 10 then ''0'' @ showNat n else showNat n)"

definition hms :: "nat \<Rightarrow> nat \<Rightarrow> nat \<Rightarrow> string" where
  "hms h m s = fmt02 h @ '':'' @ fmt02 m @ '':'' @ fmt02 s"

definition CountdownStr :: "time \<Rightarrow> time \<Rightarrow> string" where
  "CountdownStr from to =
     (let d = time_Sub to from in
      if d < 0 then ''00:00:00''
      else hms (nat \<lfloor>duration_in 3600000000000 d\<rfloor>) (nat \<lfloor>duration_in 60000000000 d\<rfloor> mod 60)
         (nat \<lfloor>duration_in 1000000000 d\<rfloor> mod 60))"

section \<open>The assembler\<close>

definition ToMarketProduct :: "GoodsMarketRequestDTO \<Rightarrow> MarketProductEntity" where
  "ToMarketProduct req =
     \<lparr>mp_UserID = gmq_UserID req, mp_GoodsID = gmq_GoodsID req, mp_Source = gmq_Source req,
      mp_Channel = gmq_Channel req, mp_ActivityID = None\<rparr>"

definition ToMarketProductWithActivity :: "LockMarketPayOrderRequestDTO \<Rightarrow> MarketProductEntity" where
  "ToMarketProductWithActivity req =
     \<lparr>mp_UserID = lrq_UserID req, mp_GoodsID = lrq_GoodsID req, mp_Source = lrq_Source req,
      mp_Channel = lrq_Channel req, mp_ActivityID = Some (lrq_ActivityID req)\<rparr>"

definition team_dto :: "time \<Rightarrow> UserGroupBuyOrderDetailEntity \<Rightarrow> TeamDTO" where
  "team_dto now t =
     \<lparr>tmd_UserID = ud_UserID t, tmd_TeamID = ud_TeamID t, tmd_ActivityID = ud_ActivityID t,
      tmd_TargetCount = ud_TargetCount t, tmd_CompleteCount = ud_CompleteCount t,
      tmd_LockCount = ud_LockCount t, tmd_ValidStartTime = ud_ValidStartTime t,
      tmd_ValidEndTime = ud_ValidEndTime t, tmd_ValidTimeCountdown = CountdownStr now (ud_ValidEndTime t),
      tmd_OutTradeNo = ud_OutTradeNo t\<rparr>"

definition ToGoodsMarketResponse ::
    "time \<Rightarrow> TrialBalanceEntity \<Rightarrow> UserGroupBuyOrderDetailEntity list \<Rightarrow> int64 \<Rightarrow> int64 \<Rightarrow> int64 \<Rightarrow>
     GoodsMarketResponseDTO" where
  "ToGoodsMarketResponse now trial teams allTeam allComplete allUser =
     \<lparr>gms_ActivityID = (case tb_GroupBuyActivityDiscountVO trial of Some g \<Rightarrow> gv_ActivityID g | None \<Rightarrow> 0),
      gms_Goods = Some
        \<lparr>gdt_GoodsID = tb_GoodsID trial, gdt_OriginalPrice = tb_OriginalPrice trial,
         gdt_DeductionPrice = tb_DeductionPrice trial, gdt_PayPrice = tb_PayPrice trial\<rparr>,
      gms_TeamList = map (team_dto now) teams,
      gms_TeamStatistic = Some
        \<lparr>tsd_AllTeamCount = allTeam, tsd_AllTeamCompleteCount = allComplete, tsd_AllTeamUserCount = allUser\<rparr>\<rparr>"

definition NormalizeLockNotify :: "LockMarketPayOrderRequestDTO \<Rightarrow> LockMarketPayOrderRequestDTO" where
  "NormalizeLockNotify req =
     (let req = (if lrq_NotifyConfig req = None \<and> lrq_NotifyURL req \<noteq> '''' then
            req\<lparr>lrq_NotifyConfig := Some
              \<lparr>ncd_NotifyType = ''HTTP'', ncd_NotifyMQ = '''', ncd_NotifyUrl = lrq_NotifyURL req\<rparr>\<rparr>
          else req)
      in if lrq_NotifyConfig req = None then
           req\<lparr>lrq_NotifyConfig := Some \<lparr>ncd_NotifyType = ''MQ'', ncd_NotifyMQ = '''', ncd_NotifyUrl = ''''\<rparr>\<rparr>
         else req)"

definition empty_lock_response :: LockMarketPayOrderResponseDTO where
  "empty_lock_response =
     \<lparr>lrs_OrderID = '''', lrs_OriginalPrice = dec_Zero, lrs_DeductionPrice = dec_Zero, lrs_PayPrice = dec_Zero,
      lrs_TradeOrderStatus = 0, lrs_TeamID = ''''\<rparr>"

definition ToLockResponse :: "MarketPayOrderEntity option \<Rightarrow> LockMarketPayOrderResponseDTO" where
  "ToLockResponse order =
     (case order of
        None \<Rightarrow> empty_lock_response
      | Some m \<Rightarrow>
          \<lparr>lrs_OrderID = mo_OrderID m, lrs_OriginalPrice = mo_OriginalPrice m,
           lrs_DeductionPrice = mo_DeductionPrice m, lrs_PayPrice = mo_PayPrice m,
           lrs_TradeOrderStatus = mo_TradeOrderStatus m, lrs_TeamID = mo_TeamID m\<rparr>)"

definition ToNotifyConfigVO :: "NotifyConfigDTO option \<Rightarrow> NotifyConfigVO" where
  "ToNotifyConfigVO cfg =
     (case cfg of
        None \<Rightarrow> \<lparr>nc_NotifyType = NotifyMQ, nc_NotifyMQ = '''', nc_NotifyUrl = ''''\<rparr>
      | Some c \<Rightarrow>
          \<lparr>nc_NotifyType = ncd_NotifyType c, nc_NotifyMQ = ncd_NotifyMQ c, nc_NotifyUrl = ncd_NotifyUrl c\<rparr>)"

definition ToTradePaySuccess :: "SettlementMarketPayOrderRequestDTO \<Rightarrow> TradePaySuccessEntity" where
  "ToTradePaySuccess req =
     \<lparr>ps_Source = srq_Source req, ps_Channel = srq_Channel req, ps_UserID = srq_UserID req,
      ps_OutTradeNo = srq_OutTradeNo req, ps_OutTradeTime = srq_OutTradeTime req\<rparr>"

definition ToRefundCommand :: "RefundMarketPayOrderRequestDTO \<Rightarrow> TradeRefundCommandEntity" where
  "ToRefundCommand req =
     \<lparr>rcmd_UserID = rrq_UserID req, rcmd_OutTradeNo = rrq_OutTradeNo req, rcmd_Source = rrq_Source req,
      rcmd_Channel = rrq_Channel req\<rparr>"


section \<open>What the countdown shows\<close>

lemma floorlog_bounds: "0 < n \<Longrightarrow> 2 powi (int (floorlog 2 n) - 1) \<le> (of_nat n :: rat) \<and> (of_nat n :: rat) < 2 powi int (floorlog 2 n)"
proof -
  assume n: "0 < n"
  from floorlog_bounds [of n 2] n have b: "2 ^ (floorlog 2 n - 1) \<le> n" "n < 2 ^ floorlog 2 n" by simp_all
  have pos: "0 < floorlog 2 n" using n b(2) by (cases "floorlog 2 n") auto
  have "(2::rat) powi (int (floorlog 2 n) - 1) = of_nat (2 ^ (floorlog 2 n - 1))"
    using pos by (simp add: power_int_def nat_diff_distrib)
  moreover have "(2::rat) powi int (floorlog 2 n) = of_nat (2 ^ floorlog 2 n)" by simp
  ultimately show ?thesis using b by (simp only: of_nat_le_iff of_nat_less_iff)
qed

lemma float_exp_bounds:
  assumes "0 < x"
  shows "2 powi float_exp x \<le> x" and "x < 2 powi (float_exp x + 1)"
proof -
  obtain p q where pq: "quotient_of x = (p, q)" by force
  have q: "0 < q" by (rule quotient_of_denom_pos [OF pq])
  have x: "x = of_int p / of_int q" by (rule quotient_of_div [OF pq])
  have p: "0 < p" using assms q x by (simp add: zero_less_divide_iff)
  let ?a = "int (floorlog 2 (nat p))" and ?b = "int (floorlog 2 (nat q))"
  have P: "2 powi (?a - 1) \<le> (of_int p :: rat)" "(of_int p :: rat) < 2 powi ?a"
    using floorlog_bounds [of "nat p"] p by simp_all
  have Q: "2 powi (?b - 1) \<le> (of_int q :: rat)" "(of_int q :: rat) < 2 powi ?b"
    using floorlog_bounds [of "nat q"] q by simp_all
  have "x < 2 powi ?a / 2 powi (?b - 1)"
    unfolding x using P(2) Q(1) p q by (intro frac_less) simp_all
  moreover have "?a - ?b - 1 + 2 = ?a - (?b - 1)" by simp
  ultimately have up: "x < 2 powi (?a - ?b - 1 + 2)" using power_int_diff [of "2::rat" ?a "?b - 1"] by (metis zero_neq_numeral)
  have "2 powi (?a - 1) / 2 powi ?b \<le> x"
    unfolding x using P(1) Q(2) p q by (intro frac_le) simp_all
  moreover have "?a - ?b - 1 = ?a - 1 - ?b" by simp
  ultimately have low: "2 powi (?a - ?b - 1) \<le> x" using power_int_diff [of "2::rat" "?a - 1" ?b] by (metis zero_neq_numeral)
  show "2 powi float_exp x \<le> x" "x < 2 powi (float_exp x + 1)"
    using up low by (simp_all add: float_exp_def pq Let_def add.assoc add.commute)
qed

lemma round_even_error: "\<bar>of_int (round_even y) - y\<bar> \<le> 1 / 2"
  using floor_correct [of y] by (simp add: round_even_def Let_def abs_le_iff)

lemma round_even_int [simp]: "round_even (of_int k) = k"
  by (simp add: round_even_def)

lemma float64_error:
  assumes "0 < x"
  shows "\<bar>float64 x - x\<bar> \<le> x / 2 ^ 53"
proof -
  let ?e = "float_exp x - 52"
  have pos: "(0 :: rat) < 2 powi ?e" by simp
  have "float64 x - x = (of_int (round_even (x / 2 powi ?e)) - x / 2 powi ?e) * 2 powi ?e"
    using assms by (simp add: float64_def Let_def left_diff_distrib)
  then have "\<bar>float64 x - x\<bar> \<le> 1 / 2 * 2 powi ?e"
    using round_even_error [of "x / 2 powi ?e"] by (simp add: abs_mult mult_right_mono)
  also have "1 / 2 * 2 powi ?e = 2 powi float_exp x / (2 ^ 53 :: rat)"
    by (simp add: power_int_diff)
  also have "\<dots> \<le> x / 2 ^ 53" using float_exp_bounds(1) [OF assms] by (simp add: divide_right_mono)
  finally show ?thesis .
qed

lemma float64_between:
  assumes "0 < x"
  shows "x - x * (1 / 2 ^ 53) \<le> float64 x" and "float64 x \<le> x + x * (1 / 2 ^ 53)"
proof -
  have "x * (1 / 2 ^ 53) = x / 2 ^ 53" by simp
  with float64_error [OF assms] show "x - x * (1 / 2 ^ 53) \<le> float64 x" "float64 x \<le> x + x * (1 / 2 ^ 53)"
    unfolding abs_le_iff by linarith+
qed

lemma float64_int:
  assumes "0 \<le> k" "k < 2 ^ 53"
  shows "float64 (of_int k) = of_int k"
proof (cases "k = 0")
  case False
  with assms have k: "0 < (of_int k :: rat)" by simp
  let ?e = "float_exp (of_int k) - 52"
  have "(of_int k :: rat) < of_int (2 ^ 53)" using assms(2) by (simp only: of_int_less_iff)
  then have "2 powi float_exp (of_int k) < (2::rat) powi 53"
    using float_exp_bounds(1) [OF k] by (simp only: power_int_numeral of_int_power of_int_numeral)
  then have "float_exp (of_int k) < 53"
    using power_int_increasing [of 53 "float_exp (of_int k)" "2::rat"] by linarith
  then have "(2::rat) powi ?e = 1 / of_int (2 ^ nat (- ?e))" 
    by (simp add: power_int_def inverse_eq_divide power_one_over)
  then have "of_int k / (2::rat) powi ?e = of_int (k * 2 ^ nat (- ?e))" by simp
  then have "of_int (round_even (of_int k / (2::rat) powi ?e)) * (2::rat) powi ?e = of_int k"
    by (simp only: round_even_int) (simp add: \<open>(2::rat) powi ?e = _\<close>)
  with k show ?thesis by (simp add: float64_def Let_def)
qed (simp add: float64_def)

text \<open>
  As long as the fraction of a unit is further from one than the roundings reach, they do not make it
  a whole unit.
\<close>

lemma float64_whole:
  assumes k: "0 \<le> k" and n: "0 < n" "n < unit" and small: "2 * (k + 1) * unit < 2 ^ 53"
  shows "\<lfloor>float64 (of_int k + float64 (of_int n / of_int unit))\<rfloor> = k"
proof -
  let ?u = "of_int unit :: rat" and ?K = "of_int k :: rat" and ?e = "1 / 2 ^ 53 :: rat"
  let ?x = "of_int n / ?u" and ?a = "float64 (of_int n / ?u)"
  have u: "0 < ?u" "0 \<le> ?K" "0 < (of_int n :: rat)" using k n by simp_all
  have "of_int (2 * (k + 1) * unit) < (of_int (2 ^ 53) :: rat)" using small by (simp only: of_int_less_iff)
  then have bound: "2 * (?K * ?e) + 2 * ?e < 1 / ?u" using u by (simp add: field_simps)
  have Ke: "0 \<le> ?K * ?e" "0 < ?e" using u by simp_all
  have "1 \<le> (of_int n :: rat)" "(of_int n :: rat) + 1 \<le> ?u"
    using n by (simp_all flip: of_int_add of_int_1 only: of_int_le_iff)
  then have x: "1 / ?u \<le> ?x" "?x \<le> 1 - 1 / ?u" using u(1) by (simp_all add: field_simps)
  have "?x * ?e \<le> 1 * ?e" by (rule mult_right_mono) (use x u in \<open>simp_all add: field_simps\<close>)
  moreover have "0 < ?x" using u by simp
  ultimately have a: "?x - ?e \<le> ?a" "?a \<le> ?x + ?e" using float64_between [of ?x] by linarith+
  then have s: "0 < ?K + ?a" "?K + ?a \<le> ?K + 1" using x bound Ke u(2) by linarith+
  have "(?K + ?a) * ?e \<le> (?K + 1) * ?e" using s(2) by (rule mult_right_mono) simp
  also have "\<dots> = ?K * ?e + ?e" by (simp only: distrib_right mult_1_left)
  finally have "?K + ?a - (?K * ?e + ?e) \<le> float64 (?K + ?a)" "float64 (?K + ?a) \<le> ?K + ?a + (?K * ?e + ?e)"
    using float64_between [OF s(1)] by linarith+
  then have "?K \<le> float64 (?K + ?a)" "float64 (?K + ?a) < ?K + 1" using a x bound Ke by linarith+
  then show ?thesis by (rule floor_unique)
qed

lemma duration_in_floor:
  assumes "0 \<le> d" "0 < unit" and small: "2 * (d + unit) < 2 ^ 53"
  shows "\<lfloor>duration_in unit d\<rfloor> = d div unit"
proof -
  obtain k n where kn: "k = d div unit" "n = d mod unit" by blast
  have d: "d = k * unit + n" "0 \<le> k" "0 \<le> n" "n < unit"
    using assms(1,2) by (simp_all add: kn pos_imp_zdiv_nonneg_iff)
  have ku: "2 * (k + 1) * unit < 2 ^ 53" using small d(1,3) by (simp add: algebra_simps)
  show ?thesis
  proof (cases "n = 0")
    case True
    have "k * 1 \<le> k * unit" using d(2) assms(2) by (intro mult_left_mono) simp_all
    then have "k < 2 ^ 53" using ku assms(2) by (simp add: algebra_simps)
    with True d(2) show ?thesis by (simp add: duration_in_def float64_def [of 0] float64_int flip: kn)
  next
    case False
    with float64_whole [OF d(2) _ d(4) ku] d(3) show ?thesis by (simp add: duration_in_def flip: kn)
  qed
qed

section \<open>Properties\<close>

text \<open>
  C29. The countdown of a team that has not ended and ends within a thousand hours is right: it shows
  the whole seconds that are left as hours, minutes and seconds, in spite of the floating point
  arithmetic; once the end has passed it shows zero.
\<close>

theorem countdown_is_exact:
  assumes "to - from < 3600000000000000"
  shows "if to < from then CountdownStr from to = ''00:00:00''
    else \<exists>h m s. CountdownStr from to = hms h m s \<and> m < 60 \<and> s < 60 \<and>
      int (h * 3600 + m * 60 + s) = (to - from) div 1000000000"
proof (cases "to < from")
  case True
  then show ?thesis by (simp add: CountdownStr_def time_Sub_def Let_def)
next
  case False
  define d where "d = to - from"
  have d: "0 \<le> d" "d < 3600000000000000" using False assms by (simp_all add: d_def)
  let ?S = "d div 1000000000"
  have units: "d div 3600000000000 = ?S div 3600" "d div 60000000000 = ?S div 60"
    using zdiv_zmult2_eq [of 3600 d 1000000000] zdiv_zmult2_eq [of 60 d 1000000000] by simp_all
  have S: "0 \<le> ?S" using d by simp
  obtain n where n: "?S = int n" using S by (metis nat_0_le)
  have parts: "\<lfloor>duration_in 3600000000000 d\<rfloor> = int (n div 60 div 60)" "\<lfloor>duration_in 60000000000 d\<rfloor> = int (n div 60)"
    "\<lfloor>duration_in 1000000000 d\<rfloor> = int n"
    using d duration_in_floor [of d 3600000000000] duration_in_floor [of d 60000000000]
      duration_in_floor [of d 1000000000] units
    by (simp_all add: n zdiv_int div_mult2_eq [symmetric])
  have "CountdownStr from to = hms (n div 60 div 60) (n div 60 mod 60) (n mod 60)"
    using d by (simp add: CountdownStr_def time_Sub_def Let_def parts flip: d_def)
  moreover have "n div 60 div 60 * 3600 + n div 60 mod 60 * 60 + n mod 60 = n"
    using div_mult_mod_eq [of n 60] div_mult_mod_eq [of "n div 60" 60] by linarith
  ultimately have "\<exists>h m s. CountdownStr from to = hms h m s \<and> m < 60 \<and> s < 60 \<and> int (h * 3600 + m * 60 + s) = ?S"
    unfolding n by (intro exI [of _ "n div 60 div 60"] exI [of _ "n div 60 mod 60"] exI [of _ "n mod 60"]) simp
  then show ?thesis using False unfolding d_def by simp
qed

lemma countdown_witness:
  "\<exists>h m s. CountdownStr 0 3599999999999 = hms h m s \<and> m < 60 \<and> s < 60 \<and> h * 3600 + m * 60 + s = 3599"
  using countdown_is_exact [of 3599999999999 0] by (auto simp flip: of_nat_add of_nat_mult)

end
