(* ===== verification/Market_App.thy ===== *)
theory Market_App
  imports Market_Dto
begin

text \<open>
  The use cases of the market (\<open>internal/application/market_trade_app.go\<close> and
  \<open>market_index_app.go\<close>), over the services of the two domains. A use case answers every error of a
  service with a response; only a panic leaves it (it is caught by the recovery of the HTTP engine).
  Logging is left out.
\<close>

section \<open>Services\<close>

record 'w ITradeLockOrderService =
  ls_QueryNoPay :: "string \<Rightarrow> string \<Rightarrow> ('w, MarketPayOrderEntity option) go"
  ls_QueryGroupBuyProgress :: "string \<Rightarrow> ('w, GroupBuyProgressVO option) go"
  ls_LockMarketPayOrder :: "UserEntity \<Rightarrow> PayActivityEntity \<Rightarrow> PayDiscountEntity \<Rightarrow> ('w, MarketPayOrderEntity) go"

definition NewTradeLockOrderService :: "'w ITradeRepository \<Rightarrow> time \<Rightarrow> 'w ITradeLockOrderService" where
  "NewTradeLockOrderService repo now =
     \<lparr>ls_QueryNoPay = lock_QueryNoPayMarketPayOrderByOutTradeNo repo,
      ls_QueryGroupBuyProgress = lock_QueryGroupBuyProgress repo,
      ls_LockMarketPayOrder = lock_LockMarketPayOrder repo now\<rparr>"

type_synonym 'w ITradeSettlementOrderService = "TradePaySuccessEntity \<Rightarrow> ('w, TradePaySettlementEntity) go"

record 'w MarketTradeAppService =
  ta_index :: "'w IIndexGroupBuyMarketService"
  ta_lock :: "'w ITradeLockOrderService"
  ta_settlement :: "'w ITradeSettlementOrderService"
  ta_refund :: "'w ITradeRefundOrderService"

text \<open>
  \<open>x, err := m(); if err != nil { return fail(err) }\<close> and then \<open>k\<close>, in a function that returns a
  response and no error.
\<close>

definition or_respond :: "('w, 'a) go \<Rightarrow> (go_error \<Rightarrow> 'r) \<Rightarrow> ('a \<Rightarrow> ('w, 'r) go) \<Rightarrow> ('w, 'r) go" where
  "or_respond m fail k w =
     (case m w of
        (Inl (Panic p), w') \<Rightarrow> (Inl (Panic p), w')
      | (Inl e, w') \<Rightarrow> (Inr (fail e), w')
      | (Inr x, w') \<Rightarrow> k x w')"

definition fail_code :: "'a \<Rightarrow> ResponseCode \<Rightarrow> 'a Response" where
  "fail_code zero rc = FailR zero (rsc_Code rc) (rsc_Info rc)"

definition fail_error :: "'a \<Rightarrow> go_error \<Rightarrow> 'a Response" where
  "fail_error zero err =
     (case AsAppException err of
        Some ae \<Rightarrow> FailR zero (exc_Code ae) (exc_Info ae)
      | None \<Rightarrow> fail_code zero UN_ERROR)"

section \<open>Locking, settling, refunding\<close>

definition failLock :: "go_error \<Rightarrow> LockMarketPayOrderResponseDTO Response" where
  "failLock = fail_error empty_lock_response"

definition lock_request_ok :: "LockMarketPayOrderRequestDTO \<Rightarrow> bool" where
  "lock_request_ok req \<longleftrightarrow>
     \<not> (lrq_UserID req = '''' \<or> lrq_Source req = '''' \<or> lrq_Channel req = '''' \<or> lrq_GoodsID req = '''' \<or>
        lrq_ActivityID req = 0 \<or>
        (case lrq_NotifyConfig req of None \<Rightarrow> False
         | Some c \<Rightarrow> ncd_NotifyType c = ''HTTP'' \<and> ncd_NotifyUrl c = ''''))"

definition lock_activity :: "LockMarketPayOrderRequestDTO \<Rightarrow> GroupBuyActivityDiscountVO \<Rightarrow> PayActivityEntity" where
  "lock_activity req g =
     \<lparr>pa_TeamID = lrq_TeamID req, pa_ActivityID = lrq_ActivityID req, pa_ActivityName = gv_ActivityName g,
      pa_StartTime = gv_StartTime g, pa_EndTime = gv_EndTime g, pa_ValidTime = gv_ValidTime g,
      pa_TargetCount = gv_Target g\<rparr>"

definition lock_discount :: "LockMarketPayOrderRequestDTO \<Rightarrow> TrialBalanceEntity \<Rightarrow> PayDiscountEntity" where
  "lock_discount req trial =
     \<lparr>pd_Source = lrq_Source req, pd_Channel = lrq_Channel req, pd_GoodsID = lrq_GoodsID req,
      pd_GoodsName = tb_GoodsName trial, pd_OriginalPrice = tb_OriginalPrice trial,
      pd_DeductionPrice = tb_DeductionPrice trial, pd_PayPrice = tb_PayPrice trial,
      pd_OutTradeNo = lrq_OutTradeNo req, pd_NotifyConfig = Some (ToNotifyConfigVO (lrq_NotifyConfig req))\<rparr>"

text \<open>The trial and the lock that follow the checks on the team.\<close>

definition app_trial_and_lock ::
    "'w MarketTradeAppService \<Rightarrow> LockMarketPayOrderRequestDTO \<Rightarrow> ('w, LockMarketPayOrderResponseDTO Response) go" where
  "app_trial_and_lock A req =
     or_respond (IndexMarketTrial (ta_index A) (ToMarketProductWithActivity req)) failLock
       (\<lambda>trial.
          if \<not> tb_IsVisible trial \<or> \<not> tb_IsEnable trial then go_ret (fail_code empty_lock_response E0007)
          else case tb_GroupBuyActivityDiscountVO trial of
            None \<Rightarrow> go_err nil_deref
          | Some g \<Rightarrow>
              or_respond
                (ls_LockMarketPayOrder (ta_lock A) \<lparr>ue_UserID = lrq_UserID req\<rparr> (lock_activity req g)
                   (lock_discount req trial)) failLock
                (\<lambda>order. go_ret (Success (ToLockResponse (Some order)))))"

definition app_LockMarketPayOrder ::
    "'w MarketTradeAppService \<Rightarrow> LockMarketPayOrderRequestDTO option \<Rightarrow>
     ('w, LockMarketPayOrderResponseDTO Response) go" where
  "app_LockMarketPayOrder A req0 =
     (case req0 of
        None \<Rightarrow> go_ret (fail_code empty_lock_response ILLEGAL_PARAMETER)
      | Some req0 \<Rightarrow>
          let req = NormalizeLockNotify req0
          in if \<not> lock_request_ok req then go_ret (fail_code empty_lock_response ILLEGAL_PARAMETER)
             else or_respond (ls_QueryNoPay (ta_lock A) (lrq_UserID req) (lrq_OutTradeNo req)) failLock
               (\<lambda>exist. if (case exist of None \<Rightarrow> False | Some m \<Rightarrow> mo_TradeOrderStatus m = TradeOrderCreate)
                  then go_ret (Success (ToLockResponse exist))
                  else if lrq_TeamID req \<noteq> '''' then
                    or_respond (ls_QueryGroupBuyProgress (ta_lock A) (lrq_TeamID req)) failLock
                      (\<lambda>progress. if (case progress of None \<Rightarrow> False | Some p \<Rightarrow> gp_TargetCount p = gp_LockCount p)
                         then go_ret (fail_code empty_lock_response E0006)
                         else app_trial_and_lock A req)
                  else app_trial_and_lock A req))"

definition empty_settlement_response :: SettlementMarketPayOrderResponseDTO where
  "empty_settlement_response = \<lparr>srs_UserID = '''', srs_TeamID = '''', srs_ActivityID = 0, srs_OutTradeNo = ''''\<rparr>"

definition settlement_request_ok :: "SettlementMarketPayOrderRequestDTO \<Rightarrow> bool" where
  "settlement_request_ok req \<longleftrightarrow>
     \<not> (srq_UserID req = '''' \<or> srq_Source req = '''' \<or> srq_Channel req = '''' \<or> srq_OutTradeNo req = '''' \<or>
        srq_OutTradeTime req = 0)"

definition app_SettlementMarketPayOrder ::
    "'w MarketTradeAppService \<Rightarrow> SettlementMarketPayOrderRequestDTO option \<Rightarrow>
     ('w, SettlementMarketPayOrderResponseDTO Response) go" where
  "app_SettlementMarketPayOrder A req0 =
     (case req0 of
        None \<Rightarrow> go_ret (fail_code empty_settlement_response ILLEGAL_PARAMETER)
      | Some req \<Rightarrow>
          if \<not> settlement_request_ok req then go_ret (fail_code empty_settlement_response ILLEGAL_PARAMETER)
          else or_respond (ta_settlement A (ToTradePaySuccess req)) (fail_error empty_settlement_response)
            (\<lambda>result. go_ret (Success
               \<lparr>srs_UserID = pst_UserID result, srs_TeamID = pst_TeamID result,
                srs_ActivityID = pst_ActivityID result, srs_OutTradeNo = pst_OutTradeNo result\<rparr>)))"

definition empty_refund_response :: RefundMarketPayOrderResponseDTO where
  "empty_refund_response = \<lparr>rrs_UserID = '''', rrs_OrderID = '''', rrs_TeamID = '''', rrs_Code = '''', rrs_Info = ''''\<rparr>"

definition refund_request_ok :: "RefundMarketPayOrderRequestDTO \<Rightarrow> bool" where
  "refund_request_ok req \<longleftrightarrow>
     \<not> (rrq_UserID req = '''' \<or> rrq_OutTradeNo req = '''' \<or> rrq_Source req = '''' \<or> rrq_Channel req = '''')"

definition app_RefundMarketPayOrder ::
    "'w MarketTradeAppService \<Rightarrow> RefundMarketPayOrderRequestDTO option \<Rightarrow>
     ('w, RefundMarketPayOrderResponseDTO Response) go" where
  "app_RefundMarketPayOrder A req0 =
     (case req0 of
        None \<Rightarrow> go_ret (fail_code empty_refund_response ILLEGAL_PARAMETER)
      | Some req \<Rightarrow>
          if \<not> refund_request_ok req then go_ret (fail_code empty_refund_response ILLEGAL_PARAMETER)
          else or_respond (rs_RefundOrder (ta_refund A) (ToRefundCommand req)) (fail_error empty_refund_response)
            (\<lambda>result. case result of
               None \<Rightarrow> go_err nil_deref
             | Some b \<Rightarrow> go_ret (Success
                 \<lparr>rrs_UserID = rb_UserID b, rrs_OrderID = rb_OrderID b, rrs_TeamID = rb_TeamID b,
                  rrs_Code = Behavior_Code (rb_Behavior b), rrs_Info = Behavior_Info (rb_Behavior b)\<rparr>)))"

section \<open>The market configuration\<close>

definition empty_market_response :: GoodsMarketResponseDTO where
  "empty_market_response = \<lparr>gms_ActivityID = 0, gms_Goods = None, gms_TeamList = [], gms_TeamStatistic = None\<rparr>"

definition market_request_ok :: "GoodsMarketRequestDTO \<Rightarrow> bool" where
  "market_request_ok req \<longleftrightarrow>
     \<not> (gmq_UserID req = '''' \<or> gmq_Source req = '''' \<or> gmq_Channel req = '''' \<or> gmq_GoodsID req = '''')"

text \<open>
  One team of the user's own orders and two of others are asked for. The errors of the last two
  queries are all answered alike. \<open>now\<close> is the clock of the countdowns.
\<close>

definition app_QueryGroupBuyMarketConfig ::
    "'w IIndexGroupBuyMarketService \<Rightarrow> time \<Rightarrow> GoodsMarketRequestDTO option \<Rightarrow>
     ('w, GoodsMarketResponseDTO Response) go" where
  "app_QueryGroupBuyMarketConfig index now req0 =
     (case req0 of
        None \<Rightarrow> go_ret (fail_code empty_market_response ILLEGAL_PARAMETER)
      | Some req \<Rightarrow>
          if \<not> market_request_ok req then go_ret (fail_code empty_market_response ILLEGAL_PARAMETER)
          else or_respond (IndexMarketTrial index (ToMarketProduct req)) (fail_error empty_market_response)
            (\<lambda>trial. case tb_GroupBuyActivityDiscountVO trial of
               None \<Rightarrow> go_err nil_deref
             | Some g \<Rightarrow>
                 or_respond (QueryInProgressUserGroupBuyOrderDetailList index (gv_ActivityID g) (gmq_UserID req) 1 2)
                   (\<lambda>_. fail_code empty_market_response UN_ERROR)
                   (\<lambda>teams. or_respond (QueryTeamStatistic index (gv_ActivityID g))
                      (\<lambda>_. fail_code empty_market_response UN_ERROR)
                      (\<lambda>stat. let (allTeam, allComplete, allUser) =
                           (case stat of None \<Rightarrow> (0, 0, 0)
                            | Some v \<Rightarrow> (ts_AllTeamCount v, ts_AllTeamCompleteCount v, ts_AllTeamUserCount v))
                         in go_ret (Success (ToGoodsMarketResponse now trial teams allTeam allComplete allUser))))))"

text \<open>The use cases as the server wires them, over one database, one Redis and the settings.\<close>

record market_env =
  me_trade :: call_env
  me_lock_now :: time
  me_activity :: activity_env
  me_load :: load_env

definition trade_app ::
    "decimal_ops \<Rightarrow> TradeRepository \<Rightarrow> market_env \<Rightarrow> world MarketTradeAppService" where
  "trade_app D r e =
     (let ar = \<lparr>ar_db = rp_db r, ar_redis = rp_redis r\<rparr>;
          repo = NewTradeRepository r (me_trade e)
      in \<lparr>ta_index = NewIndexGroupBuyMarketService (NewActivityRepository ar (me_activity e))
              (trial_chain_of D ar (me_activity e)) (me_load e),
          ta_lock = NewTradeLockOrderService repo (me_lock_now e),
          ta_settlement = settle_SettlementMarketPayOrder repo (Some safego_Go),
          ta_refund = NewTradeRefundOrderService repo (all_strategies repo (Some safego_Go))\<rparr>)"

definition index_app :: "decimal_ops \<Rightarrow> TradeRepository \<Rightarrow> market_env \<Rightarrow> world IIndexGroupBuyMarketService" where
  "index_app D r e = ta_index (trade_app D r e)"


section \<open>What the use cases pass on\<close>

lemma or_respond_cases:
  assumes "or_respond m fail k w = (q, w')"
  obtains (panic) p where "m w = (Inl (Panic p), w')" "q = Inl (Panic p)"
  | (failed) err where "m w = (Inl err, w')" "q = Inr (fail err)"
  | (goes_on) x w1 where "m w = (Inr x, w1)" "k x w1 = (q, w')"
  using assms by (auto simp: or_respond_def split: prod.splits sum.splits go_error.splits)

text \<open>A response that says the request failed, or no response.\<close>

definition no_success :: "'a \<Rightarrow> 'a Response res \<Rightarrow> bool" where
  "no_success zero q \<longleftrightarrow> (\<forall>resp. q = Inr resp \<longrightarrow> (\<exists>code info. resp = FailR zero code info))"

lemma no_success_simps [simp]:
  "no_success zero (Inl e)" "no_success zero (Inr (fail_code zero rc))" "no_success zero (Inr (fail_error zero err))"
  by (auto simp: no_success_def fail_code_def fail_error_def split: option.splits)

lemma no_success_failLock [simp]: "no_success empty_lock_response (Inr (failLock e))"
  by (simp add: failLock_def)

lemma app_services [simp]:
  "ls_QueryNoPay (ta_lock (trade_app D r e)) = QueryMarketPayOrderEntityByOutTradeNo (NewTradeRepository r (me_trade e))"
  "ls_QueryGroupBuyProgress (ta_lock (trade_app D r e)) = QueryGroupBuyProgress (NewTradeRepository r (me_trade e))"
  "ls_LockMarketPayOrder (ta_lock (trade_app D r e)) = lock_LockMarketPayOrder (NewTradeRepository r (me_trade e)) (me_lock_now e)"
  "IndexMarketTrial (ta_index (trade_app D r e)) =
     trial_Apply (trial_chain_of D \<lparr>ar_db = rp_db r, ar_redis = rp_redis r\<rparr> (me_activity e)) (me_load e)"
  "rs_RefundOrder (ta_refund (trade_app D r e)) = refund_RefundOrder (NewTradeRepository r (me_trade e))
     (all_strategies (NewTradeRepository r (me_trade e)) (Some safego_Go))"
  by (simp_all add: trade_app_def Let_def NewTradeLockOrderService_def NewIndexGroupBuyMarketService_def
      NewTradeRefundOrderService_def lock_QueryNoPayMarketPayOrderByOutTradeNo_def [abs_def]
      lock_QueryGroupBuyProgress_def [abs_def])

lemma stock_rule_db:
  assumes "TeamStockOccupyRuleFilter_Apply (NewTradeRepository r E) Next req dc w = (q, w')"
  shows "w_db w' = w_db w"
proof -
  have occ: "w_db w1 = w_db w" if "OccupyTeamStock (NewTradeRepository r E) k k2 n v w = (x, w1)" for k k2 n v x w1
    using that by (auto simp: NewTradeRepository_def dest: on_redis_frame)
  show ?thesis
    using assms occ unfolding TeamStockOccupyRuleFilter_Apply_def Let_def
    by (auto split: if_splits option.splits elim!: go_bind_cases)
qed

lemma lock_service_db:
  assumes run: "lock_LockMarketPayOrder (NewTradeRepository r E) now user activity discount w = (q, w')"
    and M: "mysql_ok (rp_db r)"
  obtains (refused) e where "q = Inl e" "w_db w' = w_db w"
  | (locked) order agg where "q = Inr order" "agl_UserEntity agg = user" "agl_PayActivityEntity agg = activity"
      "agl_PayDiscountEntity agg = discount" "repo_LockMarketPayOrder r E agg (w_db w) = (Inr order, w_db w')"
  using run unfolding lock_service_tail
proof (cases rule: go_bind_cases)
  case (fails e)
  from fails(1) have "w_db w' = w_db w"
    by (cases rule: trade_repo.lock_rules_cases) (auto dest: stock_rule_db)
  with fails(2) show ?thesis by (rule refused)
next
  case (goes_on x w1)
  from goes_on(1) have db: "w_db w1 = w_db w"
    by (cases rule: trade_repo.lock_rules_cases) (auto dest: stock_rule_db)
  show ?thesis
  proof (cases x)
    case None
    with goes_on(2) have "q = Inl (Panic ''nil pointer dereference'')" "w_db w' = w_db w" using db by simp_all
    then show ?thesis by (rule refused)
  next
    case (Some b)
    let ?agg = "\<lparr>agl_UserEntity = user, agl_PayActivityEntity = activity, agl_PayDiscountEntity = discount,
      agl_UserTakeOrderCount = lb_UserTakeOrderCount b\<rparr>"
    from goes_on(2) Some have tail: "lock_tail (NewTradeRepository r E) ?agg (lb_RecoveryTeamStockKey b)
      (pa_ValidTime activity) w1 = (q, w')" by simp
    obtain x' d where port: "LockMarketPayOrder (NewTradeRepository r E) ?agg w1 = (x', w1\<lparr>w_db := d\<rparr>)"
      and lock: "repo_LockMarketPayOrder r E ?agg (w_db w) = (x', d)"
      using db by (cases "repo_LockMarketPayOrder r E ?agg (w_db w)") (simp add: NewTradeRepository_def on_db_def)
    show ?thesis
    proof (cases x')
      case (Inr order)
      with tail port have "q = Inr order" "w' = w1\<lparr>w_db := d\<rparr>" by (simp_all add: lock_tail_def)
      with lock Inr show ?thesis by (intro locked [of order ?agg]) simp_all
    next
      case (Inl e)
      have "d = w_db w"
        using lock Inl rp_ok(4) [OF M] unfolding repo_LockMarketPayOrder_def by (auto elim: txn_cases)
      moreover have "w_db w2 = w_db w3" if "RecoveryTeamStock (NewTradeRepository r E) k v w3 = (y, w2)" for k v y w2 w3
        using that by (auto simp: NewTradeRepository_def dest: on_redis_frame)
      ultimately have "\<exists>e. q = Inl e" "w_db w' = w_db w"
        using tail port Inl by (auto simp: lock_tail_def go_bind_def go_ignore_def split: prod.splits sum.splits go_error.splits)
      with refused show ?thesis by blast
    qed
  qed
qed


text \<open>The response that describes an order row.\<close>

definition row_response :: "GroupBuyOrderList \<Rightarrow> LockMarketPayOrderResponseDTO" where
  "row_response l =
     \<lparr>lrs_OrderID = l_OrderID l, lrs_OriginalPrice = l_OriginalPrice l, lrs_DeductionPrice = l_DeductionPrice l,
      lrs_PayPrice = l_PayPrice l, lrs_TradeOrderStatus = l_Status l, lrs_TeamID = l_TeamID l\<rparr>"


section \<open>A lock request\<close>

text \<open>What the first order of a user with a trade number is reported as.\<close>

definition order_of :: "GroupBuyOrderList \<Rightarrow> MarketPayOrderEntity" where
  "order_of l =
     \<lparr>mo_TeamID = l_TeamID l, mo_OrderID = l_OrderID l, mo_OriginalPrice = l_OriginalPrice l,
      mo_DeductionPrice = l_DeductionPrice l, mo_PayPrice = l_PayPrice l, mo_TradeOrderStatus = l_Status l\<rparr>"

lemma order_lookup:
  assumes "QueryMarketPayOrderEntityByOutTradeNo (NewTradeRepository r E) u n w = (Inr x, w')"
    and "mysql_ok (rp_db r)"
  shows "x = map_option order_of (find (trade_no_of (rp_db r) u n) (db_lists (w_db w))) \<and> w' = w"
proof -
  from assms(1) obtain row d where first: "dbFirst db_lists (my_lists (rp_db r)) (trade_no_of (rp_db r) u n) (w_db w) = (Inr row, d)"
    and x: "x = map_option order_of row"
    by (auto simp: NewTradeRepository_def on_db_def repo_QueryMarketPayOrderEntityByOutTradeNo_def trade_no_of_def
        order_of_def [abs_def] split: prod.splits elim!: go_bind_Inr_cases)
  from first mysql_okD(2) [OF assms(2)] have "row = find (trade_no_of (rp_db r) u n) (db_lists (w_db w))"
    by (cases rule: dbFirst_cases) simp_all
  with x readsD [OF trade_repo.order_reads assms(1)] show ?thesis by simp
qed

abbreviation market_chain :: "decimal_ops \<Rightarrow> TradeRepository \<Rightarrow> market_env \<Rightarrow> world trial_chain" where
  "market_chain D r e \<equiv> trial_chain_of D \<lparr>ar_db = rp_db r, ar_redis = rp_redis r\<rparr> (me_activity e)"

lemma trial_reads:
  assumes "trial_Apply (market_chain D r e) L product w = (q, w')"
    and R: "redis_ok (rp_redis r)" "getbit_reads (rp_redis r)"
  shows "w' = w"
proof -
  have c: "ch_repo (market_chain D r e) = NewActivityRepository \<lparr>ar_db = rp_db r, ar_redis = rp_redis r\<rparr> (me_activity e)"
    "ch_discount (market_chain D r e) = all_discounts (ch_ops (market_chain D r e))
       (NewActivityRepository \<lparr>ar_db = rp_db r, ar_redis = rp_redis r\<rparr> (me_activity e))"
    by (simp_all add: trial_chain_of_def)
  have sound: "redis_ok (ar_redis \<lparr>ar_db = rp_db r, ar_redis = rp_redis r\<rparr>) \<and>
      getbit_reads (ar_redis \<lparr>ar_db = rp_db r, ar_redis = rp_redis r\<rparr>)"
    using R by simp
  from assms(1) c sound show ?thesis by (cases rule: activity_repo.trial_cases) simp_all
qed

lemma trial_and_lock_calls:
  assumes run: "app_trial_and_lock (trade_app D r e) req w = (q, w')"
    and R: "redis_ok (rp_redis r)" "getbit_reads (rp_redis r)"
  obtains (refused) "no_success empty_lock_response q" "w' = w"
  | (called) trial g sq where
      "trial_Apply (market_chain D r e) (me_load e) (ToMarketProductWithActivity req) w = (Inr trial, w)"
      "tb_IsVisible trial" "tb_IsEnable trial" "tb_GroupBuyActivityDiscountVO trial = Some g"
      "lock_LockMarketPayOrder (NewTradeRepository r (me_trade e)) (me_lock_now e) \<lparr>ue_UserID = lrq_UserID req\<rparr>
         (lock_activity req g) (lock_discount req trial) w = (sq, w')"
      "case sq of Inl _ \<Rightarrow> no_success empty_lock_response q
       | Inr order \<Rightarrow> q = Inr (Success (ToLockResponse (Some order)))"
  using run unfolding app_trial_and_lock_def app_services
proof (cases rule: or_respond_cases)
  case (goes_on trial w1)
  have w1: "w1 = w" by (rule trial_reads [OF goes_on(1) R])
  show ?thesis
  proof (cases "tb_IsVisible trial \<and> tb_IsEnable trial")
    case False
    with goes_on(2) w1 show ?thesis by (intro refused) auto
  next
    case True
    show ?thesis
    proof (cases "tb_GroupBuyActivityDiscountVO trial")
      case None
      with goes_on(2) w1 True show ?thesis by (intro refused) auto
    next
      case (Some g)
      with goes_on(2) True w1 have "or_respond
          (lock_LockMarketPayOrder (NewTradeRepository r (me_trade e)) (me_lock_now e) \<lparr>ue_UserID = lrq_UserID req\<rparr>
             (lock_activity req g) (lock_discount req trial)) failLock
          (\<lambda>order. go_ret (Success (ToLockResponse (Some order)))) w = (q, w')" by simp
      then show ?thesis
        by (cases rule: or_respond_cases) (use goes_on(1) w1 True Some called in auto)
    qed
  qed
qed (auto dest: trial_reads [OF _ R] intro: refused)

lemma trial_and_lock_cases:
  assumes run: "app_trial_and_lock (trade_app D r e) req w = (q, w')"
    and M: "mysql_ok (rp_db r)" and R: "redis_ok (rp_redis r)" "getbit_reads (rp_redis r)"
  obtains (refused) "no_success empty_lock_response q" "w_db w' = w_db w"
  | (locked) trial g order agg where
      "trial_Apply (market_chain D r e) (me_load e) (ToMarketProductWithActivity req) w = (Inr trial, w)"
      "tb_IsVisible trial" "tb_IsEnable trial" "tb_GroupBuyActivityDiscountVO trial = Some g"
      "agl_UserEntity agg = \<lparr>ue_UserID = lrq_UserID req\<rparr>" "agl_PayActivityEntity agg = lock_activity req g"
      "agl_PayDiscountEntity agg = lock_discount req trial"
      "repo_LockMarketPayOrder r (me_trade e) agg (w_db w) = (Inr order, w_db w')"
      "q = Inr (Success (ToLockResponse (Some order)))"
  using run R
proof (cases rule: trial_and_lock_calls)
  case (called trial g sq)
  from called(5) M show ?thesis
  proof (cases rule: lock_service_db)
    case (refused e)
    with called(6) that(1) show ?thesis by simp
  next
    case (locked order agg)
    with called that(2) show ?thesis by simp
  qed
qed (simp add: that(1))

lemma NormalizeLockNotify_simps [simp]:
  "lrq_UserID (NormalizeLockNotify req) = lrq_UserID req" "lrq_TeamID (NormalizeLockNotify req) = lrq_TeamID req"
  "lrq_ActivityID (NormalizeLockNotify req) = lrq_ActivityID req" "lrq_GoodsID (NormalizeLockNotify req) = lrq_GoodsID req"
  "lrq_Source (NormalizeLockNotify req) = lrq_Source req" "lrq_Channel (NormalizeLockNotify req) = lrq_Channel req"
  "lrq_OutTradeNo (NormalizeLockNotify req) = lrq_OutTradeNo req"
  "ToMarketProductWithActivity (NormalizeLockNotify req) = ToMarketProductWithActivity req"
  by (simp_all add: NormalizeLockNotify_def ToMarketProductWithActivity_def Let_def)

lemma team_check_cases:
  assumes "(if t \<noteq> '''' then
      or_respond (QueryGroupBuyProgress (NewTradeRepository r E) t) failLock
        (\<lambda>progress. if (case progress of None \<Rightarrow> False | Some p \<Rightarrow> gp_TargetCount p = gp_LockCount p)
           then go_ret (fail_code empty_lock_response E0006) else k)
      else k) w = (q, w')"
  obtains (full) "no_success empty_lock_response q" "w' = w" | (tried) "k w = (q, w')"
proof (cases "t = ''''")
  case True
  with assms tried show ?thesis by simp
next
  case False
  with assms have "or_respond (QueryGroupBuyProgress (NewTradeRepository r E) t) failLock
      (\<lambda>progress. if (case progress of None \<Rightarrow> False | Some p \<Rightarrow> gp_TargetCount p = gp_LockCount p)
         then go_ret (fail_code empty_lock_response E0006) else k) w = (q, w')" by simp
  then show ?thesis
  proof (cases rule: or_respond_cases)
    case (goes_on x w1)
    then have "w1 = w" using readsD [OF trade_repo.progress_reads] by blast
    with goes_on(2) full tried show ?thesis by (auto split: if_splits)
  qed (auto dest: readsD [OF trade_repo.progress_reads] intro: full)
qed

text \<open>A request that is well formed looks its order up first.\<close>

lemma app_lock_lookup:
  assumes run: "app_LockMarketPayOrder (trade_app D r e) (Some req) w = (q, w')"
    and ok: "lock_request_ok (NormalizeLockNotify req)" and M: "mysql_ok (rp_db r)"
    and row: "row = find (trade_no_of (rp_db r) (lrq_UserID req) (lrq_OutTradeNo req)) (db_lists (w_db w))"
  obtains (failed) "no_success empty_lock_response q" "w' = w"
  | (pending) l where "row = Some l" "l_Status l = TradeOrderCreate" "q = Inr (Success (row_response l))" "w' = w"
  | (none) "\<forall>l. row = Some l \<longrightarrow> l_Status l \<noteq> TradeOrderCreate"
      "no_success empty_lock_response q \<and> w' = w \<or>
       app_trial_and_lock (trade_app D r e) (NormalizeLockNotify req) w = (q, w')"
proof -
  let ?req = "NormalizeLockNotify req"
  let ?rest = "if lrq_TeamID ?req \<noteq> '''' then
      or_respond (QueryGroupBuyProgress (NewTradeRepository r (me_trade e)) (lrq_TeamID ?req)) failLock
        (\<lambda>progress. if (case progress of None \<Rightarrow> False | Some p \<Rightarrow> gp_TargetCount p = gp_LockCount p)
           then go_ret (fail_code empty_lock_response E0006) else app_trial_and_lock (trade_app D r e) ?req)
      else app_trial_and_lock (trade_app D r e) ?req"
  have "or_respond
      (QueryMarketPayOrderEntityByOutTradeNo (NewTradeRepository r (me_trade e)) (lrq_UserID ?req) (lrq_OutTradeNo ?req))
      failLock
      (\<lambda>exist. if (case exist of None \<Rightarrow> False | Some m \<Rightarrow> mo_TradeOrderStatus m = TradeOrderCreate)
         then go_ret (Success (ToLockResponse exist)) else ?rest) w = (q, w')"
    using run unfolding app_LockMarketPayOrder_def option.case Let_def app_services
    by (simp only: ok not_True_eq_False if_False)
  then show ?thesis
  proof (cases rule: or_respond_cases)
    case (goes_on x w1)
    have x: "x = map_option order_of row" "w1 = w" using order_lookup [OF goes_on(1) M] by (simp_all add: row)
    show ?thesis
    proof (cases "\<exists>l. row = Some l \<and> l_Status l = TradeOrderCreate")
      case True
      then obtain l where l: "row = Some l" "l_Status l = TradeOrderCreate" by blast
      with goes_on(2) x have "q = Inr (Success (row_response l))" "w' = w"
        by (simp_all add: order_of_def row_response_def ToLockResponse_def)
      with l show ?thesis by (intro pending) simp_all
    next
      case False
      then have no_open: "\<forall>l. row = Some l \<longrightarrow> l_Status l \<noteq> TradeOrderCreate" by blast
      with goes_on(2) x have "?rest w = (q, w')" by (cases row) (simp_all add: order_of_def)
      then show ?thesis by (cases rule: team_check_cases) (use none no_open in auto)
    qed
  qed (auto dest: readsD [OF trade_repo.order_reads] intro: failed)
qed

lemma find_snoc: "find P xs = None \<Longrightarrow> P x \<Longrightarrow> find P (xs @ [x]) = Some x"
  by (induction xs) (auto split: if_splits)

lemma app_lock_cases:
  assumes run: "app_LockMarketPayOrder (trade_app D r e) (Some req) w = (q, w')"
    and M: "mysql_ok (rp_db r)" and R: "redis_ok (rp_redis r)" "getbit_reads (rp_redis r)"
    and row: "row = find (trade_no_of (rp_db r) (lrq_UserID req) (lrq_OutTradeNo req)) (db_lists (w_db w))"
  obtains (refused) "no_success empty_lock_response q" "w_db w' = w_db w"
  | (pending) l where "row = Some l" "l_Status l = TradeOrderCreate" "q = Inr (Success (row_response l))" "w' = w"
      "lock_request_ok (NormalizeLockNotify req)"
  | (locked) trial l where "\<forall>l. row = Some l \<longrightarrow> l_Status l \<noteq> TradeOrderCreate"
      "lock_request_ok (NormalizeLockNotify req)"
      "trial_Apply (market_chain D r e) (me_load e) (ToMarketProductWithActivity req) w = (Inr trial, w)"
      "tb_IsVisible trial" "tb_IsEnable trial" "db_lists (w_db w') = db_lists (w_db w) @ [l]"
      "l_UserID l = lrq_UserID req" "l_OutTradeNo l = lrq_OutTradeNo req" "l_ActivityID l = lrq_ActivityID req"
      "l_OriginalPrice l = tb_OriginalPrice trial" "l_DeductionPrice l = tb_DeductionPrice trial"
      "l_PayPrice l = tb_PayPrice trial" "l_Status l = TradeOrderCreate" "q = Inr (Success (row_response l))"
proof (cases "lock_request_ok (NormalizeLockNotify req)")
  case False
  with run have "q = Inr (fail_code empty_lock_response ILLEGAL_PARAMETER)" "w' = w"
    by (simp_all add: app_LockMarketPayOrder_def)
  then show ?thesis by (intro refused) simp_all
next
  case ok: True
  from run ok M row show ?thesis
  proof (cases rule: app_lock_lookup)
    case none
    from none(2) show ?thesis
    proof
      assume "app_trial_and_lock (trade_app D r e) (NormalizeLockNotify req) w = (q, w')"
      from this M R show ?thesis
      proof (cases rule: trial_and_lock_cases)
        case (locked trial g order agg)
        let ?E = "me_trade e"
        from locked(8) M obtain t j where
          row: "db_lists (w_db w') = db_lists (w_db w) @ [(new_order ?E agg t (lock_orderID ?E agg))\<lparr>l_ID := j\<rparr>]"
            "order = lock_result ?E agg t"
          by (rule locked_row)
        show ?thesis
          by (rule that(3) [OF none(1) ok _ locked(2,3) row(1)])
            (use locked(1,5-7,9) row(2) in \<open>simp_all add: new_order_def Let_def lock_activity_def
              lock_discount_def row_response_def ToLockResponse_def lock_result_def\<close>)
      qed (rule refused)
    qed (use refused in simp)
  qed (use refused pending ok in auto)
qed

section \<open>Properties\<close>

text \<open>
  C30. A lock request either fails, with the database as before, or is answered with an unpaid order of
  the user. That order is the one the user's trade number already has, and nothing changes, or it is
  new: then a trial of the goods at that moment let the user see and join the activity, and the order
  has the prices of that trial, whatever the request says.
\<close>

theorem lock_request_outcome:
  assumes M: "mysql_ok (rp_db r)" and R: "redis_ok (rp_redis r)" "getbit_reads (rp_redis r)"
    and run: "app_LockMarketPayOrder (trade_app D r e) (Some req) w = (q, w')"
  shows "(no_success empty_lock_response q \<and> w_db w' = w_db w) \<or>
    (\<exists>l \<in> set (db_lists (w_db w')). q = Inr (Success (row_response l)) \<and> l_Status l = TradeOrderCreate \<and>
       (w' = w \<and> trade_no_of (rp_db r) (lrq_UserID req) (lrq_OutTradeNo req) l \<or>
        (\<exists>trial. trial_Apply (market_chain D r e) (me_load e) (ToMarketProductWithActivity req) w = (Inr trial, w) \<and>
          tb_IsVisible trial \<and> tb_IsEnable trial \<and>
          db_lists (w_db w') = db_lists (w_db w) @ [l] \<and> l_UserID l = lrq_UserID req \<and>
          l_OutTradeNo l = lrq_OutTradeNo req \<and> l_ActivityID l = lrq_ActivityID req \<and>
          l_OriginalPrice l = tb_OriginalPrice trial \<and> l_DeductionPrice l = tb_DeductionPrice trial \<and>
          l_PayPrice l = tb_PayPrice trial)))"
  using run M R refl
proof (cases rule: app_lock_cases)
  case (pending l)
  then have "l \<in> set (db_lists (w_db w'))" "trade_no_of (rp_db r) (lrq_UserID req) (lrq_OutTradeNo req) l"
    by (auto simp: find_Some_iff)
  with pending(2-4) show ?thesis by blast
next
  case (locked trial l)
  then have "l \<in> set (db_lists (w_db w'))" by simp
  with locked show ?thesis by blast
qed simp

text \<open>The order of a granted request is the first one of its trade number, if that has no older order that is paid or closed.\<close>

lemma granted_order:
  assumes M: "mysql_ok (rp_db r)" and R: "redis_ok (rp_redis r)" "getbit_reads (rp_redis r)"
    and granted: "app_LockMarketPayOrder (trade_app D r e) (Some req) w = (Inr (Success order), w1)"
      "lrs_OrderID order \<noteq> ''''"
    and unused: "\<forall>l \<in> set (db_lists (w_db w)). trade_no_of (rp_db r) (lrq_UserID req) (lrq_OutTradeNo req) l \<longrightarrow>
      l_Status l = TradeOrderCreate"
  obtains l where "find (trade_no_of (rp_db r) (lrq_UserID req) (lrq_OutTradeNo req)) (db_lists (w_db w1)) = Some l"
    "l_Status l = TradeOrderCreate" "order = row_response l" "lock_request_ok (NormalizeLockNotify req)"
proof -
  let ?P = "trade_no_of (rp_db r) (lrq_UserID req) (lrq_OutTradeNo req)"
  from granted(1) M R refl show ?thesis
  proof (cases rule: app_lock_cases)
    case (locked trial l)
    have none: "find ?P (db_lists (w_db w)) = None"
      using locked(1) unused by (cases "find ?P (db_lists (w_db w))") (auto simp: find_Some_iff)
    have "?P l" using locked(7,8) by (simp add: trade_no_of_def sqlEq_def)
    with none have "find ?P (db_lists (w_db w1)) = Some l" unfolding locked(6) by (simp add: find_snoc)
    then show ?thesis using that [of l] locked(2,13,14) by (simp add: Success_def)
  qed (use that granted(2) in \<open>auto simp: Success_def no_success_def FailR_def empty_lock_response_def\<close>)
qed

text \<open>With MySQL up the request whose number has an unpaid order is answered with it.\<close>

lemma pending_order_found:
  assumes M: "mysql_ok (rp_db r)" "mysql_up (rp_db r)" and ok: "lock_request_ok (NormalizeLockNotify req)"
    and l: "find (trade_no_of (rp_db r) (lrq_UserID req) (lrq_OutTradeNo req)) (db_lists (w_db w)) = Some l"
      "l_Status l = TradeOrderCreate"
  shows "app_LockMarketPayOrder (trade_app D r e) (Some req) w = (Inr (Success (row_response l)), w)"
proof -
  have "QueryMarketPayOrderEntityByOutTradeNo (NewTradeRepository r (me_trade e)) (lrq_UserID req)
      (lrq_OutTradeNo req) w = (Inr (Some (order_of l)), w)"
    using dbFirst_up [OF mysql_okD(2) [OF M(1)] mysql_upD(2) [OF M(2)]] l(1)
    by (simp add: NewTradeRepository_def on_db_def repo_QueryMarketPayOrderEntityByOutTradeNo_def go_bind_def
        trade_no_of_def order_of_def)
  with ok l(2) show ?thesis
    by (simp add: app_LockMarketPayOrder_def Let_def or_respond_def order_of_def row_response_def ToLockResponse_def)
qed

text \<open>Ann locks an order.\<close>

definition ex_market_env :: market_env where
  "ex_market_env = \<lparr>me_trade = ex_env 1, me_lock_now = 1000, me_activity = ex_activity_env,
     me_load = \<lparr>le_acquire = None, le_skuFirst = False\<rparr>\<rparr>"

definition ex_lock_request :: LockMarketPayOrderRequestDTO where
  "ex_lock_request = \<lparr>lrq_UserID = ''ann'', lrq_TeamID = '''', lrq_ActivityID = 100123, lrq_GoodsID = ''9890001'',
     lrq_Source = ''s01'', lrq_Channel = ''c01'', lrq_OutTradeNo = ''ann-1'', lrq_NotifyConfig = None,
     lrq_NotifyURL = ''''\<rparr>"

lemma ex_request_trial:
  "\<exists>trial g. trial_Apply (market_chain refDecimal refRepository ex_market_env) (me_load ex_market_env)
     (ToMarketProductWithActivity ex_lock_request) ex_market = (Inr trial, ex_market) \<and>
     tb_IsVisible trial \<and> tb_IsEnable trial \<and> tb_GroupBuyActivityDiscountVO trial = Some g \<and> gv_Target g = 2"
  by (simp add: IsCutRange_def trial_Apply_def rootNode_def switchNode_def marketNode_def multiThreadLoad_def loadActivity_def
      tagNode_def endNode_def trial_chain_of_def NewActivityRepository_def on_db_def
      arepo_QueryGroupBuyActivityDiscountVO_def arepo_QuerySkuByGoodsID_def ex_market_env_def ex_market_def
      ex_lock_request_def ToMarketProductWithActivity_def activity_vo_def discount_vo_def Registry_Get_def
      ZJCalculateService_def FilterAndCalculate_def go_bind_def IsDowngradeSwitch_def dcc_New_def
      empty_trial_context_def Let_def)

lemma ex_request_lock:
  assumes "gv_Target g = 2"
  shows "\<exists>order w'. lock_LockMarketPayOrder (NewTradeRepository refRepository (ex_env 1)) 1000 \<lparr>ue_UserID = ''ann''\<rparr>
     (lock_activity (NormalizeLockNotify ex_lock_request) g)
     (lock_discount (NormalizeLockNotify ex_lock_request) trial) ex_market = (Inr order, w') \<and> mo_OrderID order \<noteq> ''''"
  using assms
  by (simp add: lock_service_tail NewTradeLockRuleFilter_def chain_of_foldr ActivityUsabilityRuleFilter_Apply_def
      UserTakeLimitRuleFilter_Apply_def TeamStockOccupyRuleFilter_Apply_def lock_tail_def NewTradeRepository_def
      on_db_def repo_QueryGroupBuyActivityEntityByActivityID_def repo_QueryOrderCountByActivityID_def trade_eval
      lock_activity_def lock_discount_def ex_lock_request_def NormalizeLockNotify_def ex_market_def empty_lock_ctx_def go_bind_def Let_def ex_env_def)

lemma ex_request_granted:
  "\<exists>order w1. app_LockMarketPayOrder (trade_app refDecimal refRepository ex_market_env) (Some ex_lock_request) ex_market
     = (Inr (Success order), w1) \<and> lrs_OrderID order \<noteq> ''''"
proof -
  let ?req = "NormalizeLockNotify ex_lock_request"
  obtain trial g where trial: "trial_Apply (market_chain refDecimal refRepository ex_market_env) (me_load ex_market_env)
     (ToMarketProductWithActivity ex_lock_request) ex_market = (Inr trial, ex_market)"
    "tb_IsVisible trial" "tb_IsEnable trial" "tb_GroupBuyActivityDiscountVO trial = Some g" "gv_Target g = 2"
    using ex_request_trial by blast
  from ex_request_lock [OF trial(5)] obtain order w1 where
    lock: "lock_LockMarketPayOrder (NewTradeRepository refRepository (ex_env 1)) 1000 \<lparr>ue_UserID = ''ann''\<rparr>
     (lock_activity ?req g) (lock_discount ?req trial) ex_market = (Inr order, w1)" "mo_OrderID order \<noteq> ''''"
    by blast
  have env: "me_trade ex_market_env = ex_env 1" "me_lock_now ex_market_env = 1000" by (simp_all add: ex_market_env_def)
  have req: "lock_request_ok ?req" "lrq_UserID ex_lock_request = ''ann''" "lrq_TeamID ex_lock_request = ''''"
    by (simp_all add: lock_request_ok_def NormalizeLockNotify_def ex_lock_request_def)
  have "QueryMarketPayOrderEntityByOutTradeNo (NewTradeRepository refRepository (ex_env 1)) u n ex_market = (Inr None, ex_market)"
    for u n
    by (simp add: NewTradeRepository_def on_db_def repo_QueryMarketPayOrderEntityByOutTradeNo_def go_bind_def ex_market_def)
  then have "app_LockMarketPayOrder (trade_app refDecimal refRepository ex_market_env) (Some ex_lock_request) ex_market
     = app_trial_and_lock (trade_app refDecimal refRepository ex_market_env) ?req ex_market"
    by (simp add: app_LockMarketPayOrder_def Let_def or_respond_def req env)
  also have "\<dots> = (Inr (Success (ToLockResponse (Some order))), w1)"
    using trial lock(1) by (simp add: app_trial_and_lock_def or_respond_def req env)
  finally show ?thesis using lock(2) by (auto simp: ToLockResponse_def)
qed

text \<open>Ann's request is granted, and her order is the only one.\<close>

lemma lock_request_witness:
  "\<exists>l w'. app_LockMarketPayOrder (trade_app refDecimal refRepository ex_market_env) (Some ex_lock_request) ex_market
     = (Inr (Success (row_response l)), w') \<and> db_lists (w_db w') = [l] \<and> l_UserID l = ''ann''"
proof -
  obtain order w1 where run: "app_LockMarketPayOrder (trade_app refDecimal refRepository ex_market_env)
      (Some ex_lock_request) ex_market = (Inr (Success order), w1)" "lrs_OrderID order \<noteq> ''''"
    using ex_request_granted by blast
  have "\<not> no_success empty_lock_response (Inr (Success order))"
    using run(2) by (auto simp: no_success_def Success_def FailR_def empty_lock_response_def)
  moreover have none: "db_lists (w_db ex_market) = []" and user: "lrq_UserID ex_lock_request = ''ann''"
    by (simp_all add: ex_market_def ex_lock_request_def)
  ultimately have "\<exists>l. Success order = Success (row_response l) \<and> db_lists (w_db w1) = [l] \<and> l_UserID l = ''ann''"
    using lock_request_outcome [OF _ _ _ run(1)] mysql_ok_ref redis_ok_ref getbit_reads_ref
      none user by auto
  with run(1) show ?thesis by auto
qed


text \<open>
  A refund request for an order that does not exist is not answered: the service returns no
  result and no error, and the use case dereferences nil. Nothing has changed.
\<close>

lemma unknown_refund_panics:
  assumes M: "mysql_ok (rp_db r)" "mysql_up (rp_db r)" and req: "refund_request_ok req"
    and none: "\<forall>l \<in> set (db_lists (w_db w)). \<not> trade_no_of (rp_db r) (rrq_UserID req) (rrq_OutTradeNo req) l"
  shows "app_RefundMarketPayOrder (trade_app D r e) (Some req) w = (Inl nil_deref, w)"
proof -
  let ?repo = "NewTradeRepository r (me_trade e)"
  have "find (trade_no_of (rp_db r) (rrq_UserID req) (rrq_OutTradeNo req)) (db_lists (w_db w)) = None"
    using none by (simp add: find_None_iff)
  then have "QueryMarketPayOrderEntityByOutTradeNo ?repo (rrq_UserID req) (rrq_OutTradeNo req) w = (Inr None, w)"
    using dbFirst_up [OF mysql_okD(2) [OF M(1)] mysql_upD(2) [OF M(2)]]
    by (simp add: NewTradeRepository_def on_db_def repo_QueryMarketPayOrderEntityByOutTradeNo_def go_bind_def
        trade_no_of_def)
  then have "refund_RefundOrder ?repo (all_strategies ?repo (Some safego_Go)) (ToRefundCommand req) w = (Inr None, w)"
    by (simp add: refund_RefundOrder_def NewTradeRefundRuleFilter_def chain_of_foldr DataNodeFilter_Apply_def
        ToRefundCommand_def go_bind_def)
  then show ?thesis using req by (simp add: app_RefundMarketPayOrder_def or_respond_def)
qed

lemma unknown_refund_witness:
  "app_RefundMarketPayOrder (trade_app refDecimal refRepository ex_market_env)
     (Some \<lparr>rrq_UserID = ''ann'', rrq_OutTradeNo = ''ann-1'', rrq_Source = ''s01'', rrq_Channel = ''c01''\<rparr>) ex_market
   = (Inl nil_deref, ex_market)"
  by (rule unknown_refund_panics) (simp_all add: mysql_ok_ref mysql_up_ref refund_request_ok_def ex_market_def)

end
