(* ===== verification/Market_Page.thy ===== *)
theory Market_Page
  imports Market_App
begin

text \<open>
  What the market page shows (\<open>application/market_index_app.go\<close> over
  \<open>infrastructure/repository/activity_repository.go\<close>): the teams a user can join.
\<close>

section \<open>The teams of a list of orders\<close>

definition joinable :: "time \<Rightarrow> GroupBuyOrder \<Rightarrow> bool" where
  "joinable now g \<longleftrightarrow> o_Status g = GroupBuyProgress \<and> o_LockCount g < o_TargetCount g \<and> now < o_ValidEndTime g"

lemma order_details_sound:
  assumes "u \<in> set (order_details m rows)"
  obtains l g where "l \<in> set rows" "m (l_TeamID l) = Some g" "u = order_detail l g"
  using assms by (auto simp: order_details_def map_filter_def)

lemma order_details_length: "length (order_details m rows) \<le> length rows"
  by (simp add: order_details_def map_filter_def)

lemma order_map:
  assumes "foldl (\<lambda>m g. m(o_TeamID g \<mapsto> g)) m0 orders t = Some g"
  shows "m0 t = Some g \<or> g \<in> set orders \<and> o_TeamID g = t"
  using assms by (induction orders arbitrary: m0) (fastforce split: if_splits)+

lemma assemble_sound:
  assumes run: "arepo_assembleOrderDetails ar E rows d = (Inr us, d')" and M: "mysql_ok (ar_db ar)"
  shows "length us \<le> length rows"
    and "u \<in> set us \<Longrightarrow> \<exists>l \<in> set rows. \<exists>g \<in> set (db_orders d). u = order_detail l g \<and> o_TeamID g = l_TeamID l \<and>
      joinable (ae_now E) g"
proof -
  have "length us \<le> length rows \<and> (\<forall>u \<in> set us. \<exists>l \<in> set rows. \<exists>g \<in> set (db_orders d). u = order_detail l g \<and>
      o_TeamID g = l_TeamID l \<and> joinable (ae_now E) g)"
  proof (cases "rows = []")
    case True
    with run show ?thesis by (simp add: arepo_assembleOrderDetails_def)
  next
    case False
    let ?teams = "rev (remdups (rev (filter (\<lambda>t. t \<noteq> '''') (map l_TeamID rows))))"
    let ?P = "\<lambda>g. o_Status g = 0 \<and> o_TargetCount g > o_LockCount g \<and> o_ValidEndTime g > ae_now E \<and>
                  list_ex (\<lambda>t. sqlEq (ar_db ar) (o_TeamID g) t) ?teams"
    from run False obtain orders d1 where
      find: "dbFind db_orders (my_orders (ar_db ar)) ?P Unordered None d = (Inr orders, d1)"
      and us: "us = order_details (foldl (\<lambda>m g. m(o_TeamID g \<mapsto> g)) Map.empty orders) rows"
      unfolding arepo_assembleOrderDetails_def Let_def by (auto elim!: go_bind_Inr_cases)
    from find mysql_okD(1) [OF M] have "find_ok ?P Unordered None (db_orders d) orders"
      by (cases rule: dbFind_cases) simp_all
    then have orders: "g \<in> set (db_orders d) \<and> ?P g" if "g \<in> set orders" for g
      using that set_mset_mono [of "mset orders" "mset (filter ?P (db_orders d))"] by (auto simp: find_ok_def)
    have "\<exists>l \<in> set rows. \<exists>g \<in> set (db_orders d). u = order_detail l g \<and> o_TeamID g = l_TeamID l \<and> joinable (ae_now E) g"
      if "u \<in> set us" for u
    proof -
      from that us obtain l g where l: "l \<in> set rows" "u = order_detail l g"
        "foldl (\<lambda>m g. m(o_TeamID g \<mapsto> g)) Map.empty orders (l_TeamID l) = Some g"
        by (auto elim: order_details_sound)
      from order_map [OF l(3)] have "g \<in> set orders" "o_TeamID g = l_TeamID l" by simp_all
      with orders l show ?thesis by (auto simp: joinable_def)
    qed
    with order_details_length us show ?thesis by blast
  qed
  then show "length us \<le> length rows"
    and "u \<in> set us \<Longrightarrow> \<exists>l \<in> set rows. \<exists>g \<in> set (db_orders d). u = order_detail l g \<and> o_TeamID g = l_TeamID l \<and>
      joinable (ae_now E) g" by blast+
qed

text \<open>An open order of the activity in a team that can be joined.\<close>

definition shown_team :: "db \<Rightarrow> time \<Rightarrow> int64 \<Rightarrow> UserGroupBuyOrderDetailEntity \<Rightarrow> bool" where
  "shown_team d now a u \<longleftrightarrow>
     (\<exists>l \<in> set (db_lists d). \<exists>g \<in> set (db_orders d). u = order_detail l g \<and> o_TeamID g = l_TeamID l \<and>
        joinable now g \<and> l_ActivityID l = a \<and> (l_Status l = 0 \<or> l_Status l = 1) \<and> now < l_EndTime l)"

lemma assemble_shown:
  assumes "arepo_assembleOrderDetails ar E rows d = (Inr us, d')" and "mysql_ok (ar_db ar)" and "length rows \<le> n"
    and "\<And>l. l \<in> set rows \<Longrightarrow> l \<in> set (db_lists d) \<and> l_ActivityID l = a \<and> (l_Status l = 0 \<or> l_Status l = 1) \<and>
      ae_now E < l_EndTime l"
  shows "length us \<le> n \<and> (\<forall>u \<in> set us. shown_team d (ae_now E) a u)"
proof
  show "length us \<le> n" using assemble_sound(1) [OF assms(1,2)] assms(3) by simp
  show "\<forall>u \<in> set us. shown_team d (ae_now E) a u"
  proof
    fix u assume "u \<in> set us"
    from assemble_sound(2) [OF assms(1,2) this] obtain l g where
      "l \<in> set rows" "g \<in> set (db_orders d)" "u = order_detail l g" "o_TeamID g = l_TeamID l" "joinable (ae_now E) g"
      by blast
    with assms(4) [of l] show "shown_team d (ae_now E) a u" unfolding shown_team_def by blast
  qed
qed

lemma owner_teams:
  assumes run: "arepo_QueryDetailListByOwner ar E a u n d = (Inr us, d')" and M: "mysql_ok (ar_db ar)"
  shows "length us \<le> n \<and> (\<forall>u \<in> set us. shown_team d (ae_now E) a u)"
proof -
  let ?P = "\<lambda>l. l_ActivityID l = a \<and> sqlEq (ar_db ar) (l_UserID l) u \<and> (l_Status l = 0 \<or> l_Status l = 1) \<and>
    l_EndTime l > ae_now E"
  from run obtain rows d1 where find: "dbFind db_lists (my_lists (ar_db ar)) ?P IdDesc (Some n) d = (Inr rows, d1)"
    and rest: "arepo_assembleOrderDetails ar E rows d1 = (Inr us, d')"
    unfolding arepo_QueryDetailListByOwner_def by (elim go_bind_Inr_cases)
  have d1: "d1 = d" using readsD [OF dbFind_frame(1) find] .
  from find mysql_okD(2) [OF M] have rows: "rows = take n (rev (filter ?P (db_lists d)))"
    by (cases rule: dbFind_cases) (simp_all add: find_ok_def)
  show ?thesis
    by (rule assemble_shown [OF rest [unfolded d1] M]) (auto simp: rows dest: in_set_takeD)
qed

lemma random_teams:
  assumes run: "arepo_QueryDetailListByRandom ar E a u n d = (Inr us, d')" and M: "mysql_ok (ar_db ar)"
    and shuffle: "\<And>ls. mset (ae_shuffle E ls) = mset ls"
  shows "length us \<le> n \<and> (\<forall>u \<in> set us. shown_team d (ae_now E) a u)"
proof -
  let ?P = "\<lambda>l. l_ActivityID l = a \<and> \<not> sqlEq (ar_db ar) (l_UserID l) u \<and> (l_Status l = 0 \<or> l_Status l = 1) \<and>
    l_EndTime l > ae_now E \<and>
    list_ex (\<lambda>g. o_ActivityID g = a \<and> o_Status g = 0 \<and> sqlEq (ar_db ar) (l_TeamID l) (o_TeamID g)) (db_orders d)"
  from run obtain rows d1 where find: "dbFind db_lists (my_lists (ar_db ar)) ?P IdDesc (Some (n * 2)) d = (Inr rows, d1)"
    and rest: "arepo_assembleOrderDetails ar E (if length rows > n then take n (ae_shuffle E rows) else rows) d1 = (Inr us, d')"
    unfolding arepo_QueryDetailListByRandom_def by (elim go_bind_Inr_cases)
  have d1: "d1 = d" using readsD [OF dbFind_frame(1) find] .
  from find mysql_okD(2) [OF M] have rows: "rows = take (n * 2) (rev (filter ?P (db_lists d)))"
    by (cases rule: dbFind_cases) (simp_all add: find_ok_def)
  have perm: "set (ae_shuffle E rows) = set rows" using shuffle [of rows] by (metis set_mset_mset)
  have "l \<in> set rows" if "l \<in> set (if length rows > n then take n (ae_shuffle E rows) else rows)" for l
    using that perm by (auto dest: in_set_takeD split: if_splits)
  moreover have "l \<in> set (db_lists d) \<and> l_ActivityID l = a \<and> (l_Status l = 0 \<or> l_Status l = 1) \<and> ae_now E < l_EndTime l"
    if "l \<in> set rows" for l using that by (auto simp: rows dest: in_set_takeD)
  moreover have "length (if length rows > n then take n (ae_shuffle E rows) else rows) \<le> n" by simp
  ultimately show ?thesis using assemble_shown [OF rest [unfolded d1] M] by blast
qed

section \<open>The page\<close>

lemma on_db_Inr:
  assumes "on_db f w = (Inr x, w')" and "reads f"
  shows "f (w_db w) = (Inr x, w_db w) \<and> w' = w"
proof -
  from assms(1) obtain d where "f (w_db w) = (Inr x, d)" "w' = w\<lparr>w_db := d\<rparr>" by (auto dest: on_db_frame)
  with readsD [OF assms(2)] show ?thesis by auto
qed

lemma reads_snd: "reads m \<Longrightarrow> snd (m d) = d"
  by (simp add: reads_def)

lemma page_queries_read:
  "reads (arepo_QueryDetailListByOwner ar E a u n)" "reads (arepo_QueryDetailListByRandom ar E a u n)"
  "reads (arepo_QueryTeamStatisticByActivityID ar a)"
proof -
  have assemble: "reads (arepo_assembleOrderDetails ar E rows)" for rows
    unfolding arepo_assembleOrderDetails_def Let_def by (auto intro!: go_frames)
  show "reads (arepo_QueryDetailListByOwner ar E a u n)"
    unfolding arepo_QueryDetailListByOwner_def by (intro go_frames assemble)
  have "snd (arepo_QueryDetailListByRandom ar E a u n d) = d" for d
    unfolding arepo_QueryDetailListByRandom_def by (intro reads_snd reads_bind dbFind_frame(1) assemble)
  then show "reads (arepo_QueryDetailListByRandom ar E a u n)" unfolding reads_def by blast
  have sum: "reads (dbSum_or_0 q)" if "reads q" for q
    using that unfolding reads_def dbSum_or_0_def by (simp add: case_prod_beta split: sum.splits)
  show "reads (arepo_QueryTeamStatisticByActivityID ar a)"
    unfolding arepo_QueryTeamStatisticByActivityID_def Let_def by (auto intro!: go_frames sum)
qed

lemma index_services [simp]:
  "IndexMarketTrial (index_app D r e) = trial_Apply (market_chain D r e) (me_load e)"
  "QueryInProgressUserGroupBuyOrderDetailList (index_app D r e) =
     index_QueryDetailList (NewActivityRepository \<lparr>ar_db = rp_db r, ar_redis = rp_redis r\<rparr> (me_activity e))"
  "QueryTeamStatistic (index_app D r e) a =
     on_db (arepo_QueryTeamStatisticByActivityID \<lparr>ar_db = rp_db r, ar_redis = rp_redis r\<rparr> a)"
  by (simp_all add: index_app_def trade_app_def Let_def NewIndexGroupBuyMarketService_def NewActivityRepository_def)

lemma page_teams:
  assumes run: "index_QueryDetailList (NewActivityRepository ar E) a u m n w = (q, w')"
    and M: "mysql_ok (ar_db ar)" and shuffle: "\<And>ls. mset (ae_shuffle E ls) = mset ls"
  obtains (failed) e where "q = Inl e" "w' = w"
  | (teams) us where "q = Inr us" "w' = w" "length us \<le> m + n" "\<forall>u \<in> set us. shown_team (w_db w) (ae_now E) a u"
proof -
  let ?repo = "NewActivityRepository ar E"
  let ?own = "if m \<noteq> 0 then QueryDetailListByOwner ?repo a u m else go_ret []"
  let ?rand = "if n \<noteq> 0 then QueryDetailListByRandom ?repo a u n else go_ret []"
  have reads: "reads ?own" "reads ?rand"
    by (auto simp: NewActivityRepository_def intro!: go_frames on_db_reads page_queries_read)
  have own: "length us \<le> m \<and> (\<forall>u \<in> set us. shown_team (w_db w) (ae_now E) a u)" if "?own w = (Inr us, w)" for us
    using that owner_teams [OF _ M] by (auto simp: NewActivityRepository_def page_queries_read dest!: on_db_Inr split: if_splits)
  have rand: "length us \<le> n \<and> (\<forall>u \<in> set us. shown_team (w_db w) (ae_now E) a u)" if "?rand w = (Inr us, w)" for us
    using that random_teams [OF _ M shuffle] by (auto simp: NewActivityRepository_def page_queries_read dest!: on_db_Inr split: if_splits)
  from run have "go_bind ?own (\<lambda>own. go_bind ?rand (\<lambda>rand. go_ret (own @ rand))) w = (q, w')"
    unfolding index_QueryDetailList_def .
  then show ?thesis
  proof (cases rule: go_bind_cases)
    case (fails e)
    with failed readsD [OF reads(1)] show ?thesis by blast
  next
    case (goes_on us w1)
    have w1: "w1 = w" using readsD [OF reads(1) goes_on(1)] .
    from goes_on(2) show ?thesis unfolding w1
    proof (cases rule: go_bind_cases)
      case (fails e)
      with failed readsD [OF reads(2)] show ?thesis by blast
    next
      case more: (goes_on vs w2)
      have w2: "w2 = w" using readsD [OF reads(2) more(1)] .
      from more(2) w2 have "q = Inr (us @ vs)" "w' = w" by simp_all
      with teams own [OF goes_on(1) [unfolded w1]] rand [OF more(1) [unfolded w2]] show ?thesis by auto
    qed
  qed
qed

text \<open>The page for a trial.\<close>

definition page_of ::
    "'w IIndexGroupBuyMarketService \<Rightarrow> time \<Rightarrow> GoodsMarketRequestDTO \<Rightarrow> TrialBalanceEntity \<Rightarrow>
     ('w, GoodsMarketResponseDTO Response) go" where
  "page_of index now req trial =
     (case tb_GroupBuyActivityDiscountVO trial of
        None \<Rightarrow> go_err nil_deref
      | Some g \<Rightarrow>
          or_respond (QueryInProgressUserGroupBuyOrderDetailList index (gv_ActivityID g) (gmq_UserID req) 1 2)
            (\<lambda>_. fail_code empty_market_response UN_ERROR)
            (\<lambda>teams. or_respond (QueryTeamStatistic index (gv_ActivityID g))
               (\<lambda>_. fail_code empty_market_response UN_ERROR)
               (\<lambda>stat. let (allTeam, allComplete, allUser) =
                    (case stat of None \<Rightarrow> (0, 0, 0)
                     | Some v \<Rightarrow> (ts_AllTeamCount v, ts_AllTeamCompleteCount v, ts_AllTeamUserCount v))
                  in go_ret (Success (ToGoodsMarketResponse now trial teams allTeam allComplete allUser)))))"

lemma page_of_cases:
  assumes run: "page_of (index_app D r e) now req trial w = (q, w')" and M: "mysql_ok (rp_db r)"
    and shuffle: "\<And>ls. mset (ae_shuffle (me_activity e) ls) = mset ls"
  obtains (failed) "no_success empty_market_response q" "w' = w"
  | (shown) us g a b c where "tb_GroupBuyActivityDiscountVO trial = Some g" "length us \<le> 3"
      "\<forall>u \<in> set us. shown_team (w_db w) (ae_now (me_activity e)) (gv_ActivityID g) u" "w' = w"
      "q = Inr (Success (ToGoodsMarketResponse now trial us a b c))"
proof (cases "tb_GroupBuyActivityDiscountVO trial")
  case None
  with run have "q = Inl nil_deref" "w' = w" by (simp_all add: page_of_def)
  then show ?thesis by (intro failed) simp_all
next
  case (Some g)
  let ?ar = "\<lparr>ar_db = rp_db r, ar_redis = rp_redis r\<rparr>"
  let ?a = "gv_ActivityID g"
  from run Some have "or_respond
      (index_QueryDetailList (NewActivityRepository ?ar (me_activity e)) ?a (gmq_UserID req) 1 2)
      (\<lambda>_. fail_code empty_market_response UN_ERROR)
      (\<lambda>teams. or_respond (on_db (arepo_QueryTeamStatisticByActivityID ?ar ?a))
         (\<lambda>_. fail_code empty_market_response UN_ERROR)
         (\<lambda>stat. let (allTeam, allComplete, allUser) =
              (case stat of None \<Rightarrow> (0, 0, 0)
               | Some v \<Rightarrow> (ts_AllTeamCount v, ts_AllTeamCompleteCount v, ts_AllTeamUserCount v))
            in go_ret (Success (ToGoodsMarketResponse now trial teams allTeam allComplete allUser)))) w = (q, w')"
    by (simp add: page_of_def)
  then show ?thesis
  proof (cases rule: or_respond_cases)
    case (panic p)
    from panic(1) shuffle have "w' = w" by (elim page_teams) (simp_all add: M)
    with panic(2) failed show ?thesis by simp
  next
    case (failed err)
    from failed(1) shuffle have "w' = w" by (elim page_teams) (simp_all add: M)
    with failed(2) that(1) show ?thesis by simp
  next
    case (goes_on us w1)
    from goes_on(1) shuffle have us: "w1 = w" "length us \<le> 3"
      "\<forall>u \<in> set us. shown_team (w_db w) (ae_now (me_activity e)) ?a u"
      by (elim page_teams; simp add: M)+
    have stat: "reads (on_db (arepo_QueryTeamStatisticByActivityID ?ar ?a))"
      by (intro on_db_reads page_queries_read)
    from goes_on(2) show ?thesis unfolding us(1)
    proof (cases rule: or_respond_cases)
      case (goes_on stat w2)
      with readsD [OF stat] have "w2 = w" by blast
      with goes_on(2) shown [OF Some us(2,3)] show ?thesis by (auto simp: Let_def split: prod.splits)
    qed (use that(1) readsD [OF stat] in auto)
  qed
qed

section \<open>Properties\<close>

text \<open>
  A team of the page: an open order of the activity and the row of its team, which has a place left at
  the moment of the query; every entry is one of these two rows, the countdown that to the end of the team.
\<close>

definition page_team :: "db \<Rightarrow> time \<Rightarrow> time \<Rightarrow> int64 \<Rightarrow> TeamDTO \<Rightarrow> bool" where
  "page_team d now clock a t \<longleftrightarrow>
     (\<exists>g \<in> set (db_orders d). \<exists>l \<in> set (db_lists d).
        joinable now g \<and> l_TeamID l = o_TeamID g \<and> l_ActivityID l = a \<and>
        (l_Status l = TradeOrderCreate \<or> l_Status l = TradeOrderComplete) \<and>
        t = \<lparr>tmd_UserID = l_UserID l, tmd_TeamID = o_TeamID g, tmd_ActivityID = o_ActivityID g,
             tmd_TargetCount = o_TargetCount g, tmd_CompleteCount = o_CompleteCount g,
             tmd_LockCount = o_LockCount g, tmd_ValidStartTime = o_ValidStartTime g,
             tmd_ValidEndTime = o_ValidEndTime g, tmd_ValidTimeCountdown = CountdownStr clock (o_ValidEndTime g),
             tmd_OutTradeNo = l_OutTradeNo l\<rparr>)"

lemma page_team_dto: "shown_team d now a u \<Longrightarrow> page_team d now clock a (team_dto clock u)"
  unfolding shown_team_def page_team_def
proof (elim bexE conjE)
  fix l g
  assume "l \<in> set (db_lists d)" "g \<in> set (db_orders d)" "u = order_detail l g" "o_TeamID g = l_TeamID l"
    "joinable now g" "l_ActivityID l = a" "l_Status l = 0 \<or> l_Status l = 1"
  then show "\<exists>g \<in> set (db_orders d). \<exists>l \<in> set (db_lists d).
      joinable now g \<and> l_TeamID l = o_TeamID g \<and> l_ActivityID l = a \<and>
      (l_Status l = TradeOrderCreate \<or> l_Status l = TradeOrderComplete) \<and>
      team_dto clock u = \<lparr>tmd_UserID = l_UserID l, tmd_TeamID = o_TeamID g, tmd_ActivityID = o_ActivityID g,
             tmd_TargetCount = o_TargetCount g, tmd_CompleteCount = o_CompleteCount g,
             tmd_LockCount = o_LockCount g, tmd_ValidStartTime = o_ValidStartTime g,
             tmd_ValidEndTime = o_ValidEndTime g, tmd_ValidTimeCountdown = CountdownStr clock (o_ValidEndTime g),
             tmd_OutTradeNo = l_OutTradeNo l\<rparr>"
    by (intro bexI [of _ g] bexI [of _ l]) (simp_all add: team_dto_def order_detail_def)
qed

text \<open>
  C33. Asking for the market page changes nothing, and the page, when there is one, shows at most
  three teams. Each stands for an order, unpaid or paid, of the activity that is priced there, and
  for the row of its team, which is in progress, has a place left and has not ended; all it shows is
  of these two rows: the target, complete and lock counts, activity, start and end of the team, the
  user and trade number of the order, and the time left from the clock of the request to the end of
  the team.
\<close>

theorem page_shows_joinable_teams:
  assumes M: "mysql_ok (rp_db r)" and R: "redis_ok (rp_redis r)" "getbit_reads (rp_redis r)"
    and shuffle: "\<And>ls. mset (ae_shuffle (me_activity e) ls) = mset ls"
    and run: "app_QueryGroupBuyMarketConfig (index_app D r e) now (Some req) w = (q, w')"
  shows "w' = w \<and> (no_success empty_market_response q \<or>
    (\<exists>page. q = Inr (Success page) \<and> length (gms_TeamList page) \<le> 3 \<and>
       (\<forall>t \<in> set (gms_TeamList page). page_team (w_db w) (ae_now (me_activity e)) now (gms_ActivityID page) t)))"
proof (cases "market_request_ok req")
  case False
  with run show ?thesis by (auto simp: app_QueryGroupBuyMarketConfig_def)
next
  case True
  from run True have "or_respond (trial_Apply (market_chain D r e) (me_load e) (ToMarketProduct req))
      (fail_error empty_market_response) (page_of (index_app D r e) now req) w = (q, w')"
    by (simp add: app_QueryGroupBuyMarketConfig_def page_of_def [abs_def])
  then show ?thesis
  proof (cases rule: or_respond_cases)
    case (goes_on trial w1)
    have "w1 = w" by (rule trial_reads [OF goes_on(1) R])
    with goes_on(2) have "page_of (index_app D r e) now req trial w = (q, w')" by simp
    from this M shuffle show ?thesis
    proof (cases rule: page_of_cases)
      case (shown us g a b c)
      let ?page = "ToGoodsMarketResponse now trial us a b c"
      have "gms_TeamList ?page = map (team_dto now) us" "gms_ActivityID ?page = gv_ActivityID g"
        using shown(1) by (simp_all add: ToGoodsMarketResponse_def)
      with shown show ?thesis by (intro conjI disjI2 exI [of _ ?page]) (auto intro: page_team_dto)
    qed simp
  qed (auto dest: trial_reads [OF _ R])
qed

text \<open>Bob asks for the page while Ann's order waits for a second one.\<close>

definition ex_open_market :: world where
  "ex_open_market = ex_market\<lparr>w_db := (w_db ex_market)\<lparr>
     db_scskus := [\<lparr>sca_ID = 1, sca_Source = ''s01'', sca_Channel = ''c01'', sca_ActivityID = 100123,
       sca_GoodsID = ''9890001'', sca_CreateTime = 0, sca_UpdateTime = 0\<rparr>],
     db_orders := db_orders ex_db1, db_lists := db_lists ex_db1\<rparr>\<rparr>"

definition ex_page_request :: GoodsMarketRequestDTO where
  "ex_page_request = \<lparr>gmq_UserID = ''bob'', gmq_Source = ''s01'', gmq_Channel = ''c01'', gmq_GoodsID = ''9890001''\<rparr>"

lemma ex_page:
  "\<exists>page t. app_QueryGroupBuyMarketConfig (index_app refDecimal refRepository ex_market_env) 1000 (Some ex_page_request)
     ex_open_market = (Inr (Success page), ex_open_market) \<and> gms_TeamList page = [t]"
proof -
  have "\<exists>trial g. trial_Apply (market_chain refDecimal refRepository ex_market_env) (me_load ex_market_env)
     (ToMarketProduct ex_page_request) ex_open_market = (Inr trial, ex_open_market) \<and>
     tb_GroupBuyActivityDiscountVO trial = Some g \<and> gv_ActivityID g = 100123"
    by (simp add: IsCutRange_def trial_Apply_def rootNode_def switchNode_def marketNode_def multiThreadLoad_def loadActivity_def
      tagNode_def endNode_def trial_chain_of_def NewActivityRepository_def on_db_def
      arepo_QueryGroupBuyActivityDiscountVO_def arepo_QuerySkuByGoodsID_def arepo_QuerySCSkuActivityBySCGoodsID_def
      ex_market_env_def ex_market_def ex_open_market_def
      ex_page_request_def ToMarketProduct_def activity_vo_def discount_vo_def Registry_Get_def
      ZJCalculateService_def FilterAndCalculate_def go_bind_def IsDowngradeSwitch_def dcc_New_def
      empty_trial_context_def Let_def)
  then obtain trial g where trial: "trial_Apply (market_chain refDecimal refRepository ex_market_env)
     (me_load ex_market_env) (ToMarketProduct ex_page_request) ex_open_market = (Inr trial, ex_open_market)"
     "tb_GroupBuyActivityDiscountVO trial = Some g" "gv_ActivityID g = 100123" by blast
  let ?ar = "\<lparr>ar_db = refMySQL, ar_redis = refRedis\<rparr>"
  have "\<exists>u. index_QueryDetailList (NewActivityRepository ?ar (me_activity ex_market_env)) 100123 ''bob'' 1 2
      ex_open_market = (Inr [u], ex_open_market)"
    by (simp add: index_QueryDetailList_def NewActivityRepository_def on_db_def arepo_QueryDetailListByOwner_def
        arepo_QueryDetailListByRandom_def arepo_assembleOrderDetails_def ex_market_env_def ex_activity_env_def
        ex_open_market_def ex_market_def ex_defs go_bind_def Let_def order_details_def map_filter_def)
  then obtain u where teams: "index_QueryDetailList (NewActivityRepository ?ar (me_activity ex_market_env)) 100123 ''bob'' 1 2
      ex_open_market = (Inr [u], ex_open_market)" by blast
  have "\<exists>v. on_db (arepo_QueryTeamStatisticByActivityID ?ar 100123) ex_open_market = (Inr (Some v), ex_open_market)"
    by (simp add: on_db_def arepo_QueryTeamStatisticByActivityID_def dbCount_or_0_def dbSum_or_0_def
        ex_open_market_def ex_market_def ex_defs go_bind_def Let_def)
  then obtain v where "on_db (arepo_QueryTeamStatisticByActivityID ?ar 100123) ex_open_market = (Inr (Some v), ex_open_market)"
    by blast
  moreover have "market_request_ok ex_page_request" "gmq_UserID ex_page_request = ''bob''"
    by (simp_all add: market_request_ok_def ex_page_request_def)
  ultimately have "app_QueryGroupBuyMarketConfig (index_app refDecimal refRepository ex_market_env) 1000 (Some ex_page_request)
     ex_open_market = (Inr (Success (ToGoodsMarketResponse 1000 trial [u]
       (ts_AllTeamCount v) (ts_AllTeamCompleteCount v) (ts_AllTeamUserCount v))), ex_open_market)"
    using trial teams by (simp add: app_QueryGroupBuyMarketConfig_def or_respond_def)
  then show ?thesis by (auto simp: ToGoodsMarketResponse_def)
qed

lemma page_witness:
  "\<exists>page t. app_QueryGroupBuyMarketConfig (index_app refDecimal refRepository ex_market_env) 1000 (Some ex_page_request)
     ex_open_market = (Inr (Success page), ex_open_market) \<and> gms_TeamList page = [t] \<and>
     page_team (w_db ex_open_market) 1000 1000 (gms_ActivityID page) t"
proof -
  obtain page t where run: "app_QueryGroupBuyMarketConfig (index_app refDecimal refRepository ex_market_env) 1000
     (Some ex_page_request) ex_open_market = (Inr (Success page), ex_open_market)" "gms_TeamList page = [t]"
    using ex_page by blast
  have "\<not> no_success empty_market_response (Inr (Success page))"
    using run(2) by (auto simp: no_success_def Success_def FailR_def empty_market_response_def)
  with page_shows_joinable_teams [OF _ _ _ _ run(1)] mysql_ok_ref redis_ok_ref getbit_reads_ref
  have "\<exists>page'. Success page = Success page' \<and> (\<forall>t \<in> set (gms_TeamList page').
      page_team (w_db ex_open_market) (ae_now (me_activity ex_market_env)) 1000 (gms_ActivityID page') t)"
    by (auto simp add: ex_market_env_def ex_activity_env_def)
  then have "page_team (w_db ex_open_market) 1000 1000 (gms_ActivityID page) t"
    using run(2) by (auto simp: Success_def ex_market_env_def ex_activity_env_def)
  with run show ?thesis by blast
qed

end
