(* ===== verification/Tag.thy ===== *)
theory Tag
  imports Activity_Repository
begin

text \<open>
  The crowd tags (\<open>internal/domain/tag\<close>, \<open>internal/infrastructure/repository/tag_repository.go\<close>): the
  repository and the batch job that fills the crowd of a tag, which the trial asks for. The clock is read
  once for every user and once for the statistics.
\<close>

record CrowdTagsJobEntity =
  tj_TagType :: int
  tj_TagRule :: string
  tj_StatStartTime :: time
  tj_StatEndTime :: time

record 'w ITagRepository =
  QueryCrowdTagsJobEntity :: "string \<Rightarrow> string \<Rightarrow> ('w, CrowdTagsJobEntity option) go"
  AddCrowdTagsUserID :: "string \<Rightarrow> string \<Rightarrow> ('w, unit) go"
  UpdateCrowdTagsStatistics :: "string \<Rightarrow> int \<Rightarrow> ('w, unit) go"

section \<open>The repository\<close>

record TagRepository =
  tr_db :: mysql
  tr_redis :: redis

record tag_env =
  te_add :: "string \<Rightarrow> time"
  te_stat :: time

definition trepo_QueryCrowdTagsJobEntity ::
    "TagRepository \<Rightarrow> string \<Rightarrow> string \<Rightarrow> (db, CrowdTagsJobEntity option) go" where
  "trepo_QueryCrowdTagsJobEntity r tagID batchID =
     go_bind
       (dbFirst db_cjobs (my_cjobs (tr_db r))
          (\<lambda>j. sqlEq (tr_db r) (cj_TagID j) tagID \<and> sqlEq (tr_db r) (cj_BatchID j) batchID))
       (\<lambda>row. go_ret (map_option
          (\<lambda>j. \<lparr>tj_TagType = cj_TagType j, tj_TagRule = cj_TagRule j, tj_StatStartTime = cj_StatStartTime j,
                tj_StatEndTime = cj_StatEndTime j\<rparr>) row))"

definition crowd_detail :: "time \<Rightarrow> string \<Rightarrow> string \<Rightarrow> CrowdTagsDetail" where
  "crowd_detail now tagID userID =
     \<lparr>cd_ID = 0, cd_TagID = tagID, cd_UserID = userID, cd_CreateTime = now, cd_UpdateTime = now\<rparr>"

definition detail_of :: "mysql \<Rightarrow> string \<Rightarrow> string \<Rightarrow> CrowdTagsDetail \<Rightarrow> bool" where
  "detail_of M tagID userID c \<longleftrightarrow> sqlEq M (cd_TagID c) tagID \<and> sqlEq M (cd_UserID c) userID"

text \<open>\<open>FirstOrCreate\<close>: the first row under the condition, and the given one is written when there is none.\<close>

definition detail_first_or_create :: "TagRepository \<Rightarrow> time \<Rightarrow> string \<Rightarrow> string \<Rightarrow> (db, unit) go" where
  "detail_first_or_create r now tagID userID =
     go_bind (dbFirst db_cdetails (my_cdetails (tr_db r)) (detail_of (tr_db r) tagID userID))
       (\<lambda>row. case row of
          Some _ \<Rightarrow> go_ret ()
        | None \<Rightarrow> dbCreate db_cdetails (\<lambda>t d. d\<lparr>db_cdetails := t\<rparr>) (my_cdetails (tr_db r))
            (crowd_detail now tagID userID))"

definition trepo_AddCrowdTagsUserID :: "TagRepository \<Rightarrow> time \<Rightarrow> string \<Rightarrow> string \<Rightarrow> (world, unit) go" where
  "trepo_AddCrowdTagsUserID r now tagID userID =
     go_bind (on_db (detail_first_or_create r now tagID userID))
       (\<lambda>_. on_redis (AddTagCrowd (tr_redis r) tagID userID))"

definition add_statistics :: "time \<Rightarrow> int \<Rightarrow> CrowdTags \<Rightarrow> CrowdTags" where
  "add_statistics now n c = c\<lparr>ct_Statistics := ct_Statistics c + n, ct_UpdateTime := now\<rparr>"

definition trepo_UpdateCrowdTagsStatistics :: "TagRepository \<Rightarrow> time \<Rightarrow> string \<Rightarrow> int \<Rightarrow> (db, unit) go" where
  "trepo_UpdateCrowdTagsStatistics r now tagID n =
     go_bind
       (dbUpdates db_ctags (\<lambda>t d. d\<lparr>db_ctags := t\<rparr>) (my_ctags (tr_db r))
          (\<lambda>c. sqlEq (tr_db r) (ct_TagID c) tagID) (add_statistics now n))
       (\<lambda>_. go_ret ())"

definition NewTagRepository :: "TagRepository \<Rightarrow> tag_env \<Rightarrow> world ITagRepository" where
  "NewTagRepository r E =
     \<lparr>QueryCrowdTagsJobEntity = (\<lambda>t b. on_db (trepo_QueryCrowdTagsJobEntity r t b)),
      AddCrowdTagsUserID = (\<lambda>t u. trepo_AddCrowdTagsUserID r (te_add E u) t u),
      UpdateCrowdTagsStatistics = (\<lambda>t n. on_db (trepo_UpdateCrowdTagsStatistics r (te_stat E) t n))\<rparr>"

section \<open>The service\<close>

definition tag_users :: "string list" where
  "tag_users = [''xiaofuge'', ''liergou'', ''xfg01'', ''xfg02'', ''xfg03'', ''xfg04'', ''xfg05'', ''xfg06'',
     ''xfg07'', ''xfg08'', ''xfg09'']"

fun add_users :: "'w ITagRepository \<Rightarrow> string \<Rightarrow> string list \<Rightarrow> ('w, unit) go" where
  "add_users repo tagID [] = go_ret ()"
| "add_users repo tagID (uid # us) =
     go_bind (AddCrowdTagsUserID repo tagID uid) (\<lambda>_. add_users repo tagID us)"

definition ExecTagBatchJob :: "'w ITagRepository \<Rightarrow> string \<Rightarrow> string \<Rightarrow> ('w, unit) go" where
  "ExecTagBatchJob repo tagID batchID =
     go_bind (QueryCrowdTagsJobEntity repo tagID batchID)
       (\<lambda>job. case job of
          None \<Rightarrow> go_ret ()
        | Some _ \<Rightarrow>
            go_bind (add_users repo tagID tag_users)
              (\<lambda>_. UpdateCrowdTagsStatistics repo tagID (int (length tag_users))))"

section \<open>What the job leaves behind\<close>

lemma tag_ports:
  "QueryCrowdTagsJobEntity (NewTagRepository r E) t b = on_db (trepo_QueryCrowdTagsJobEntity r t b)"
  "AddCrowdTagsUserID (NewTagRepository r E) t u = trepo_AddCrowdTagsUserID r (te_add E u) t u"
  "UpdateCrowdTagsStatistics (NewTagRepository r E) t n = on_db (trepo_UpdateCrowdTagsStatistics r (te_stat E) t n)"
  by (simp_all add: NewTagRepository_def)

lemma mysql_ok_tags:
  assumes "mysql_ok M"
  shows "gorm_ok ct_ID (\<lambda>i. ct_ID_update (\<lambda>_. i)) (\<lambda>r x. sqlEq M (ct_TagID r) (ct_TagID x)) (my_ctags M)"
    and "gorm_ok cj_ID (\<lambda>i. cj_ID_update (\<lambda>_. i)) (\<lambda>r x. sqlEq M (cj_BatchID r) (cj_BatchID x)) (my_cjobs M)"
  using assms unfolding mysql_ok_def by blast+

lemma AddTagCrowd_Inr:
  assumes "AddTagCrowd R t u K = (Inr x, K')" and "redis_ok R" and "bits_of (K t) = Some B"
  shows "K' = K(t \<mapsto> VBits (insert (unat (IndexFromUserID u)) B))"
proof -
  from assms(1) obtain y where "redisDo R (rs_cmd R (SETBIT t (unat (IndexFromUserID u)))) K = (Inr y, K')"
    by (auto simp: AddTagCrowd_def elim!: go_bind_Inr_cases)
  then show ?thesis using assms(2)
    by (cases rule: redisDo_cases) (simp_all add: redis_SETBIT [where K = K and k = t, OF assms(2,3)])
qed

lemma detail_created:
  assumes run: "detail_first_or_create r now t u d = (Inr x, d')" and M: "mysql_ok (tr_db r)"
  obtains det where "d' = d\<lparr>db_cdetails := det\<rparr>" "set (db_cdetails d) \<subseteq> set det" "\<exists>c \<in> set det. detail_of (tr_db r) t u c"
    "(\<exists>c \<in> set (db_cdetails d). detail_of (tr_db r) t u c) \<longrightarrow> det = db_cdetails d"
proof -
  from run obtain row d1 where first: "dbFirst db_cdetails (my_cdetails (tr_db r)) (detail_of (tr_db r) t u) d = (Inr row, d1)"
    and rest: "(case row of Some _ \<Rightarrow> go_ret () | None \<Rightarrow> dbCreate db_cdetails (\<lambda>t d. d\<lparr>db_cdetails := t\<rparr>)
      (my_cdetails (tr_db r)) (crowd_detail now t u)) d1 = (Inr x, d')"
    unfolding detail_first_or_create_def by (elim go_bind_Inr_cases)
  note cd = mysql_okD(5) [OF M]
  from first cd have d1: "d1 = d" and row: "row = find (detail_of (tr_db r) t u) (db_cdetails d)"
    by (cases rule: dbFirst_cases; simp)+
  show ?thesis
  proof (cases row)
    case (Some c)
    with row have "find (detail_of (tr_db r) t u) (db_cdetails d) = Some c" by simp
    then have c: "c \<in> set (db_cdetails d)" "detail_of (tr_db r) t u c" by (auto simp: find_Some_iff)
    from rest Some d1 have "d' = d\<lparr>db_cdetails := db_cdetails d\<rparr>" by simp
    with c show ?thesis by (intro that) auto
  next
    case None
    with row have none: "\<not> (\<exists>c \<in> set (db_cdetails d). detail_of (tr_db r) t u c)" by (metis find_None_iff)
    from rest None have "dbCreate db_cdetails (\<lambda>t d. d\<lparr>db_cdetails := t\<rparr>) (my_cdetails (tr_db r)) (crowd_detail now t u) d1
      = (Inr x, d')" by simp
    then obtain i where "d' = d\<lparr>db_cdetails := db_cdetails d @ [(crowd_detail now t u)\<lparr>cd_ID := i\<rparr>]\<rparr>"
      using cd unfolding d1 by (cases rule: dbCreate_cases) simp_all
    with none show ?thesis
      by (intro that [of "db_cdetails d @ [(crowd_detail now t u)\<lparr>cd_ID := i\<rparr>]"])
        (auto simp: detail_of_def crowd_detail_def sqlEq_def)
  qed
qed

text \<open>Every user added is in the crowd, in the database and in the bit set, and nobody has left it.\<close>

definition crowd_grown :: "mysql \<Rightarrow> string \<Rightarrow> string list \<Rightarrow> nat set \<Rightarrow> world \<Rightarrow> world \<Rightarrow> bool" where
  "crowd_grown M t us B w w' \<longleftrightarrow>
     (\<exists>det B'. w_db w' = (w_db w)\<lparr>db_cdetails := det\<rparr> \<and> set (db_cdetails (w_db w)) \<subseteq> set det \<and>
        (\<forall>u \<in> set us. \<exists>c \<in> set det. detail_of M t u c) \<and>
        ((\<forall>u \<in> set us. \<exists>c \<in> set (db_cdetails (w_db w)). detail_of M t u c) \<longrightarrow> det = db_cdetails (w_db w)) \<and>
        (us \<noteq> [] \<longrightarrow> w_redis w' t = Some (VBits B')) \<and> bits_of (w_redis w' t) = Some B' \<and>
        B \<subseteq> B' \<and> (\<forall>u \<in> set us. unat (IndexFromUserID u) \<in> B'))"

lemma add_users_grow:
  assumes "add_users (NewTagRepository r E) t us w = (Inr x, w')" and M: "mysql_ok (tr_db r)" and R: "redis_ok (tr_redis r)"
    and "bits_of (w_redis w t) = Some B"
  shows "crowd_grown (tr_db r) t us B w w'"
  using assms(1,4)
proof (induction us arbitrary: w B)
  case Nil
  then show ?case by (auto simp: crowd_grown_def intro!: exI [of _ "db_cdetails (w_db w)"])
next
  case (Cons u us)
  from Cons.prems(1) obtain y w1 where one: "trepo_AddCrowdTagsUserID r (te_add E u) t u w = (Inr y, w1)"
    and rest: "add_users (NewTagRepository r E) t us w1 = (Inr x, w')"
    by (auto simp: NewTagRepository_def elim!: go_bind_Inr_cases)
  from one obtain z d1 K1 where db: "detail_first_or_create r (te_add E u) t u (w_db w) = (Inr z, d1)"
    and redis: "AddTagCrowd (tr_redis r) t u (w_redis w) = (Inr y, K1)"
    and w1: "w1 = w\<lparr>w_db := d1, w_redis := K1\<rparr>"
    unfolding trepo_AddCrowdTagsUserID_def
    by (auto elim!: go_bind_Inr_cases dest!: on_db_frame on_redis_frame)
  have K1: "K1 = (w_redis w)(t \<mapsto> VBits (insert (unat (IndexFromUserID u)) B))"
    by (rule AddTagCrowd_Inr [OF redis R Cons.prems(2)])
  then have bits: "bits_of (w_redis w1 t) = Some (insert (unat (IndexFromUserID u)) B)" by (simp add: w1)
  from db M obtain det1 where det1: "d1 = (w_db w)\<lparr>db_cdetails := det1\<rparr>" "set (db_cdetails (w_db w)) \<subseteq> set det1"
    "\<exists>c \<in> set det1. detail_of (tr_db r) t u c"
    "(\<exists>c \<in> set (db_cdetails (w_db w)). detail_of (tr_db r) t u c) \<longrightarrow> det1 = db_cdetails (w_db w)"
    by (rule detail_created)
  from Cons.IH [OF rest bits] obtain det B' where ih: "w_db w' = (w_db w1)\<lparr>db_cdetails := det\<rparr>"
    "set (db_cdetails (w_db w1)) \<subseteq> set det" "\<forall>u \<in> set us. \<exists>c \<in> set det. detail_of (tr_db r) t u c"
    "(\<forall>u \<in> set us. \<exists>c \<in> set (db_cdetails (w_db w1)). detail_of (tr_db r) t u c) \<longrightarrow> det = db_cdetails (w_db w1)"
    "us \<noteq> [] \<longrightarrow> w_redis w' t = Some (VBits B')" "bits_of (w_redis w' t) = Some B'"
    "insert (unat (IndexFromUserID u)) B \<subseteq> B'" "\<forall>u \<in> set us. unat (IndexFromUserID u) \<in> B'"
    unfolding crowd_grown_def by (elim exE conjE) (rule that, assumption+)
  have "w_redis w' t = Some (VBits B')"
  proof (cases "us = []")
    case True
    with rest have "w' = w1" by simp
    with bits ih(6) show ?thesis by (simp add: w1 K1)
  qed (use ih(5) in blast)
  moreover have "det = db_cdetails (w_db w)"
    if "\<forall>v \<in> set (u # us). \<exists>c \<in> set (db_cdetails (w_db w)). detail_of (tr_db r) t v c"
    using that det1(4) ih(4) by (simp add: w1 det1(1))
  moreover have "set det1 \<subseteq> set det" using ih(2) by (simp add: w1 det1(1))
  ultimately show ?case
    unfolding crowd_grown_def using ih(1,3,6-8) det1
    by (intro exI [of _ det] exI [of _ B']) (auto simp: w1)
qed

lemma job_outcome:
  assumes run: "ExecTagBatchJob (NewTagRepository r E) t b w = (Inr x, w')"
    and job: "j \<in> set (db_cjobs (w_db w))" "sqlEq (tr_db r) (cj_TagID j) t" "sqlEq (tr_db r) (cj_BatchID j) b"
    and M: "mysql_ok (tr_db r)" and R: "redis_ok (tr_redis r)" and bits: "bits_of (w_redis w t) = Some B"
  obtains w1 where "crowd_grown (tr_db r) t tag_users B w w1"
    "w' = w1\<lparr>w_db := (w_db w1)\<lparr>db_ctags := upd_where (\<lambda>c. sqlEq (tr_db r) (ct_TagID c) t)
       (add_statistics (te_stat E) 11) (db_ctags (w_db w))\<rparr>\<rparr>"
proof -
  let ?repo = "NewTagRepository r E"
  let ?J = "\<lambda>j. sqlEq (tr_db r) (cj_TagID j) t \<and> sqlEq (tr_db r) (cj_BatchID j) b"
  from run obtain row w0 where query: "on_db (trepo_QueryCrowdTagsJobEntity r t b) w = (Inr row, w0)"
    and rest: "(case row of None \<Rightarrow> go_ret () | Some _ \<Rightarrow> go_bind (add_users ?repo t tag_users)
      (\<lambda>_. on_db (trepo_UpdateCrowdTagsStatistics r (te_stat E) t (int (length tag_users))))) w0 = (Inr x, w')"
    unfolding ExecTagBatchJob_def tag_ports by (elim go_bind_Inr_cases)
  have "row \<noteq> None \<and> w0 = w"
  proof -
    from query obtain fr d0 where f: "dbFirst db_cjobs (my_cjobs (tr_db r)) ?J (w_db w) = (Inr fr, d0)"
      and r0: "row = map_option (\<lambda>j. \<lparr>tj_TagType = cj_TagType j, tj_TagRule = cj_TagRule j,
        tj_StatStartTime = cj_StatStartTime j, tj_StatEndTime = cj_StatEndTime j\<rparr>) fr" "w0 = w\<lparr>w_db := d0\<rparr>"
      by (auto simp: trepo_QueryCrowdTagsJobEntity_def elim!: go_bind_Inr_cases dest!: on_db_frame)
    from f have "d0 = w_db w \<and> fr = find ?J (db_cjobs (w_db w))"
      using mysql_ok_tags(2) [OF M] by (cases rule: dbFirst_cases) simp_all
    moreover have "find ?J (db_cjobs (w_db w)) \<noteq> None" using job by (auto simp: find_None_iff)
    ultimately show ?thesis using r0 by auto
  qed
  with rest obtain y w1 where add: "add_users ?repo t tag_users w = (Inr y, w1)"
    and stat: "on_db (trepo_UpdateCrowdTagsStatistics r (te_stat E) t (int (length tag_users))) w1 = (Inr x, w')"
    by (auto elim!: go_bind_Inr_cases)
  have grown: "crowd_grown (tr_db r) t tag_users B w w1" by (rule add_users_grow [OF add M R bits])
  then have tags: "db_ctags (w_db w1) = db_ctags (w_db w)" by (auto simp: crowd_grown_def)
  from stat obtain n d where upd: "dbUpdates db_ctags (\<lambda>t d. d\<lparr>db_ctags := t\<rparr>) (my_ctags (tr_db r))
      (\<lambda>c. sqlEq (tr_db r) (ct_TagID c) t) (add_statistics (te_stat E) 11) (w_db w1) = (Inr n, d)" "w' = w1\<lparr>w_db := d\<rparr>"
    by (auto simp: trepo_UpdateCrowdTagsStatistics_def tag_users_def
        elim!: go_bind_Inr_cases dest!: on_db_frame)
  from upd(1) have "d = (w_db w1)\<lparr>db_ctags := upd_where (\<lambda>c. sqlEq (tr_db r) (ct_TagID c) t)
      (add_statistics (te_stat E) 11) (db_ctags (w_db w1))\<rparr>"
    using mysql_ok_tags(1) [OF M] by (cases rule: dbUpdates_cases) simp_all
  with upd(2) tags grown show ?thesis by (intro that [of w1]) simp_all
qed


lemma detail_up:
  assumes "mysql_ok (tr_db r)" and "mysql_up (tr_db r)"
  obtains d' where "detail_first_or_create r now t u d = (Inr (), d')"
proof (cases "find (detail_of (tr_db r) t u) (db_cdetails d)")
  case (Some c)
  with dbFirst_up [OF mysql_okD(5) [OF assms(1)] mysql_upD(5) [OF assms(2)]]
  have "detail_first_or_create r now t u d = (Inr (), d)" by (simp add: detail_first_or_create_def go_bind_def)
  then show ?thesis by (rule that)
next
  case None
  then have "\<forall>c \<in> set (db_cdetails d). \<not> cdetail_clash (tr_db r) (crowd_detail now t u) c"
    by (auto simp: find_None_iff cdetail_clash_def crowd_detail_def detail_of_def sqlEq_def)
  then obtain i where "dbCreate db_cdetails (\<lambda>t d. d\<lparr>db_cdetails := t\<rparr>) (my_cdetails (tr_db r)) (crowd_detail now t u) d
      = (Inr (), d\<lparr>db_cdetails := db_cdetails d @ [(crowd_detail now t u)\<lparr>cd_ID := i\<rparr>]\<rparr>)"
    using dbCreate_up [where tab = db_cdetails, OF mysql_okD(5) [OF assms(1)] mysql_upD(5) [OF assms(2)]] by blast
  with None dbFirst_up [OF mysql_okD(5) [OF assms(1)] mysql_upD(5) [OF assms(2)]]
  show ?thesis by (intro that) (simp add: detail_first_or_create_def go_bind_def)
qed

lemma add_users_up:
  assumes "mysql_ok (tr_db r)" "mysql_up (tr_db r)" "redis_ok (tr_redis r)" "redis_up (tr_redis r)"
    and "bits_of (w_redis w t) = Some B"
  shows "\<exists>w'. add_users (NewTagRepository r E) t us w = (Inr (), w')"
  using assms(5)
proof (induction us arbitrary: w B)
  case (Cons u us)
  obtain d' where d': "detail_first_or_create r (te_add E u) t u (w_db w) = (Inr (), d')"
    using assms(1,2) by (rule detail_up)
  let ?w = "w\<lparr>w_db := d', w_redis := (w_redis w)(t \<mapsto> VBits (insert (unat (IndexFromUserID u)) B))\<rparr>"
  have "trepo_AddCrowdTagsUserID r (te_add E u) t u w = (Inr (), ?w)"
    using d' AddTagCrowd_up [where K = "w_redis w" and t = t, OF assms(3,4) Cons.prems] by (simp add: trepo_AddCrowdTagsUserID_def go_bind_def on_db_def on_redis_def)
  moreover obtain w' where "add_users (NewTagRepository r E) t us ?w = (Inr (), w')"
    using Cons.IH [of ?w] by auto
  ultimately show ?case by (simp add: tag_ports go_bind_def)
qed simp

lemma job_up:
  assumes up: "mysql_ok (tr_db r)" "mysql_up (tr_db r)" "redis_ok (tr_redis r)" "redis_up (tr_redis r)"
    and bits: "bits_of (w_redis w t) = Some B"
  shows "\<exists>w'. ExecTagBatchJob (NewTagRepository r E) t b w = (Inr (), w')"
proof -
  have ups: "gorm_up (\<lambda>r' x. sqlEq (tr_db r) (ct_TagID r') (ct_TagID x)) (my_ctags (tr_db r))"
    "gorm_up (\<lambda>r' x. sqlEq (tr_db r) (cj_BatchID r') (cj_BatchID x)) (my_cjobs (tr_db r))"
    using up(2) unfolding mysql_up_def by blast+
  obtain row where query: "on_db (trepo_QueryCrowdTagsJobEntity r t b) w = (Inr row, w)"
    using dbFirst_up [OF mysql_ok_tags(2) [OF up(1)] ups(2)]
    by (simp add: on_db_def trepo_QueryCrowdTagsJobEntity_def go_bind_def)
  obtain w1 where "add_users (NewTagRepository r E) t tag_users w = (Inr (), w1)"
    using add_users_up [OF up bits] by blast
  moreover obtain w2 where "on_db (trepo_UpdateCrowdTagsStatistics r (te_stat E) t (int (length tag_users))) w1 = (Inr (), w2)"
    using dbUpdates_up [OF mysql_ok_tags(1) [OF up(1)] ups(1)]
    by (simp add: on_db_def trepo_UpdateCrowdTagsStatistics_def go_bind_def)
  ultimately show ?thesis
    using query by (cases row) (simp_all add: ExecTagBatchJob_def tag_ports go_bind_def)
qed

lemma bitset_answer:
  assumes "IsTagCrowdRange R t u K = (Inr ok, K')" and R: "redis_ok R" and K: "K t = Some (VBits B)"
  shows "ok = (unat (IndexFromUserID u) \<in> B) \<and> K' = K"
proof -
  have "bits_of (K t) = Some B" using K by simp
  note getbit = redis_GETBIT [where K = K and k = t, OF R this]
  from assms(1) obtain ex K1 where ex: "redisDo R (rs_cmd R (EXISTS t)) K = (Inr ex, K1)"
    and rest: "(if reply_int ex = 0 then go_ret True
      else go_bind (redisDo R (rs_cmd R (GETBIT t (unat (IndexFromUserID u)))))
        (\<lambda>bit. go_ret (reply_int bit = 1))) K1 = (Inr ok, K')"
    unfolding IsTagCrowdRange_def by (elim go_bind_Inr_cases)
  from ex R have "ex = RInt 1 \<and> K1 = K"
    by (cases rule: redisDo_cases) (simp_all add: redis_EXISTS [OF R] K)
  with rest obtain bit where bit: "redisDo R (rs_cmd R (GETBIT t (unat (IndexFromUserID u)))) K = (Inr bit, K')"
    and ok: "ok = (reply_int bit = 1)"
    by (auto elim!: go_bind_Inr_cases)
  from bit R show ?thesis unfolding ok by (cases rule: redisDo_cases) (simp_all add: getbit)
qed

section \<open>Properties\<close>

text \<open>
  C34. After a run of the job of an existing batch that reports no error, every user it adds, and
  every user whose bit was set before, is in the crowd of the tag whenever the trial asks for it and
  gets an answer.
\<close>

theorem tagged_users_are_in_crowd:
  assumes M: "mysql_ok (tr_db r)" and R: "redis_ok (tr_redis r)" and bits: "bits_of (w_redis w t) = Some B"
    and job: "j \<in> set (db_cjobs (w_db w))" "sqlEq (tr_db r) (cj_TagID j) t" "sqlEq (tr_db r) (cj_BatchID j) b"
    and run: "ExecTagBatchJob (NewTagRepository r E) t b w = (Inr (), w')"
    and u: "u \<in> set tag_users \<or> unat (IndexFromUserID u) \<in> B"
    and ask: "arepo_IsTagCrowdRange \<lparr>ar_db = tr_db r, ar_redis = tr_redis r\<rparr> t u w' = (Inr ok, w'')"
  shows ok
proof -
  obtain w1 where w1: "crowd_grown (tr_db r) t tag_users B w w1" "w_redis w' = w_redis w1"
    using run job M R bits by (rule job_outcome) simp
  then obtain B' where B': "w_redis w' t = Some (VBits B')" "unat (IndexFromUserID u) \<in> B'"
    using u by (auto simp: crowd_grown_def tag_users_def)
  from ask obtain ok1 w2 ex w3 where one: "on_redis (IsTagCrowdRange (tr_redis r) t u) w' = (Inr ok1, w2)"
    and two: "on_redis (redisDo (tr_redis r) (rs_cmd (tr_redis r) (EXISTS t))) w2 = (Inr ex, w3)"
    and rest: "(if reply_int ex > 0 then go_ret ok1
      else on_db (crowd_detail_query \<lparr>ar_db = tr_db r, ar_redis = tr_redis r\<rparr> t u)) w3 = (Inr ok, w'')"
    by (auto simp: arepo_IsTagCrowdRange_def elim!: go_bind_Inr_cases)
  from one obtain K where "IsTagCrowdRange (tr_redis r) t u (w_redis w') = (Inr ok1, K)" "w2 = w'\<lparr>w_redis := K\<rparr>"
    by (auto dest: on_redis_frame)
  with bitset_answer [where K = "w_redis w'" and t = t, OF _ R B'(1)] B'(2) have ok1: ok1 "w_redis w2 = w_redis w'" by auto
  from two obtain K where "redisDo (tr_redis r) (rs_cmd (tr_redis r) (EXISTS t)) (w_redis w2) = (Inr ex, K)"
    by (auto dest: on_redis_frame)
  then have "ex = RInt 1"
    using R by (cases rule: redisDo_cases) (simp_all add: redis_EXISTS [OF R] ok1(2) B'(1))
  with rest ok1(1) show ok by simp
qed

text \<open>
  A second run of the batch job adds no user, but counts all eleven again: the statistics of the
  tag say how many users were added in all runs, not how many the crowd has.
\<close>

lemma rerun_counts_users_again:
  assumes M: "mysql_ok (tr_db r)" and R: "redis_ok (tr_redis r)" and bits: "bits_of (w_redis w t) = Some B"
    and job: "j \<in> set (db_cjobs (w_db w))" "sqlEq (tr_db r) (cj_TagID j) t" "sqlEq (tr_db r) (cj_BatchID j) b"
    and run1: "ExecTagBatchJob (NewTagRepository r E) t b w = (Inr (), w1)"
    and run2: "ExecTagBatchJob (NewTagRepository r E') t b w1 = (Inr (), w2)"
    and tag: "c \<in> set (db_ctags (w_db w))" "sqlEq (tr_db r) (ct_TagID c) t"
  shows "db_cdetails (w_db w2) = db_cdetails (w_db w1) \<and>
    (\<exists>c' \<in> set (db_ctags (w_db w2)). ct_ID c' = ct_ID c \<and> ct_Statistics c' = ct_Statistics c + 22)"
proof -
  let ?P = "\<lambda>c. sqlEq (tr_db r) (ct_TagID c) t"
  obtain v where v: "crowd_grown (tr_db r) t tag_users B w v"
    "w1 = v\<lparr>w_db := (w_db v)\<lparr>db_ctags := upd_where ?P (add_statistics (te_stat E) 11) (db_ctags (w_db w))\<rparr>\<rparr>"
    using run1 job M R bits by (rule job_outcome)
  from v(1) obtain det B' where det: "w_db v = (w_db w)\<lparr>db_cdetails := det\<rparr>" "bits_of (w_redis v t) = Some B'"
    "\<forall>u \<in> set tag_users. \<exists>c \<in> set det. detail_of (tr_db r) t u c"
    by (auto simp: crowd_grown_def)
  have w1: "j \<in> set (db_cjobs (w_db w1))" "bits_of (w_redis w1 t) = Some B'" "db_cdetails (w_db w1) = det"
    using job(1) det by (simp_all add: v(2))
  obtain v' where v': "crowd_grown (tr_db r) t tag_users B' w1 v'"
    "w2 = v'\<lparr>w_db := (w_db v')\<lparr>db_ctags := upd_where ?P (add_statistics (te_stat E') 11) (db_ctags (w_db w1))\<rparr>\<rparr>"
    using run2 w1(1) job(2,3) M R w1(2) by (rule job_outcome)
  from v'(1) have "db_cdetails (w_db v') = db_cdetails (w_db w1)"
    using det(3) w1(3) by (auto simp: crowd_grown_def)
  moreover have "add_statistics (te_stat E') 11 (add_statistics (te_stat E) 11 c) \<in> set (db_ctags (w_db w2))"
    using tag by (force simp: v'(2) v(2) upd_where_def add_statistics_def)
  ultimately show ?thesis
    by (intro conjI bexI [of _ "add_statistics (te_stat E') 11 (add_statistics (te_stat E) 11 c)"])
      (simp_all add: v'(2) add_statistics_def)
qed

definition ex_tag_market :: world where
  "ex_tag_market = ex_market\<lparr>w_db := (w_db ex_market)\<lparr>
     db_ctags := [\<lparr>ct_ID = 1, ct_TagID = ''RQ_1'', ct_TagName = ''n'', ct_TagDesc = ''d'', ct_Statistics = 0,
       ct_CreateTime = 0, ct_UpdateTime = 0\<rparr>],
     db_cjobs := [\<lparr>cj_ID = 1, cj_TagID = ''RQ_1'', cj_BatchID = ''10001'', cj_TagType = 0, cj_TagRule = ''100'',
       cj_StatStartTime = 0, cj_StatEndTime = 0, cj_Status = 0, cj_CreateTime = 0, cj_UpdateTime = 0\<rparr>]\<rparr>\<rparr>"

definition refTags :: TagRepository where
  "refTags = \<lparr>tr_db = refMySQL, tr_redis = refRedis\<rparr>"

definition ex_tag_env :: tag_env where
  "ex_tag_env = \<lparr>te_add = (\<lambda>_. 1000), te_stat = 1000\<rparr>"

lemma ex_tag_market_simps:
  "w_redis ex_tag_market = Map.empty" "length (db_cjobs (w_db ex_tag_market)) = 1"
  "cj_TagID (hd (db_cjobs (w_db ex_tag_market))) = ''RQ_1''" "cj_BatchID (hd (db_cjobs (w_db ex_tag_market))) = ''10001''"
  "hd (db_cjobs (w_db ex_tag_market)) \<in> set (db_cjobs (w_db ex_tag_market))"
  "hd (db_ctags (w_db ex_tag_market)) \<in> set (db_ctags (w_db ex_tag_market))"
  "ct_TagID (hd (db_ctags (w_db ex_tag_market))) = ''RQ_1''" "ct_Statistics (hd (db_ctags (w_db ex_tag_market))) = 0"
  by (simp_all add: ex_tag_market_def ex_market_def)

lemma refTags_up:
  "mysql_ok (tr_db refTags)" "mysql_up (tr_db refTags)" "redis_ok (tr_redis refTags)" "redis_up (tr_redis refTags)"
  by (simp_all add: refTags_def mysql_ok_ref mysql_up_ref redis_ok_ref redis_up_ref)

lemma ex_tag_run:
  obtains w' where "ExecTagBatchJob (NewTagRepository refTags ex_tag_env) ''RQ_1'' ''10001'' ex_tag_market = (Inr (), w')"
proof -
  have "bits_of (w_redis ex_tag_market ''RQ_1'') = Some {}" by (simp add: ex_tag_market_simps)
  with job_up [OF refTags_up] that show ?thesis by blast
qed

lemma tagged_users_witness:
  "\<exists>w'. ExecTagBatchJob (NewTagRepository refTags ex_tag_env) ''RQ_1'' ''10001'' ex_tag_market = (Inr (), w') \<and>
     arepo_IsTagCrowdRange refActivity ''RQ_1'' ''xfg01'' w' \<noteq> (Inr False, w')"
proof -
  obtain w' where run: "ExecTagBatchJob (NewTagRepository refTags ex_tag_env) ''RQ_1'' ''10001'' ex_tag_market = (Inr (), w')"
    by (rule ex_tag_run)
  have act: "\<lparr>ar_db = tr_db refTags, ar_redis = tr_redis refTags\<rparr> = refActivity"
    by (simp add: refTags_def refActivity_def)
  note crowd = tagged_users_are_in_crowd [OF refTags_up(1,3) _ ex_tag_market_simps(5) _ _ run, unfolded act]
  have "arepo_IsTagCrowdRange refActivity ''RQ_1'' ''xfg01'' w' \<noteq> (Inr False, w')"
    using crowd [of "{}" "''xfg01''" False w'] by (auto simp: ex_tag_market_simps tag_users_def sqlEq_def)
  with run show ?thesis by blast
qed

lemma rerun_witness:
  "\<exists>w1 w2. ExecTagBatchJob (NewTagRepository refTags ex_tag_env) ''RQ_1'' ''10001'' ex_tag_market = (Inr (), w1) \<and>
     ExecTagBatchJob (NewTagRepository refTags ex_tag_env) ''RQ_1'' ''10001'' w1 = (Inr (), w2) \<and>
     (\<exists>c \<in> set (db_ctags (w_db w2)). ct_Statistics c = 22)"
proof -
  obtain w1 where run1: "ExecTagBatchJob (NewTagRepository refTags ex_tag_env) ''RQ_1'' ''10001'' ex_tag_market = (Inr (), w1)"
    by (rule ex_tag_run)
  have job: "sqlEq (tr_db refTags) (cj_TagID (hd (db_cjobs (w_db ex_tag_market)))) ''RQ_1''"
    "sqlEq (tr_db refTags) (cj_BatchID (hd (db_cjobs (w_db ex_tag_market)))) ''10001''"
    "sqlEq (tr_db refTags) (ct_TagID (hd (db_ctags (w_db ex_tag_market)))) ''RQ_1''"
    "bits_of (w_redis ex_tag_market ''RQ_1'') = Some {}"
    by (simp_all add: ex_tag_market_simps sqlEq_def)
  obtain v where "crowd_grown (tr_db refTags) ''RQ_1'' tag_users {} ex_tag_market v" "w_redis w1 = w_redis v"
    using run1 ex_tag_market_simps(5) job(1,2) refTags_up(1,3) job(4) by (rule job_outcome) simp
  then obtain B where "bits_of (w_redis w1 ''RQ_1'') = Some B" by (auto simp: crowd_grown_def)
  then obtain w2 where run2: "ExecTagBatchJob (NewTagRepository refTags ex_tag_env) ''RQ_1'' ''10001'' w1 = (Inr (), w2)"
    using job_up [OF refTags_up] by blast
  from rerun_counts_users_again [OF refTags_up(1,3) job(4) ex_tag_market_simps(5) job(1,2) run1 run2
      ex_tag_market_simps(6) job(3)]
  have "\<exists>c \<in> set (db_ctags (w_db w2)). ct_Statistics c = 22" by (auto simp: ex_tag_market_simps)
  with run1 run2 show ?thesis by blast
qed

end
