(* ===== verification/Take_Limit.thy ===== *)
theory Take_Limit
  imports Lock_Service Order_Lifecycle
begin

text \<open>
  The limit on the orders of one user in one activity. The rule of the lock service compares the
  limit with a count it has read before the transaction; the transaction writes the business id
  \<open>activity_user_(count + 1)\<close>, and \<open>biz_id\<close> is a unique key. \<open>limited_step\<close> are the trade
  transactions in which every lock of the user passed the rule, on a count as stale as it may be.
\<close>

definition biz_id :: "int64 \<Rightarrow> string \<Rightarrow> int \<Rightarrow> string" where
  "biz_id a u n = showInt (sint a) @ ''_'' @ u @ ''_'' @ showInt n"

inductive limited_step :: "TradeRepository \<Rightarrow> int64 \<Rightarrow> string \<Rightarrow> int \<Rightarrow> db \<Rightarrow> db \<Rightarrow> bool"
  for r a u L where
  lock: "repo_LockMarketPayOrder r E agg d = (res, d') \<Longrightarrow>
     1 \<le> pa_TargetCount (agl_PayActivityEntity agg) \<Longrightarrow>
     (pa_ActivityID (agl_PayActivityEntity agg) = a \<and> ue_UserID (agl_UserEntity agg) = u \<longrightarrow>
        0 \<le> agl_UserTakeOrderCount agg \<and> agl_UserTakeOrderCount agg < L) \<Longrightarrow>
     limited_step r a u L d d'"
| other: "trade_step r d d' \<Longrightarrow> length (db_lists d') = length (db_lists d) \<Longrightarrow>
     limited_step r a u L d d'"

lemma limited_step_trade_step: "limited_step r a u L d d' \<Longrightarrow> trade_step r d d'"
  by (erule limited_step.cases) (auto intro: trade_step.lock)

definition limited :: "mysql \<Rightarrow> int64 \<Rightarrow> string \<Rightarrow> int \<Rightarrow> db \<Rightarrow> bool" where
  "limited M a u L d \<longleftrightarrow>
     distinct (map (\<lambda>l. my_ck M (l_BizID l)) (db_lists d)) \<and>
     (\<forall>l \<in> set (db_lists d). l_UserID l = u \<and> l_ActivityID l = a \<longrightarrow> l_BizID l \<in> biz_id a u ` {1..L})"

lemma limited_count:
  assumes "limited M a u L d"
  shows "int (cnt (\<lambda>l. l_UserID l = u \<and> l_ActivityID l = a) (db_lists d)) \<le> max 0 L"
proof -
  let ?xs = "filter (\<lambda>l. l_UserID l = u \<and> l_ActivityID l = a) (db_lists d)"
  have "distinct (map (my_ck M) (map l_BizID ?xs))"
    using assms by (simp add: limited_def comp_def distinct_map_filter)
  then have "distinct (map l_BizID ?xs)"
    using inj_on_imageI2 [of "my_ck M" l_BizID] by (auto simp: distinct_map)
  then have "length ?xs = card (set (map l_BizID ?xs))"
    using distinct_card [of "map l_BizID ?xs"] by simp
  also have "\<dots> \<le> card (biz_id a u ` {1..L})"
    using assms by (intro card_mono) (auto simp: limited_def)
  also have "\<dots> \<le> card {1..L}" by (rule card_image_le) simp
  finally show ?thesis by (simp add: cnt_def)
qed

lemma lists_adv_limited:
  assumes "lists_adv d d'" and "length (db_lists d') = length (db_lists d)" and "limited M a u L d"
  shows "limited M a u L d'"
proof -
  from assms(1) obtain ls new where ls: "db_lists d' = ls @ new" "list_all2 order_adv (db_lists d) ls"
    unfolding rows_adv_def by blast
  from list_all2_lengthD [OF ls(2)] ls(1) assms(2) have d': "db_lists d' = ls" by simp
  have keys: "map l_BizID ls = map l_BizID xs \<and> map (\<lambda>l. (l_UserID l, l_ActivityID l, l_BizID l)) ls =
      map (\<lambda>l. (l_UserID l, l_ActivityID l, l_BizID l)) xs" if "list_all2 order_adv xs ls" for xs
    using that by (induction rule: list_all2_induct) (auto simp: order_adv_def)
  have biz: "map l_BizID ls = map l_BizID (db_lists d)" using keys [OF ls(2)] by blast
  have "set (map (\<lambda>l. (l_UserID l, l_ActivityID l, l_BizID l)) ls) =
      set (map (\<lambda>l. (l_UserID l, l_ActivityID l, l_BizID l)) (db_lists d))"
    using keys [OF ls(2)] by (intro arg_cong [where f = set]) blast
  then have rows: "\<exists>x \<in> set (db_lists d). l_UserID l = l_UserID x \<and> l_ActivityID l = l_ActivityID x \<and>
      l_BizID l = l_BizID x" if "l \<in> set ls" for l
    using that by (fastforce simp: image_iff set_eq_iff)
  have "map (my_ck M) (map l_BizID ls) = map (my_ck M) (map l_BizID (db_lists d))" by (simp only: biz)
  then have "map (\<lambda>l. my_ck M (l_BizID l)) ls = map (\<lambda>l. my_ck M (l_BizID l)) (db_lists d)"
    by (simp add: comp_def)
  with rows assms(3) show ?thesis unfolding limited_def d' by fastforce
qed

lemma limited_step_limited:
  assumes step: "limited_step r a u L d d'" and inv: "teams_ok (rp_db r) d" and M: "mysql_ok (rp_db r)"
    and lim: "limited (rp_db r) a u L d"
  shows "limited (rp_db r) a u L d'"
  using step
proof cases
  case (lock E agg res)
  show ?thesis
  proof (cases res)
    case (Inl e)
    with lock(1) rp_ok(4) [OF M] have "d' = d"
      unfolding repo_LockMarketPayOrder_def by (auto elim: txn_cases)
    with lim show ?thesis by simp
  next
    case (Inr order)
    from lock_row [OF lock(1) [unfolded Inr] M] obtain l where
      l: "db_lists d' = db_lists d @ [l]" "l_UserID l = ue_UserID (agl_UserEntity agg)"
        "l_ActivityID l = pa_ActivityID (agl_PayActivityEntity agg)" "l_BizID l = lock_bizID agg"
        "\<forall>x \<in> set (db_lists d). \<not> list_clash (rp_db r) l x"
      by blast
    have biz: "l_BizID l \<in> biz_id a u ` {1..L}" if "l_UserID l = u" "l_ActivityID l = a"
    proof -
      have "l_BizID l = biz_id a u (agl_UserTakeOrderCount agg + 1)"
        using l(2-4) that by (simp add: lock_bizID_def biz_id_def)
      moreover have "agl_UserTakeOrderCount agg + 1 \<in> {1..L}" using lock(3) l(2,3) that by auto
      ultimately show ?thesis by (rule image_eqI)
    qed
    have "my_ck (rp_db r) (l_BizID l) \<notin> (\<lambda>l. my_ck (rp_db r) (l_BizID l)) ` set (db_lists d)"
      using l(5) by (auto simp: list_clash_def sqlEq_def)
    with lim biz l(1) show ?thesis by (auto simp: limited_def)
  qed
next
  case other
  from trade_step_adv(1) [OF other(1) inv M] other(2) lim show ?thesis by (rule lists_adv_limited)
qed

lemma limited_steps_limited:
  assumes "(limited_step r a u L)\<^sup>*\<^sup>* d0 d" and "mysql_ok (rp_db r)"
    and "teams_ok (rp_db r) d0" and "limited (rp_db r) a u L d0"
  shows "teams_ok (rp_db r) d \<and> limited (rp_db r) a u L d"
  using assms(1)
proof (induction rule: rtranclp_induct)
  case (step y z)
  with limited_step_limited [OF step(2)] trade_step_teams_ok [OF limited_step_trade_step [OF step(2)]]
    assms(2) show ?case by blast
qed (use assms(3,4) in blast)

section \<open>The service takes limited steps\<close>

text \<open>A lock the service runs is a limited step for its user, with the limit of the activity row.\<close>

lemma service_lock_limited:
  assumes M: "mysql_ok (rp_db r)"
    and run: "lock_LockMarketPayOrder (NewTradeRepository r E) now user activity discount w = (Inr order, w')"
    and target: "1 \<le> pa_TargetCount activity"
    and L: "\<And>x. x \<in> set (db_activities (w_db w)) \<Longrightarrow> a_ActivityID x = pa_ActivityID activity \<Longrightarrow>
      0 < a_TakeLimitCount x \<and> a_TakeLimitCount x \<le> L"
  shows "limited_step r a (ue_UserID user) L (w_db w) (w_db w')"
proof -
  let ?req = "\<lparr>lc_UserID = ue_UserID user, lc_ActivityID = pa_ActivityID activity,
      lc_TeamID = pa_TeamID activity\<rparr>"
  from run [unfolded lock_service_tail] obtain bk w1 where
    rules: "NewTradeLockRuleFilter (NewTradeRepository r E) now ?req empty_lock_ctx w = (Inr bk, w1)"
    and tail: "(case bk of None \<Rightarrow> go_err (Panic ''nil pointer dereference'')
        | Some b \<Rightarrow> lock_tail (NewTradeRepository r E) \<lparr>agl_UserEntity = user,
            agl_PayActivityEntity = activity, agl_PayDiscountEntity = discount,
            agl_UserTakeOrderCount = lb_UserTakeOrderCount b\<rparr>
            (lb_RecoveryTeamStockKey b) (pa_ValidTime activity)) w1 = (Inr order, w')"
    by (rule go_bind_Inr_cases)
  from rules show ?thesis
  proof (cases rule: trade_repo.lock_rules_cases)
    case (passed act n)
    from passed(1) M obtain x where "x \<in> set (db_activities (w_db w))"
      "a_ActivityID x = pa_ActivityID activity" "ga_TakeLimitCount act = a_TakeLimitCount x"
      by (rule find_activity) simp
    with L passed(6) have "n < L" by fastforce
    moreover from passed(2) M have "0 \<le> n"
      by (auto simp: NewTradeRepository_def on_db_def repo_QueryOrderCountByActivityID_def
          split: prod.splits elim!: go_bind_Inr_cases)
    moreover from passed(7) obtain b where b: "bk = Some b" "lb_UserTakeOrderCount b = n"
        "w_db w1 = w_db w"
      by (auto simp: TeamStockOccupyRuleFilter_Apply_def Let_def NewTradeRepository_def on_redis_def
          elim!: go_bind_Inr_cases split: if_splits prod.splits)
    moreover from tail b(1) obtain agg d where "repo_LockMarketPayOrder r E agg (w_db w) = (Inr order, d)"
      "w_db w' = d" "agg = \<lparr>agl_UserEntity = user, agl_PayActivityEntity = activity,
            agl_PayDiscountEntity = discount, agl_UserTakeOrderCount = lb_UserTakeOrderCount b\<rparr>"
      using M b(3) by (auto elim: lock_tail_cases)
    ultimately show ?thesis using target by (auto intro!: limited_step.lock)
  qed simp
qed

section \<open>Properties\<close>

text \<open>
  C13. No user ever holds more orders in an activity than its limit, however many of the user's
  locks run at once on the same stale count: the unique business id lets one of them through.
\<close>

theorem take_limit_never_exceeded:
  assumes "(limited_step r a u L)\<^sup>*\<^sup>* d0 d" and "mysql_ok (rp_db r)"
    and "db_orders d0 = []" and "db_lists d0 = []"
  shows "int (cnt (\<lambda>l. l_UserID l = u \<and> l_ActivityID l = a) (db_lists d)) \<le> max 0 L"
proof (rule limited_count)
  have "teams_ok (rp_db r) d0" "limited (rp_db r) a u L d0"
    using assms(3,4) by (simp_all add: teams_ok_def limited_def)
  from limited_steps_limited [OF assms(1,2) this] show "limited (rp_db r) a u L d" by blast
qed

lemma take_limit_witness:
  "int (cnt (\<lambda>l. l_UserID l = ''ann'' \<and> l_ActivityID l = 100123) (db_lists ex_db2)) \<le> 1"
proof -
  have "limited_step refRepository 100123 ''ann'' 1 ex_db ex_db1"
    by (rule limited_step.lock [OF ex_lock_ann]) (simp_all add: ex_lock_def)
  moreover have "limited_step refRepository 100123 ''ann'' 1 ex_db1 ex_db2"
    by (rule limited_step.lock [OF ex_lock_bob]) (simp_all add: ex_lock_def)
  ultimately have "(limited_step refRepository 100123 ''ann'' 1)\<^sup>*\<^sup>* ex_db ex_db2"
    by (meson converse_rtranclp_into_rtranclp r_into_rtranclp)
  from take_limit_never_exceeded [OF this] mysql_ok_ref show ?thesis by (simp add: ex_db_def)
qed

end
