(* ===== verification/Market_System.thy ===== *)
theory Market_System
  imports Market_Page Tag Take_Limit
begin

text \<open>
  The whole server over one database and one Redis: whatever it serves, in any order, is a step of
  \<open>serves\<close> -- the requests of \<open>internal/application\<close>, the scheduled jobs, the callbacks handed to the
  background, the messages of the broker, the tag job -- and so is what happens around it: settings that
  change, keys that expire, an operator who edits activities. Every step of the server is one of trade
  transactions of \<open>Team_Steps\<close>, or leaves orders and teams alone; hence the invariants of the
  transactions are invariants of the server.

  Two things a step asks for. A lock request uses a trade number of which the user has no order that is
  paid or closed (with one that has, \<open>Settlement_Service\<close> shows the count of the wrong team raised), and
  an activity asks for at least one member. The last section follows one order through such a run: a
  request that is repeated finds it.
\<close>

section \<open>Steps of the server\<close>

definition own_number :: "mysql \<Rightarrow> db \<Rightarrow> LockMarketPayOrderRequestDTO \<Rightarrow> bool" where
  "own_number M d req \<longleftrightarrow>
     (\<forall>l \<in> set (db_lists d). trade_no_of M (lrq_UserID req) (lrq_OutTradeNo req) l \<longrightarrow>
        l_Status l = TradeOrderCreate)"

definition targets_ok :: "db \<Rightarrow> bool" where
  "targets_ok d \<longleftrightarrow> (\<forall>a \<in> set (db_activities d). 1 \<le> a_Target a)"

definition same_trade :: "db \<Rightarrow> db \<Rightarrow> bool" where
  "same_trade d d' \<longleftrightarrow> db_orders d' = db_orders d \<and> db_lists d' = db_lists d"

inductive serves :: "decimal_ops \<Rightarrow> TradeRepository \<Rightarrow> world \<Rightarrow> world \<Rightarrow> bool" for D r where
  lock: "app_LockMarketPayOrder (trade_app D r e) req w = (lres, w') \<Longrightarrow>
     targets_ok (w_db w) \<Longrightarrow> (\<forall>x. req = Some x \<longrightarrow> own_number (rp_db r) (w_db w) x) \<Longrightarrow> serves D r w w'"
| settlement: "app_SettlementMarketPayOrder (trade_app D r e) sreq w = (sres, w') \<Longrightarrow> serves D r w w'"
| refund: "app_RefundMarketPayOrder (trade_app D r e) rreq w = (rres, w') \<Longrightarrow> serves D r w w'"
| page: "app_QueryGroupBuyMarketConfig (index_app D r e) now preq w = (pres, w') \<Longrightarrow> serves D r w w'"
| callback: "ExecNotifyJob (NewTradeRepository r E) (NewTradeNotifyACL (rp_redis r) http publish L) (Some t) w =
     (cres, w') \<Longrightarrow> (\<And>t. lock_env_ok (L t)) \<Longrightarrow> serves D r w w'"
| notify_job: "NotifyJob_exec (rp_redis r) L0 (NewTradeRepository r E)
     (NewTradeNotifyACL (rp_redis r) http publish L) w = Some (lab, w') \<Longrightarrow>
     (\<And>t. lock_env_ok (L t)) \<Longrightarrow> serves D r w w'"
| timeout_job: "TimeoutRefundJob_exec (rp_redis r) L0 (refund_svc r E) w = Some (lab, w') \<Longrightarrow> serves D r w w'"
| message: "consume_one (team_refund_handler (all_strategies (NewTradeRepository r E) spawn)) body w = (ack, w') \<Longrightarrow>
     serves D r w w'"
| tag_job: "ExecTagBatchJob (NewTagRepository \<lparr>tr_db = rp_db r, tr_redis = rp_redis r\<rparr> te) tag batch w =
     (tres, w') \<Longrightarrow> serves D r w w'"
| around: "same_trade (w_db w) (w_db w') \<Longrightarrow> serves D r w w'"

section \<open>What leaves orders and teams alone\<close>

lemma same_trade_refl [simp]: "same_trade d d"
  by (simp add: same_trade_def)

lemma same_trade_trans: "same_trade d1 d2 \<Longrightarrow> same_trade d2 d3 \<Longrightarrow> same_trade d1 d3"
  by (simp add: same_trade_def)

lemma same_trade_teams_ok: "same_trade d d' \<Longrightarrow> teams_ok M d' = teams_ok M d"
  by (simp add: same_trade_def teams_ok_def team_ok_def open_count_def paid_count_def)

definition leaves_trade :: "(world, 'a) go \<Rightarrow> bool" where
  "leaves_trade m \<longleftrightarrow> (\<forall>w. same_trade (w_db w) (w_db (snd (m w))))"

lemma leaves_tradeD: "leaves_trade m \<Longrightarrow> m w = (q, w') \<Longrightarrow> same_trade (w_db w) (w_db w')"
  unfolding leaves_trade_def by (metis snd_conv)

named_theorems leaves

lemma leaves_ret [leaves]: "leaves_trade (go_ret x)"
  by (simp add: leaves_trade_def)

lemma leaves_bind [leaves]:
  assumes "leaves_trade m" and "\<And>x. leaves_trade (k x)"
  shows "leaves_trade (go_bind m k)"
  unfolding leaves_trade_def
proof
  fix w
  obtain q w' where run: "go_bind m k w = (q, w')" by force
  then have "same_trade (w_db w) (w_db w')"
    by (cases rule: go_bind_cases)
      (auto dest!: leaves_tradeD [OF assms(1)] leaves_tradeD [OF assms(2)] intro: same_trade_trans)
  with run show "same_trade (w_db w) (w_db (snd (go_bind m k w)))" by simp
qed

lemma leaves_redis [leaves]: "leaves_trade (on_redis f)"
  by (auto simp: leaves_trade_def on_redis_def split: prod.splits)

lemma leaves_reads: "reads m \<Longrightarrow> leaves_trade m"
  by (simp add: leaves_trade_def reads_def)

lemma leaves_on_db [leaves]: "(\<And>d. same_trade d (snd (f d))) \<Longrightarrow> leaves_trade (on_db f)"
  by (auto simp: leaves_trade_def on_db_def split: prod.splits) (metis snd_conv)

subsection \<open>The tag job\<close>

lemma tag_repository_leaves:
  assumes M: "mysql_ok (tr_db tr)"
  shows "leaves_trade (QueryCrowdTagsJobEntity (NewTagRepository tr te) t b)"
    and "leaves_trade (AddCrowdTagsUserID (NewTagRepository tr te) t u)"
    and "leaves_trade (UpdateCrowdTagsStatistics (NewTagRepository tr te) t n)"
proof -
  note detail_ok = mysql_okD(5) [OF M]
  have "same_trade d (snd (trepo_QueryCrowdTagsJobEntity tr t b d))" for d
    using mysql_ok_tags(2) [OF M] unfolding trepo_QueryCrowdTagsJobEntity_def
    by (auto simp: go_bind_def split: prod.splits sum.splits elim!: dbFirst_cases)
  then show "leaves_trade (QueryCrowdTagsJobEntity (NewTagRepository tr te) t b)"
    unfolding tag_ports by (rule leaves_on_db)
  have "same_trade d (snd (detail_first_or_create tr now t u d))" for now d
  proof -
    obtain q d' where run: "detail_first_or_create tr now t u d = (q, d')" by force
    then have "same_trade d d'" unfolding detail_first_or_create_def
    proof (cases rule: go_bind_cases)
      case (fails e)
      from fails(1) detail_ok show ?thesis by (cases rule: dbFirst_cases) simp_all
    next
      case (goes_on row d1)
      from goes_on(1) detail_ok have "d1 = d" by (cases rule: dbFirst_cases) simp_all
      with goes_on(2) detail_ok show ?thesis
        by (cases row) (auto simp: same_trade_def elim: dbCreate_cases)
    qed
    with run show ?thesis by simp
  qed
  then show "leaves_trade (AddCrowdTagsUserID (NewTagRepository tr te) t u)"
    unfolding tag_ports trepo_AddCrowdTagsUserID_def by (intro leaves) blast
  have "same_trade d (snd (trepo_UpdateCrowdTagsStatistics tr now t n d))" for now d
    using mysql_ok_tags(1) [OF M] unfolding trepo_UpdateCrowdTagsStatistics_def
    by (auto simp: go_bind_def same_trade_def split: prod.splits sum.splits elim!: dbUpdates_cases)
  then show "leaves_trade (UpdateCrowdTagsStatistics (NewTagRepository tr te) t n)"
    unfolding tag_ports by (rule leaves_on_db)
qed

lemma tag_job_leaves:
  assumes "mysql_ok (tr_db tr)"
  shows "leaves_trade (ExecTagBatchJob (NewTagRepository tr te) tag batch)"
proof -
  have "leaves_trade (add_users (NewTagRepository tr te) tag us)" for us
    by (induction us) (simp_all only: add_users.simps leaves tag_repository_leaves [OF assms])
  then show ?thesis
    unfolding ExecTagBatchJob_def
    by (auto intro!: leaves tag_repository_leaves [OF assms] split: option.splits)
qed

subsection \<open>Callbacks\<close>

lemma callback_leaves:
  assumes M: "mysql_ok (rp_db r)" and L: "\<And>t. lock_env_ok (L t)"
  shows "leaves_trade (exec_task (NewTradeRepository r E) (NewTradeNotifyACL R http publish L) t c)"
  unfolding leaves_trade_def
proof
  fix w
  obtain a w1 where port: "PortGroupBuyNotify (NewTradeNotifyACL R http publish L) t w = (a, w1)"
    and w1: "w_db w1 = w_db w"
    using callback_ok [OF L [of t], of R http publish t w] by (auto simp: NewTradeNotifyACL_def)
  have ans: "same_trade (w_db w) (w_db (snd (exec_answer (NewTradeRepository r E) t resp c w1)))" for resp
  proof -
    obtain q w2 where "exec_answer (NewTradeRepository r E) t resp c w1 = (q, w2)" by force
    moreover from M this have "same_trade (w_db w1) (w_db w2)"
      by (cases rule: exec_answer_rows) (simp_all add: same_trade_def)
    ultimately show ?thesis using w1 by simp
  qed
  show "same_trade (w_db w) (w_db (snd (exec_task (NewTradeRepository r E)
      (NewTradeNotifyACL R http publish L) t c w)))"
    using port w1 ans by (auto simp: exec_task_def split: sum.splits go_error.splits)
qed

lemma notify_leaves:
  assumes "mysql_ok (rp_db r)" and "\<And>t. lock_env_ok (L t)"
  shows "leaves_trade (ExecNotifyJob (NewTradeRepository r E) (NewTradeNotifyACL R http publish L) t)"
proof -
  have "leaves_trade (exec_tasks (NewTradeRepository r E) (NewTradeNotifyACL R http publish L) ts c)" for ts c
    by (induction ts arbitrary: c) (simp_all only: exec_tasks.simps leaves callback_leaves assms)
  moreover have "leaves_trade (QueryUnExecutedNotifyTaskList (NewTradeRepository r E))"
    by (intro leaves_reads port_reads)
  ultimately show ?thesis
    unfolding ExecNotifyJob_def execList_def
    by (auto simp del: exec_tasks.simps intro!: leaves split: option.splits)
qed

section \<open>Orders of one number are of one team\<close>

definition numbers_ok :: "mysql \<Rightarrow> db \<Rightarrow> bool" where
  "numbers_ok M d \<longleftrightarrow>
     (\<forall>l \<in> set (db_lists d). \<forall>l' \<in> set (db_lists d).
        sqlEq M (l_UserID l) (l_UserID l') \<and> sqlEq M (l_OutTradeNo l) (l_OutTradeNo l') \<longrightarrow>
        sqlEq M (l_TeamID l) (l_TeamID l'))"

lemma numbers_ok_upd:
  assumes "db_lists d' = upd_where P f (db_lists d)" and "numbers_ok M d"
    and "\<And>l. l_UserID (f l) = l_UserID l \<and> l_OutTradeNo (f l) = l_OutTradeNo l \<and> l_TeamID (f l) = l_TeamID l"
  shows "numbers_ok M d'"
proof -
  have "\<exists>l0 \<in> set (db_lists d). l_UserID l = l_UserID l0 \<and> l_OutTradeNo l = l_OutTradeNo l0 \<and> l_TeamID l = l_TeamID l0"
    if "l \<in> set (db_lists d')" for l
    using that assms(3) unfolding assms(1) by (auto simp: upd_where_def split: if_splits)
  note row = this
  show ?thesis
    unfolding numbers_ok_def
  proof (intro ballI impI)
    fix l l' assume "l \<in> set (db_lists d')" "l' \<in> set (db_lists d')"
      and eq: "sqlEq M (l_UserID l) (l_UserID l') \<and> sqlEq M (l_OutTradeNo l) (l_OutTradeNo l')"
    from row [OF this(1)] row [OF this(2)] obtain x x' where "x \<in> set (db_lists d)" "x' \<in> set (db_lists d)"
      "l_UserID l = l_UserID x" "l_OutTradeNo l = l_OutTradeNo x" "l_TeamID l = l_TeamID x"
      "l_UserID l' = l_UserID x'" "l_OutTradeNo l' = l_OutTradeNo x'" "l_TeamID l' = l_TeamID x'"
      by blast
    with eq assms(2) show "sqlEq M (l_TeamID l) (l_TeamID l')" by (simp add: numbers_ok_def)
  qed
qed

lemma numbers_ok_new:
  assumes "db_lists d' = db_lists d @ [l]" and "numbers_ok M d"
    and "find (trade_no_of M (l_UserID l) (l_OutTradeNo l)) (db_lists d) = None"
  shows "numbers_ok M d'"
proof -
  have "\<not> (sqlEq M (l_UserID x) (l_UserID l) \<and> sqlEq M (l_OutTradeNo x) (l_OutTradeNo l))" if "x \<in> set (db_lists d)" for x
    using assms(3) that by (auto simp: find_None_iff trade_no_of_def)
  note other = this
  have "\<not> (sqlEq M (l_UserID l) (l_UserID x) \<and> sqlEq M (l_OutTradeNo l) (l_OutTradeNo x))" if "x \<in> set (db_lists d)" for x
    using other [OF that] sqlEq_sym by blast
  with other show ?thesis
    using assms(2) unfolding numbers_ok_def assms(1) by (simp add: ball_Un) blast
qed

lemma numbers_ok_pay:
  assumes "numbers_ok M d" and "l \<in> set (db_lists d)" "sqlEq M (l_UserID l) u" "sqlEq M (l_OutTradeNo l) n"
    and "sqlEq M t (l_TeamID l)"
  shows "pay_in_team M d u n t"
proof (rule settle_pay_in_team [OF _ assms(2-5)], intro ballI impI)
  fix x y assume "x \<in> set (db_lists d)" "y \<in> set (db_lists d)"
    and eq: "sqlEq M (l_UserID x) u \<and> sqlEq M (l_OutTradeNo x) n \<and> sqlEq M (l_UserID y) u \<and> sqlEq M (l_OutTradeNo y) n"
  moreover from eq have "sqlEq M (l_UserID x) (l_UserID y) \<and> sqlEq M (l_OutTradeNo x) (l_OutTradeNo y)"
    by (simp add: sqlEq_def)
  ultimately show "sqlEq M (l_TeamID x) (l_TeamID y)" using assms(1) unfolding numbers_ok_def by blast
qed

section \<open>The server runs trade transactions\<close>

definition moves :: "TradeRepository \<Rightarrow> db \<Rightarrow> db \<Rightarrow> bool" where
  "moves r d d' \<longleftrightarrow> trade_step r d d' \<or> same_trade d d'"

definition market_ok :: "TradeRepository \<Rightarrow> db \<Rightarrow> bool" where
  "market_ok r d \<longleftrightarrow> teams_ok (rp_db r) d \<and> numbers_ok (rp_db r) d"

text \<open>What every step is shown to be.\<close>

definition steps_to :: "TradeRepository \<Rightarrow> db \<Rightarrow> db \<Rightarrow> bool" where
  "steps_to r d d' \<longleftrightarrow> (moves r)\<^sup>*\<^sup>* d d' \<and> (market_ok r d \<longrightarrow> market_ok r d')"

lemma steps_to_same: "same_trade d d' \<Longrightarrow> steps_to r d d'"
  using same_trade_teams_ok [of d d']
  by (auto simp: steps_to_def moves_def market_ok_def numbers_ok_def same_trade_def intro: r_into_rtranclp)

lemma steps_to_trans: "steps_to r d1 d2 \<Longrightarrow> steps_to r d2 d3 \<Longrightarrow> steps_to r d1 d3"
  unfolding steps_to_def by (meson rtranclp_trans)

lemma steps_to_move:
  assumes "market_ok r d" and "trade_step r d d'" and "mysql_ok (rp_db r)" and "numbers_ok (rp_db r) d'"
  shows "(moves r)\<^sup>*\<^sup>* d d' \<and> market_ok r d'"
  using assms trade_step_teams_ok by (auto simp: moves_def market_ok_def intro!: r_into_rtranclp)

lemma settlement_steps:
  assumes M: "mysql_ok (rp_db r)" and ok: "market_ok r (w_db w)"
    and run: "settle_SettlementMarketPayOrder (NewTradeRepository r E) (Some safego_Go) pay w = (q, w')"
  shows "(moves r)\<^sup>*\<^sup>* (w_db w) (w_db w') \<and> market_ok r (w_db w')"
  using M run
proof (cases rule: settle_service_cases)
  case refused
  with ok show ?thesis by simp
next
  case (settled l g y d res)
  let ?agg = "settle_agg pay (team_entity r g)"
  have db: "w_db w' = d" using settled(13) by (simp split: option.splits)
  from ok have numbers: "numbers_ok (rp_db r) (w_db w)" by (simp add: market_ok_def)
  have "pay_in_team (rp_db r) (w_db w) (ue_UserID (ags_UserEntity ?agg))
      (ps_OutTradeNo (ags_TradePaySuccessEntity ?agg)) (gt_TeamID (ags_GroupBuyTeamEntity ?agg))"
    using numbers_ok_pay [OF numbers settled(3-5,9)] by (simp add: settle_agg_def team_entity_def)
  with settled(12) have "trade_step r (w_db w) d" by (rule trade_step.settle)
  moreover have "db_lists d = upd_where (pay_hit (rp_db r) ?agg) (pay_set E ?agg) (db_lists (w_db w))"
    using settle_tx_Inr(3) [OF settlement_Inr [OF M settled(12)] M] M
    by (auto simp: settled_db_def split: if_splits elim: settle_complete_Inr)
  then have "numbers_ok (rp_db r) d" using numbers by (rule numbers_ok_upd) simp
  ultimately show ?thesis unfolding db using steps_to_move [OF ok _ M] by blast
qed

lemma refund_steps:
  assumes M: "mysql_ok (rp_db r)" and ok: "market_ok r (w_db w)"
    and run: "refund_RefundOrder (NewTradeRepository r E)
      (all_strategies (NewTradeRepository r E) (Some safego_Go)) cmd w = (q, w')"
  shows "(moves r)\<^sup>*\<^sup>* (w_db w) (w_db w') \<and> market_ok r (w_db w')"
  using M run
proof (cases rule: refund_service_cases)
  case (refunded l g rt x d b)
  have db: "w_db w' = d" using refunded(10) by (simp add: refunded_world_def split: option.splits)
  from ok have inv: "teams_ok (rp_db r) (w_db w)" "numbers_ok (rp_db r) (w_db w)" by (simp_all add: market_ok_def)
  note rows = refunded_rows [OF M inv(1) refunded(5,8,9)]
  have "trade_step r (w_db w) d" using rows(3) by simp
  moreover have "numbers_ok (rp_db r) d"
    by (rule numbers_ok_upd [OF rows(2) inv(2)]) simp_all
  ultimately show ?thesis unfolding db using steps_to_move [OF ok _ M] by blast
qed (use ok in simp_all)

text \<open>A lock request with a number of its own does nothing, or is one call of the lock service.\<close>

lemma app_lock_calls:
  assumes M: "mysql_ok (rp_db r)" and R: "redis_ok (rp_redis r)" "getbit_reads (rp_redis r)"
    and own: "own_number (rp_db r) (w_db w) req"
    and run: "app_LockMarketPayOrder (trade_app D r e) (Some req) w = (q, w')"
  obtains (idle) "w' = w"
  | (called) trial g sq where
      "find (trade_no_of (rp_db r) (lrq_UserID req) (lrq_OutTradeNo req)) (db_lists (w_db w)) = None"
      "trial_Apply (market_chain D r e) (me_load e) (ToMarketProductWithActivity req) w = (Inr trial, w)"
      "tb_GroupBuyActivityDiscountVO trial = Some g"
      "lock_LockMarketPayOrder (NewTradeRepository r (me_trade e)) (me_lock_now e) \<lparr>ue_UserID = lrq_UserID req\<rparr>
         (lock_activity (NormalizeLockNotify req) g) (lock_discount (NormalizeLockNotify req) trial) w = (sq, w')"
proof (cases "lock_request_ok (NormalizeLockNotify req)")
  case False
  with run idle show ?thesis by (simp add: app_LockMarketPayOrder_def)
next
  case True
  let ?row = "find (trade_no_of (rp_db r) (lrq_UserID req) (lrq_OutTradeNo req)) (db_lists (w_db w))"
  from run True M refl show ?thesis
  proof (cases rule: app_lock_lookup)
    case none
    from none(1) own have none_row: "?row = None"
      by (cases ?row) (auto simp: own_number_def find_Some_iff)
    from none(2) show ?thesis
    proof
      assume "app_trial_and_lock (trade_app D r e) (NormalizeLockNotify req) w = (q, w')"
      from this R show ?thesis
        by (cases rule: trial_and_lock_calls) (use idle called none_row in simp_all)
    qed (use idle in simp)
  qed (use idle in simp_all)
qed

text \<open>The team a trial offers asks for at least one member.\<close>

lemma trial_target:
  assumes "trial_Apply (market_chain D r e) (me_load e) p w = (Inr trial, w')"
    and "tb_GroupBuyActivityDiscountVO trial = Some g"
    and M: "mysql_ok (rp_db r)" and R: "redis_ok (rp_redis r)" "getbit_reads (rp_redis r)"
    and "targets_ok (w_db w)"
  shows "1 \<le> gv_Target g"
proof -
  let ?ar = "\<lparr>ar_db = rp_db r, ar_redis = rp_redis r\<rparr>"
  have "mysql_ok (ar_db ?ar)" "redis_ok (ar_redis ?ar)" "getbit_reads (ar_redis ?ar)" using M R by simp_all
  from this assms(1) show ?thesis
    by (cases rule: trial_rows) (use assms(2,6) in \<open>auto simp: targets_ok_def activity_vo_def\<close>)
qed

lemma lock_steps:
  assumes M: "mysql_ok (rp_db r)" and R: "redis_ok (rp_redis r)" "getbit_reads (rp_redis r)"
    and ok: "market_ok r (w_db w)" and targets: "targets_ok (w_db w)" and own: "own_number (rp_db r) (w_db w) req"
    and run: "app_LockMarketPayOrder (trade_app D r e) (Some req) w = (q, w')"
  shows "(moves r)\<^sup>*\<^sup>* (w_db w) (w_db w') \<and> market_ok r (w_db w')"
  using M R own run
proof (cases rule: app_lock_calls)
  case idle
  with ok show ?thesis by simp
next
  case (called trial g sq)
  from called(4) M show ?thesis
  proof (cases rule: lock_service_db)
    case (locked order agg)
    have "trade_step r (w_db w) (w_db w')"
      by (rule trade_step.lock [OF locked(5)])
        (use trial_target [OF called(2,3) M R targets] in \<open>simp add: locked(3) lock_activity_def\<close>)
    moreover obtain l where "db_lists (w_db w') = db_lists (w_db w) @ [l]" "l_UserID l = lrq_UserID req"
        "l_OutTradeNo l = lrq_OutTradeNo req"
      by (rule locked_row [OF locked(5) M]) (use locked(2,4) in \<open>simp add: new_order_def Let_def lock_discount_def\<close>)
    then have "numbers_ok (rp_db r) (w_db w')"
      using numbers_ok_new called(1) ok by (simp add: market_ok_def)
    ultimately show ?thesis using steps_to_move [OF ok _ M] by blast
  qed (use ok in simp)
qed

section \<open>The other steps\<close>

lemma leaves_or_respond [leaves]:
  assumes "leaves_trade m" and "\<And>x. leaves_trade (k x)"
  shows "leaves_trade (or_respond m f k)"
  unfolding leaves_trade_def
proof
  fix w
  obtain q w' where run: "or_respond m f k w = (q, w')" by force
  then have "same_trade (w_db w) (w_db w')"
    by (cases rule: or_respond_cases)
      (auto dest!: leaves_tradeD [OF assms(1)] leaves_tradeD [OF assms(2)] intro: same_trade_trans)
  with run show "same_trade (w_db w) (w_db (snd (or_respond m f k w)))" by simp
qed

lemma page_leaves:
  assumes R: "redis_ok (rp_redis r)" "getbit_reads (rp_redis r)"
  shows "leaves_trade (app_QueryGroupBuyMarketConfig (index_app D r e) now req)"
proof -
  have trial: "leaves_trade (trial_Apply (market_chain D r e) (me_load e) p)" for p
    using trial_reads [OF _ R] unfolding leaves_trade_def by (metis same_trade_refl surjective_pairing)
  have stat: "leaves_trade (on_db (arepo_QueryTeamStatisticByActivityID ar a))" for ar a
    by (intro leaves_reads on_db_reads page_queries_read)
  have teams: "leaves_trade (index_QueryDetailList (NewActivityRepository ar E) a u m n)" for ar E a u m n
    unfolding index_QueryDetailList_def
    by (auto simp: NewActivityRepository_def intro!: leaves_reads reads_bind reads_ret on_db_reads page_queries_read)
  have deref: "leaves_trade (go_err nil_deref)" by (simp add: leaves_trade_def)
  show ?thesis
    unfolding app_QueryGroupBuyMarketConfig_def index_services
    by (auto intro!: leaves trial stat teams deref split: option.splits prod.splits simp: Let_def)
qed

lemma message_leaves:
  "leaves_trade (team_refund_handler (all_strategies (NewTradeRepository r E) spawn) body)"
  by (auto simp: team_refund_handler_def RestoreTeamLockStock_all doReverseStock_def NewTradeRepository_def
      leaves_trade_def on_redis_def split: option.splits sum.splits prod.splits)

lemma timeout_steps:
  assumes M: "mysql_ok (rp_db r)" and ok: "market_ok r (w_db w)"
    and run: "TimeoutRefundJob_exec R L (refund_svc r E) w = Some (lab, w')"
  shows "(moves r)\<^sup>*\<^sup>* (w_db w) (w_db w') \<and> market_ok r (w_db w')"
proof -
  let ?P = "\<lambda>v. (moves r)\<^sup>*\<^sup>* (w_db w) (w_db v) \<and> market_ok r (w_db v)"
  have "?P w2" if "?P w1" "rs_RefundOrder (refund_svc r E) cmd w1 = (q, w2)" for cmd q w1 w2
    using refund_steps [OF M _ that(2) [unfolded refund_svc_RefundOrder]] that(1) by (meson rtranclp_trans)
  moreover have "reads (rs_QueryTimeoutUnpaidOrderList (refund_svc r E))"
    using port_reads(9) by (simp add: NewTradeRefundOrderService_def refund_QueryTimeoutUnpaidOrderList_def)
  moreover have "?P (v\<lparr>w_redis := K\<rparr>) = ?P v" for v :: world and K by simp
  moreover note run
  moreover have "?P w" using ok by simp
  ultimately show ?thesis by (rule timeout_job_keep [where P = ?P])
qed

lemma notify_job_same:
  assumes "mysql_ok (rp_db r)" and "\<And>t. lock_env_ok (L t)"
    and run: "NotifyJob_exec R L0 (NewTradeRepository r E) (NewTradeNotifyACL R http publish L) w = Some (lab, w')"
  shows "same_trade (w_db w) (w_db w')"
proof -
  have body: "leaves_trade (notify_body (NewTradeRepository r E) (NewTradeNotifyACL R http publish L))"
    unfolding leaves_trade_def
  proof
    fix v :: world
    obtain x v' where x: "ExecNotifyJob (NewTradeRepository r E) (NewTradeNotifyACL R http publish L) None v = (x, v')"
      by force
    from leaves_tradeD [OF notify_leaves [OF assms(1,2)] x]
    show "same_trade (w_db v) (w_db (snd (notify_body (NewTradeRepository r E) (NewTradeNotifyACL R http publish L) v)))"
      by (simp add: notify_body_def x split: sum.splits go_error.splits)
  qed
  from run obtain q where "with_lock R L0 ''group_buy_market_notify_job_exec'' 3000 50 JobSkipLock
      (notify_body (NewTradeRepository r E) (NewTradeNotifyACL R http publish L)) w = Some (q, w')"
    by (auto simp: NotifyJob_exec_def recovered_run_def)
  then show ?thesis
    by (cases rule: with_lock_Some) (auto dest: leaves_tradeD [OF body])
qed

lemma serves_steps:
  assumes "serves D r w w'" and M: "mysql_ok (rp_db r)" and R: "redis_ok (rp_redis r)" "getbit_reads (rp_redis r)"
    and ok: "market_ok r (w_db w)"
  shows "(moves r)\<^sup>*\<^sup>* (w_db w) (w_db w') \<and> market_ok r (w_db w')"
proof -
  have same: ?thesis if "same_trade (w_db w) (w_db w')"
    using steps_to_same [OF that] ok by (auto simp: steps_to_def)
  from assms(1) show ?thesis
  proof cases
    case (lock e req lres)
    show ?thesis
    proof (cases req)
      case None
      with lock(1) same show ?thesis by (simp add: app_LockMarketPayOrder_def)
    next
      case (Some x)
      with lock show ?thesis by (intro lock_steps [OF M R ok]) auto
    qed
  next
    case (settlement e sreq sres)
    from settlement have "w' = w \<or> (\<exists>pay q. settle_SettlementMarketPayOrder (NewTradeRepository r (me_trade e))
        (Some safego_Go) pay w = (q, w'))"
      by (auto simp: app_SettlementMarketPayOrder_def trade_app_def Let_def split: option.splits if_splits
          elim!: or_respond_cases)
    with settlement_steps [OF M ok] ok show ?thesis by auto
  next
    case (refund e rreq rres)
    from refund have "w' = w \<or> (\<exists>cmd q. refund_RefundOrder (NewTradeRepository r (me_trade e))
        (all_strategies (NewTradeRepository r (me_trade e)) (Some safego_Go)) cmd w = (q, w'))"
      by (auto simp: app_RefundMarketPayOrder_def app_services split: option.splits if_splits elim!: or_respond_cases)
    with refund_steps [OF M ok] ok show ?thesis by auto
  next
    case (page e now preq pres)
    from leaves_tradeD [OF page_leaves [OF R] page] show ?thesis by (rule same)
  next
    case (callback E http publish L t cres)
    from leaves_tradeD [OF notify_leaves [OF M callback(2)] callback(1)] show ?thesis by (rule same)
  next
    case (notify_job L0 E http publish L lab)
    from notify_job_same [OF M notify_job(2,1)] show ?thesis by (rule same)
  next
    case (timeout_job L0 E lab)
    then show ?thesis by (rule timeout_steps [OF M ok])
  next
    case (message E spawn body ack)
    then obtain q where "team_refund_handler (all_strategies (NewTradeRepository r E) spawn) body w = (q, w')"
      by (auto simp: consume_one_def split: prod.splits sum.splits)
    from leaves_tradeD [OF message_leaves this] show ?thesis by (rule same)
  next
    case (tag_job te tag batch tres)
    have "mysql_ok (tr_db \<lparr>tr_db = rp_db r, tr_redis = rp_redis r\<rparr>)" using M by simp
    from leaves_tradeD [OF tag_job_leaves [OF this] tag_job] show ?thesis by (rule same)
  next
    case around
    then show ?thesis by (rule same)
  qed
qed

lemma serves_reach:
  assumes "(serves D r)\<^sup>*\<^sup>* w0 w" and "mysql_ok (rp_db r)" "redis_ok (rp_redis r)" "getbit_reads (rp_redis r)"
    and "market_ok r (w_db w0)"
  shows "(moves r)\<^sup>*\<^sup>* (w_db w0) (w_db w) \<and> market_ok r (w_db w)"
  using assms(1)
proof (induction rule: rtranclp_induct)
  case (step y z)
  with serves_steps [OF step(2) assms(2-4)] show ?case by (meson rtranclp_trans)
qed (use assms(5) in simp)


text \<open>
  Whatever the server has served since an empty market, in any order: its database went only through
  trade transactions, and each team counts its orders.
\<close>

lemma market_counters_hold:
  assumes "(serves D r)\<^sup>*\<^sup>* w0 w" and "mysql_ok (rp_db r)" "redis_ok (rp_redis r)" "getbit_reads (rp_redis r)"
    and "db_orders (w_db w0) = []" "db_lists (w_db w0) = []"
  shows "(moves r)\<^sup>*\<^sup>* (w_db w0) (w_db w) \<and>
    (\<forall>g \<in> set (db_orders (w_db w)).
       o_LockCount g = int (open_count (rp_db r) (w_db w) (o_TeamID g)) \<and>
       o_CompleteCount g = int (paid_count (rp_db r) (w_db w) (o_TeamID g)) \<and>
       0 \<le> o_CompleteCount g \<and> o_CompleteCount g \<le> o_LockCount g \<and> o_LockCount g \<le> o_TargetCount g)"
proof -
  have "market_ok r (w_db w0)"
    using assms(5,6) by (simp add: market_ok_def teams_ok_def numbers_ok_def)
  from serves_reach [OF assms(1-4) this] have path: "(moves r)\<^sup>*\<^sup>* (w_db w0) (w_db w)"
    and ok: "teams_ok (rp_db r) (w_db w)" by (simp_all add: market_ok_def)
  then have "team_ok (rp_db r) (w_db w) g" if "g \<in> set (db_orders (w_db w))" for g
    using that by (simp add: teams_ok_def)
  with path teams_ok_bounds [OF ok] show ?thesis by (simp add: team_ok_def)
qed

section \<open>A request that is repeated\<close>

lemma find_rows_adv:
  assumes "rows_adv R new xs ys" and "find P xs = Some x" and "\<And>x y. R x y \<Longrightarrow> P y = P x"
  obtains y where "find P ys = Some y" "R x y"
proof -
  from assms(1) obtain ms ns where ys: "ys = ms @ ns" and rel: "list_all2 R xs ms" unfolding rows_adv_def by blast
  from rel assms(2) have "\<exists>y. find P (ms @ ns) = Some y \<and> R x y"
  proof (induction rule: list_all2_induct)
    case (Cons a as b bs)
    then show ?case using assms(3) [OF Cons.hyps(1)] by (cases "P a") auto
  qed simp
  with ys that show ?thesis by blast
qed

lemma moves_adv:
  assumes "(moves r)\<^sup>*\<^sup>* d d'" and "teams_ok (rp_db r) d" and "mysql_ok (rp_db r)"
  shows "lists_adv d d' \<and> teams_ok (rp_db r) d'"
  using assms(1)
proof (induction rule: rtranclp_induct)
  case (step y z)
  from step.IH have inv: "teams_ok (rp_db r) y" by simp
  from step.hyps(2) have "lists_adv y z \<and> teams_ok (rp_db r) z"
    unfolding moves_def
  proof
    assume "trade_step r y z"
    with trade_step_adv(1) [OF this inv assms(3)] trade_step_teams_ok [OF this inv assms(3)] show ?thesis by simp
  next
    assume same: "same_trade y z"
    with inv same_trade_teams_ok [OF same] show ?thesis by (simp add: same_trade_def rows_adv_refl)
  qed
  with step.IH lists_adv_trans [of d y z] show ?case by simp
qed (use assms(2) in \<open>simp add: rows_adv_refl\<close>)

lemma row_response_adv:
  assumes "order_adv l l'" and "l_Status l' = l_Status l"
  shows "row_response l' = row_response l"
  using assms by (simp add: order_adv_def row_response_def)

text \<open>
  C31. Let a market have started empty and served requests, jobs, callbacks and messages in any order
  within the guards of \<open>serves\<close>, and then grant a lock request under a trade number of which the user has no
  paid or closed order. Whatever the server has served since, by the same guards and with whatever settings:
  as long as the order is unpaid and MySQL is up, repeating the request changes nothing and is
  answered with the same order, at the same prices and in the same team.
\<close>

theorem repeated_lock_finds_its_order:
  assumes M: "mysql_ok (rp_db r)" "mysql_up (rp_db r)" and R: "redis_ok (rp_redis r)" "getbit_reads (rp_redis r)"
    and start: "db_orders (w_db w0) = []" "db_lists (w_db w0) = []" "(serves D r)\<^sup>*\<^sup>* w0 w"
    and granted: "app_LockMarketPayOrder (trade_app D r e) (Some req) w = (Inr (Success order), w1)"
      "lrs_OrderID order \<noteq> ''''"
    and guards: "targets_ok (w_db w)" "own_number (rp_db r) (w_db w) req"
    and since: "(serves D r)\<^sup>*\<^sup>* w1 w2"
    and unpaid: "\<exists>l \<in> set (db_lists (w_db w2)). l_OrderID l = lrs_OrderID order \<and> l_Status l = TradeOrderCreate"
  shows "app_LockMarketPayOrder (trade_app D r e') (Some req) w2 = (Inr (Success order), w2)"
proof -
  have "market_ok r (w_db w0)" using start(1,2) by (simp add: market_ok_def teams_ok_def numbers_ok_def)
  from serves_reach [OF start(3) M(1) R this] have ok: "market_ok r (w_db w)" by simp
  have "serves D r w w1" by (rule serves.lock [OF granted(1) guards(1)]) (use guards(2) in simp)
  from serves_steps [OF this M(1) R ok] have ok1: "market_ok r (w_db w1)" by simp
  from serves_reach [OF since M(1) R ok1] have path: "(moves r)\<^sup>*\<^sup>* (w_db w1) (w_db w2)"
    and "market_ok r (w_db w2)" by simp_all
  then have ids: "distinct (map (\<lambda>l. my_ck (rp_db r) (l_OrderID l)) (db_lists (w_db w2)))"
    by (simp add: market_ok_def teams_ok_def)
  have "teams_ok (rp_db r) (w_db w1)" using ok1 by (simp add: market_ok_def)
  from moves_adv [OF path this M(1)] have adv: "lists_adv (w_db w1) (w_db w2)" by simp
  from M(1) R granted guards(2) obtain l where
    l: "find (trade_no_of (rp_db r) (lrq_UserID req) (lrq_OutTradeNo req)) (db_lists (w_db w1)) = Some l"
      "l_Status l = TradeOrderCreate" "order = row_response l" "lock_request_ok (NormalizeLockNotify req)"
    unfolding own_number_def by (rule granted_order)
  obtain l' where l': "find (trade_no_of (rp_db r) (lrq_UserID req) (lrq_OutTradeNo req)) (db_lists (w_db w2)) = Some l'"
    "order_adv l l'"
    by (rule find_rows_adv [OF adv l(1)]) (auto simp: order_adv_def trade_no_of_def)
  from unpaid obtain x where x: "x \<in> set (db_lists (w_db w2))" "l_OrderID x = l_OrderID l'" "l_Status x = TradeOrderCreate"
    using l(3) l'(2) by (auto simp: row_response_def order_adv_def)
  have "l' \<in> set (db_lists (w_db w2))" using l'(1) by (auto simp: find_Some_iff)
  from filter_key_unique [OF ids x(1) this] x(2,3) have still: "l_Status l' = TradeOrderCreate" by simp
  have "row_response l' = order" using row_response_adv [OF l'(2)] still l(2,3) by simp
  with pending_order_found [OF M l(4) l'(1) still] show ?thesis by simp
qed

text \<open>Ann locks an order, then somebody edits the settings, and she asks again.\<close>

lemma repeated_lock_witness:
  "\<exists>order w1. app_LockMarketPayOrder (trade_app refDecimal refRepository ex_market_env) (Some ex_lock_request) ex_market
     = (Inr (Success order), w1) \<and>
   app_LockMarketPayOrder (trade_app refDecimal refRepository ex_market_env) (Some ex_lock_request)
     (w1\<lparr>w_dcc := dcc_New ''1'' ''0'' '''' ''0''\<rparr>)
     = (Inr (Success order), w1\<lparr>w_dcc := dcc_New ''1'' ''0'' '''' ''0''\<rparr>)"
proof -
  obtain order w1 where run: "app_LockMarketPayOrder (trade_app refDecimal refRepository ex_market_env)
      (Some ex_lock_request) ex_market = (Inr (Success order), w1)" "lrs_OrderID order \<noteq> ''''"
    using ex_request_granted by blast
  let ?w2 = "w1\<lparr>w_dcc := dcc_New ''1'' ''0'' '''' ''0''\<rparr>"
  note ref = mysql_ok_ref mysql_up_ref redis_ok_ref getbit_reads_ref
  have empty: "db_orders (w_db ex_market) = []" "db_lists (w_db ex_market) = []" by (simp_all add: ex_market_def)
  have guards: "targets_ok (w_db ex_market)" "own_number (rp_db refRepository) (w_db ex_market) ex_lock_request"
    by (simp_all add: targets_ok_def own_number_def ex_market_def ex_activity_def)
  have since: "(serves refDecimal refRepository)\<^sup>*\<^sup>* w1 ?w2"
    by (intro r_into_rtranclp serves.around) (simp add: same_trade_def)
  have none: "\<forall>l \<in> set (db_lists (w_db ex_market)). trade_no_of (rp_db refRepository) (lrq_UserID ex_lock_request)
      (lrq_OutTradeNo ex_lock_request) l \<longrightarrow> l_Status l = TradeOrderCreate" using empty(2) by simp
  obtain l where
    "find (trade_no_of refMySQL (lrq_UserID ex_lock_request) (lrq_OutTradeNo ex_lock_request)) (db_lists (w_db w1)) = Some l"
    "l_Status l = TradeOrderCreate" "order = row_response l"
    by (rule granted_order [OF _ _ _ run none]) (use ref in simp_all)
  moreover from this(1) have "l \<in> set (db_lists (w_db w1))" by (auto simp: find_Some_iff)
  ultimately have "\<exists>l \<in> set (db_lists (w_db ?w2)). l_OrderID l = lrs_OrderID order \<and> l_Status l = TradeOrderCreate"
    by (auto simp: row_response_def)
  with repeated_lock_finds_its_order [OF _ _ _ _ empty rtranclp.rtrancl_refl run guards since] run(1) ref
  show ?thesis by auto
qed

end
