(* ===== verification/Workers.thy ===== *)
theory Workers
  imports Metrics Market_System
begin

text \<open>
  What runs beside the requests: the loops of the two scheduled jobs (\<open>internal/trigger/job/jobs.go\<close>),
  whose runs are in the theory Jobs, and the subscription loop of the Redis service
  (\<open>internal/infrastructure/redis/redis_service.go\<close>). A loop is a function of what its select takes, in
  order; a ticker and a channel are the parts of Go's runtime the loops use. A panic that leaves a
  goroutine without a recover ends the process, and is the result of the loop here.
\<close>

section \<open>Intervals\<close>

text \<open>\<open>time.Duration(n) * time.Second\<close>, in nanoseconds; the product wraps around.\<close>

definition seconds :: "int \<Rightarrow> int64" where
  "seconds n = of_int n * 1000000000"

definition NewTicker :: "int64 \<Rightarrow> int64 res" where
  "NewTicker d = (if sint d \<le> 0 then Inl (Panic ''non-positive interval for NewTicker'') else Inr d)"

record worker =
  wk_interval :: int64
  wk_stop :: bool

definition NewNotifyJob :: "int \<Rightarrow> worker" where
  "NewNotifyJob intervalSec = \<lparr>wk_interval = seconds (NewNotifyJob_interval intervalSec), wk_stop = False\<rparr>"

definition NewTimeoutRefundJob :: "int \<Rightarrow> worker" where
  "NewTimeoutRefundJob intervalSec =
     \<lparr>wk_interval = seconds (NewTimeoutRefundJob_interval intervalSec), wk_stop = False\<rparr>"

section \<open>The loop of a job\<close>

datatype 'e selected = Tick 'e | StopSeen

text \<open>
  The labels of the runs, and the world after them; \<open>e\<close> is what a run sees of its surroundings. A run
  that does not end keeps the loop.
\<close>

fun job_loop :: "('e \<Rightarrow> 'w \<Rightarrow> ('l \<times> 'w) option) \<Rightarrow> 'e selected list \<Rightarrow> 'w \<Rightarrow> ('l list \<times> 'w) option" where
  "job_loop exec [] w = Some ([], w)"
| "job_loop exec (StopSeen # ss) w = Some ([], w)"
| "job_loop exec (Tick e # ss) w =
     (case exec e w of
        None \<Rightarrow> None
      | Some (l, w1) \<Rightarrow> map_option (\<lambda>(ls, w2). (l # ls, w2)) (job_loop exec ss w1))"

text \<open>\<open>Start\<close>: a goroutine of its own, with the ticker made in it.\<close>

definition worker_Start ::
    "('e \<Rightarrow> 'w \<Rightarrow> ('l \<times> 'w) option) \<Rightarrow> worker \<Rightarrow> 'e selected list \<Rightarrow> 'w \<Rightarrow> ('l list res \<times> 'w) option" where
  "worker_Start exec j ss w =
     (case NewTicker (wk_interval j) of
        Inl e \<Rightarrow> Some (Inl e, w)
      | Inr d \<Rightarrow> map_option (\<lambda>(ls, w'). (Inr ls, w')) (job_loop exec ss w))"

definition NotifyJob_Start ::
    "redis \<Rightarrow> TradeRepository \<Rightarrow> http_client \<Rightarrow> EventPublisher \<Rightarrow> worker \<Rightarrow>
     (lock_env \<times> call_env \<times> (NotifyTaskEntity \<Rightarrow> lock_env)) selected list \<Rightarrow> world \<Rightarrow>
     (job_label list res \<times> world) option" where
  "NotifyJob_Start R r http publish =
     worker_Start (\<lambda>(L0, E, L). NotifyJob_exec R L0 (NewTradeRepository r E) (NewTradeNotifyACL R http publish L))"

definition TimeoutRefundJob_Start ::
    "redis \<Rightarrow> TradeRepository \<Rightarrow> worker \<Rightarrow> (lock_env \<times> call_env) selected list \<Rightarrow> world \<Rightarrow>
     (job_label list res \<times> world) option" where
  "TimeoutRefundJob_Start R r = worker_Start (\<lambda>(L0, E). TimeoutRefundJob_exec R L0 (refund_svc r E))"

text \<open>\<open>Stop\<close> closes the channel, which no one does twice without a panic.\<close>

definition worker_Stop :: "worker \<Rightarrow> unit res \<times> worker" where
  "worker_Stop j =
     (case close_channel (wk_stop j) of Inl e \<Rightarrow> (Inl e, j) | Inr b \<Rightarrow> (Inr (), j\<lparr>wk_stop := b\<rparr>))"

section \<open>The subscription\<close>

record redis_options =
  ro_Addr :: string
  ro_Password :: string
  ro_DB :: int

text \<open>\<open>connect\<close> is \<open>goredis.NewClient\<close>.\<close>

definition redis_New :: "(redis_options \<Rightarrow> redis) \<Rightarrow> string \<Rightarrow> string \<Rightarrow> int \<Rightarrow> redis" where
  "redis_New connect addr password db = connect \<lparr>ro_Addr = addr, ro_Password = password, ro_DB = db\<rparr>"

text \<open>\<open>PING\<close> is a round trip that leaves the keys alone.\<close>

definition redis_Ping :: "redis \<Rightarrow> (keyspace, unit) go" where
  "redis_Ping R = go_bind (redisDo R (\<lambda>K. (RNil, K))) (\<lambda>_. go_ret ())"

definition redis_observe :: "'m prometheus \<Rightarrow> string \<Rightarrow> rat \<Rightarrow> go_error option \<Rightarrow> ('m, unit) go" where
  "redis_observe P op_name since err = ObserveRedis P op_name err since"

datatype 'p sub_event = CtxDone | ChannelClosed | Message "'p option"

text \<open>The loop over what the select takes; \<open>safego.Recover\<close> keeps a panic of the handler from ending it.\<close>

fun sub_loop :: "('p \<Rightarrow> ('w, unit) go) \<Rightarrow> 'p sub_event list \<Rightarrow> 'w \<Rightarrow> 'w" where
  "sub_loop h [] w = w"
| "sub_loop h (CtxDone # es) w = w"
| "sub_loop h (ChannelClosed # es) w = w"
| "sub_loop h (Message None # es) w = sub_loop h es w"
| "sub_loop h (Message (Some p) # es) w = sub_loop h es (snd (h p w))"

text \<open>\<open>confirm\<close> is what waiting for the confirmation answers.\<close>

definition redis_Subscribe ::
    "go_error option \<Rightarrow> ('p \<Rightarrow> ('w, unit) go) \<Rightarrow> 'p sub_event list \<Rightarrow> ('w, unit) go" where
  "redis_Subscribe confirm h es w =
     (case confirm of Some e \<Rightarrow> (Inl e, w) | None \<Rightarrow> (Inr (), sub_loop h es w))"

text \<open>
  The subscription \<open>EnableBroadcast\<close> starts, on the settings of the instance; a subscription that is not
  confirmed is logged and not tried again.
\<close>

definition dcc_subscribe :: "bool \<Rightarrow> go_error option \<Rightarrow> json option sub_event list \<Rightarrow> dcc \<Rightarrow> dcc" where
  "dcc_subscribe sub confirm es s =
     (if \<not> sub then s else snd (redis_Subscribe confirm (\<lambda>payload s. (Inr (), dcc_handler payload s)) es s))"

section \<open>Facts of the loops\<close>

text \<open>
  Every interval the configuration can ask for gives a ticker, up to the longest one a duration holds;
  one second more wraps around to a negative one, of which the ticker panics.
\<close>

lemma sint_seconds:
  assumes "0 < n" and "n \<le> 9223372036"
  shows "sint (seconds n) = n * 1000000000"
proof -
  have eq: "seconds n = of_int (n * 1000000000)" by (simp add: seconds_def)
  have "sint (of_int k :: int64) = k" if "0 \<le> k" "k < 2 ^ 63" for k
    using that by (simp add: signed_of_int signed_take_bit_int_eq_self)
  from this [of "n * 1000000000"] assms show ?thesis by (simp only: eq) simp
qed

lemma job_ticker:
  assumes "n \<le> 9223372036"
  shows "NewTicker (wk_interval (NewNotifyJob n)) = Inr (seconds (if n \<le> 0 then 30 else n))"
    and "NewTicker (wk_interval (NewTimeoutRefundJob n)) = Inr (seconds (if n \<le> 0 then 60 else n))"
  using assms sint_seconds [of 30] sint_seconds [of 60] sint_seconds [of n]
  by (auto simp: NewTicker_def NewNotifyJob_def NewTimeoutRefundJob_def NewNotifyJob_interval_def
      NewTimeoutRefundJob_interval_def)

lemma longest_interval: "\<exists>e. NewTicker (wk_interval (NewNotifyJob 9223372037)) = Inl (Panic e)"
  by (simp add: NewTicker_def NewNotifyJob_def NewNotifyJob_interval_def seconds_def)

lemma stop_twice_panics: "fst (worker_Stop j) = Inr () \<Longrightarrow> \<exists>p. fst (worker_Stop (snd (worker_Stop j))) = Inl (Panic p)"
  by (auto simp: worker_Stop_def close_channel_def split: if_splits)

text \<open>A handler that panics does not end the subscription: every message is handled, in order.\<close>

lemma sub_loop_messages: "sub_loop h (map (\<lambda>p. Message (Some p)) ps) w = foldl (\<lambda>w p. snd (h p w)) w ps"
  by (induction ps arbitrary: w) simp_all

lemma dcc_subscribe_messages:
  "dcc_subscribe True None (map (\<lambda>p. Message (Some p)) ps) s = foldl (\<lambda>s p. dcc_handler p s) s ps"
  by (simp add: dcc_subscribe_def redis_Subscribe_def sub_loop_messages)

text \<open>What every run keeps, a loop keeps; a loop whose runs end returns one label for each.\<close>

lemma job_loop_reach:
  assumes "job_loop exec ss w = Some (ls, w')" and "\<And>e w l w'. Tick e \<in> set ss \<Longrightarrow> exec e w = Some (l, w') \<Longrightarrow> R w w'"
  shows "R\<^sup>*\<^sup>* w w'"
  using assms
proof (induction exec ss w arbitrary: ls rule: job_loop.induct)
  case (3 exec e ss w)
  from 3(2) obtain l w1 ls' where run: "exec e w = Some (l, w1)" "job_loop exec ss w1 = Some (ls', w')"
    by (auto split: option.splits)
  from 3(1) [OF run(1) refl run(2)] 3(3) have "R\<^sup>*\<^sup>* w1 w'" by auto
  with 3(3) [OF _ run(1)] show ?case by (meson converse_rtranclp_into_rtranclp list.set_intros(1))
qed simp_all

lemma job_loop_returns:
  assumes "\<And>e w. Tick e \<in> set ss \<Longrightarrow> exec e w \<noteq> None"
  shows "job_loop exec ss w \<noteq> None"
  using assms
proof (induction exec ss w rule: job_loop.induct)
  case (3 exec e ss w)
  obtain l w1 where run: "exec e w = Some (l, w1)" using 3(2) [of e w] by auto
  have "job_loop exec ss w1 \<noteq> None" by (rule 3(1) [OF run refl]) (use 3(2) in auto)
  with run show ?case by simp
qed simp_all

text \<open>The jobs are part of the server: their loops are sequences of its steps.\<close>

lemma notify_loop_serves:
  assumes run: "NotifyJob_Start (rp_redis r) r http publish j ss w = Some (q, w')"
    and clocks: "\<And>L0 E L t. Tick (L0, E, L) \<in> set ss \<Longrightarrow> lock_env_ok (L t)"
  shows "(serves D r)\<^sup>*\<^sup>* w w'"
proof -
  let ?exec = "\<lambda>(L0, E, L). NotifyJob_exec (rp_redis r) L0 (NewTradeRepository r E) (NewTradeNotifyACL (rp_redis r) http publish L)"
  from run consider "w' = w" | ls where "job_loop ?exec ss w = Some (ls, w')"
    by (auto simp: NotifyJob_Start_def worker_Start_def split: sum.splits)
  then show ?thesis
  proof cases
    case 2
    show ?thesis
      by (rule job_loop_reach [OF 2]) (use clocks in \<open>auto intro: serves.notify_job split: prod.splits\<close>)
  qed simp
qed

lemma timeout_loop_serves:
  assumes run: "TimeoutRefundJob_Start (rp_redis r) r j ss w = Some (q, w')"
  shows "(serves D r)\<^sup>*\<^sup>* w w'"
proof -
  let ?exec = "\<lambda>(L0, E). TimeoutRefundJob_exec (rp_redis r) L0 (refund_svc r E)"
  from run consider "w' = w" | ls where "job_loop ?exec ss w = Some (ls, w')"
    by (auto simp: TimeoutRefundJob_Start_def worker_Start_def split: sum.splits)
  then show ?thesis
  proof cases
    case 2
    show ?thesis
      by (rule job_loop_reach [OF 2]) (auto intro: serves.timeout_job split: prod.splits)
  qed simp
qed

end
