(* ===== verification/Middleware.thy ===== *)
theory Middleware
  imports Metrics Http_Entry
begin

text \<open>
  What every request passes through before its controller: the trace id
  (\<open>internal/infrastructure/trace/context.go\<close>, \<open>trigger/http/middleware_trace.go\<close>) and the HTTP metrics
  (\<open>trigger/http/middleware_metrics.go\<close>). A request is what these read of it, a context is the trace
  id it carries; the remaining handlers are a function that answers the status and the pieces of the
  body it writes, or panics. gin hands the panic on to its own recovery, which is registered before.

  The random bytes are an argument, and so is \<open>json.Unmarshal\<close> of the text of a body: the document it
  encodes, nothing when it is not JSON.
\<close>

section \<open>The trace id\<close>

type_synonym trace_context = "string option"

definition FromContext :: "trace_context option \<Rightarrow> string" where
  "FromContext ctx = (case ctx of None \<Rightarrow> '''' | Some None \<Rightarrow> '''' | Some (Some v) \<Rightarrow> v)"

definition SetContext :: "trace_context \<Rightarrow> string \<Rightarrow> trace_context" where
  "SetContext ctx traceID = Some traceID"

text \<open>\<open>fmt.Sprintf("%x", b)\<close>: two digits for each byte.\<close>

definition hexDigit :: "nat \<Rightarrow> char" where
  "hexDigit n = ''0123456789abcdef'' ! n"

fun hex :: "8 word list \<Rightarrow> string" where
  "hex [] = ''''"
| "hex (b # bs) = hexDigit (unat b div 16) # hexDigit (unat b mod 16) # hex bs"

text \<open>The argument is what \<open>rand.Read\<close> puts into the eight bytes.\<close>

definition trace_Generate :: "8 word list \<Rightarrow> string" where
  "trace_Generate rnd = hex rnd"

definition generateTraceID :: "8 word list \<Rightarrow> string" where
  "generateTraceID rnd = hex rnd"

record request =
  rq_method :: string
  rq_urlpath :: string
  rq_fullpath :: string
  rq_traceHeader :: string
  rq_query :: "string \<rightharpoonup> string"
  rq_body :: "json option"
  rq_ctx :: trace_context
  rq_cached :: "string option"

definition TraceIDHeader :: string where
  "TraceIDHeader = ''X-Trace-ID''"

text \<open>The request the next handler sees, and the header of the response.\<close>

definition TraceMiddleware :: "8 word list \<Rightarrow> request \<Rightarrow> request \<times> (string \<times> string)" where
  "TraceMiddleware rnd rq =
     (let traceID = (if rq_traceHeader rq = '''' then generateTraceID rnd else rq_traceHeader rq)
      in (rq\<lparr>rq_ctx := SetContext (rq_ctx rq) traceID\<rparr>, (TraceIDHeader, traceID)))"

definition GetTraceID :: "request \<Rightarrow> string" where
  "GetTraceID rq = FromContext (Some (rq_ctx rq))"

definition TraceKeyFunc :: "(request \<Rightarrow> string) \<Rightarrow> request \<Rightarrow> string" where
  "TraceKeyFunc keyFunc rq =
     (let key = keyFunc rq in
      if key = '''' then ''''
      else let tid = GetTraceID rq in if tid \<noteq> '''' then key @ ''@'' @ tid else key)"

definition ExtractUserIDFromQuery :: "request \<Rightarrow> string" where
  "ExtractUserIDFromQuery rq = (case rq_query rq ''userId'' of Some v \<Rightarrow> v | None \<Rightarrow> '''')"

text \<open>Binding reads the body: the request has none afterwards. Only the user id is kept.\<close>

definition ExtractUserIDFromBody :: "request \<Rightarrow> string \<times> request" where
  "ExtractUserIDFromBody rq =
     (case json_strings {''userid''} (rq_body rq) of
        None \<Rightarrow> ('''', rq\<lparr>rq_body := None\<rparr>)
      | Some body \<Rightarrow> (body ''userid'', rq\<lparr>rq_body := None, rq_cached := Some (body ''userid'')\<rparr>))"

definition CachedUserIDBody :: "request \<Rightarrow> string \<times> bool" where
  "CachedUserIDBody rq = (case rq_cached rq of None \<Rightarrow> ('''', False) | Some v \<Rightarrow> (v, True))"

definition hasPrefix :: "string \<Rightarrow> string \<Rightarrow> bool" where
  "hasPrefix s p \<longleftrightarrow> take (length p) s = p"

definition isHealthOrStatic :: "string \<Rightarrow> bool" where
  "isHealthOrStatic path \<longleftrightarrow>
     path = ''/health'' \<or> hasPrefix path ''/metrics'' \<or> hasPrefix path ''/test/'' \<or>
     hasPrefix path ''/swagger'' \<or> path = ''/openapi.yaml'' \<or> path = ''/''"

section \<open>The HTTP metrics\<close>

record http_response =
  hr_status :: int
  hr_writes :: "string list"

text \<open>The copy of the body that \<open>metricsBodyWriter\<close> keeps, after one write and after all.\<close>

definition metricsBodyWriter_Write :: "string \<Rightarrow> string \<Rightarrow> string" where
  "metricsBodyWriter_Write body b = (if length body + length b < 64 * 1024 then body @ b else body)"

definition metricsBodyWriter_WriteString :: "string \<Rightarrow> string \<Rightarrow> string" where
  "metricsBodyWriter_WriteString body s = metricsBodyWriter_Write body s"

definition captured :: "string list \<Rightarrow> string" where
  "captured writes = foldl metricsBodyWriter_Write '''' writes"

definition extractBizCode :: "(string \<Rightarrow> json option) \<Rightarrow> string \<Rightarrow> string" where
  "extractBizCode unmarshal body =
     (let trim = TrimSpace body in
      if trim = '''' \<or> hd trim \<noteq> CHR ''{'' then ''''
      else case json_strings {''code''} (unmarshal trim) of
          None \<Rightarrow> ''''
        | Some p \<Rightarrow> p ''code'')"

text \<open>What is counted when the handlers have returned.\<close>

definition observe_response ::
    "'m prometheus \<Rightarrow> (string \<Rightarrow> json option) \<Rightarrow> rat \<Rightarrow> request \<Rightarrow> http_response \<Rightarrow> ('m, unit) go" where
  "observe_response P unmarshal seconds rq resp =
     (let path = or_default (rq_fullpath rq) ''unmatched'';
          body = captured (hr_writes resp);
          code = extractBizCode unmarshal body
      in go_bind (ObserveHTTP P (rq_method rq) path (showInt (hr_status resp)) seconds)
          (\<lambda>_. if hasPrefix path ''/api/'' \<and> body \<noteq> '''' \<and> code \<noteq> '''' then ObserveBiz P path code
               else go_ret ()))"

text \<open>A deferred call runs however the call before it ends; when it panics itself, that is the panic.\<close>

definition go_defer :: "('m, unit) go \<Rightarrow> 'a res \<times> 'm \<Rightarrow> 'a res \<times> 'm" where
  "go_defer d r = (case r of (q, m) \<Rightarrow> (case d m of (Inl e, m') \<Rightarrow> (Inl e, m') | (Inr _, m') \<Rightarrow> (q, m')))"

definition MetricsMiddleware ::
    "'m prometheus \<Rightarrow> (string \<Rightarrow> json option) \<Rightarrow> rat \<Rightarrow> request \<Rightarrow> ('w, http_response) go \<Rightarrow>
     'w \<times> 'm \<Rightarrow> http_response res \<times> 'w \<times> 'm" where
  "MetricsMiddleware P unmarshal seconds rq handler s =
     (case s of (w, m) \<Rightarrow>
        if rq_urlpath rq = ''/metrics'' then (case handler w of (q, w') \<Rightarrow> (q, w', m))
        else
          (case pm_Inc P HTTPInFlight [] m of
             (Inl e, m1) \<Rightarrow> (Inl e, w, m1)
           | (Inr _, m1) \<Rightarrow>
               (case handler w of
                  (Inl e, w') \<Rightarrow>
                    (case go_defer (pm_Dec P HTTPInFlight []) (Inl e, m1) of (q, m') \<Rightarrow> (q, w', m'))
                | (Inr resp, w') \<Rightarrow>
                    (case go_defer (pm_Dec P HTTPInFlight [])
                        (go_bind (observe_response P unmarshal seconds rq resp) (\<lambda>_. go_ret resp) m1) of
                       (q, m') \<Rightarrow> (q, w', m')))))"


section \<open>The captured body\<close>

lemma captured_length: "length body < 64 * 1024 \<Longrightarrow> length (foldl metricsBodyWriter_Write body ws) < 64 * 1024"
  by (induction ws arbitrary: body) (simp_all add: metricsBodyWriter_Write_def)

lemma captured_all:
  "length body + length (concat ws) < 64 * 1024 \<Longrightarrow> foldl metricsBodyWriter_Write body ws = body @ concat ws"
  by (induction ws arbitrary: body) (simp_all add: metricsBodyWriter_Write_def)

text \<open>The code of an answer that is the JSON text of a response (\<open>internal/api/response\<close>).\<close>

definition response_json :: "('a \<Rightarrow> json) \<Rightarrow> 'a Response \<Rightarrow> json" where
  "response_json enc r = JObj [(''code'', JStr (rsp_Code r)), (''info'', JStr (rsp_Info r)), (''data'', enc (rsp_Data r))]"

lemma response_code:
  assumes "unmarshal text = Some (response_json enc r)" and "TrimSpace text = text" "text \<noteq> ''''" "hd text = CHR ''{''"
  shows "extractBizCode unmarshal text = rsp_Code r"
  using assms by (simp add: extractBizCode_def response_json_def json_strings_def lower_def)

section \<open>What a request counts\<close>

lemma labels_here [simp]:
  "labels_ok HTTPInFlight []" "mf_kind HTTPInFlight = Gauge"
  "ascii p \<Longrightarrow> ascii c \<Longrightarrow> labels_ok BizRequests [p, c]" "mf_kind BizRequests = Counter"
  by (simp_all add: labels_ok_def) (simp_all add: family_defs)

lemma families_apart [simp]:
  "mf_name HTTPInFlight \<noteq> mf_name HTTPRequests" "mf_name HTTPInFlight \<noteq> mf_name BizRequests"
  "mf_name HTTPRequests \<noteq> mf_name BizRequests"
  by (simp_all add: family_defs)

text \<open>The numbers after a response.\<close>

definition response_values ::
    "(string \<Rightarrow> json option) \<Rightarrow> request \<Rightarrow> http_response \<Rightarrow> (child \<Rightarrow> int) \<Rightarrow> child \<Rightarrow> int" where
  "response_values unmarshal rq resp V =
     (let path = or_default (rq_fullpath rq) ''unmatched'';
          code = extractBizCode unmarshal (captured (hr_writes resp));
          req = (mf_name HTTPRequests, [rq_method rq, path, showInt (hr_status resp)]);
          biz = (mf_name BizRequests, [path, code]);
          V' = V(req := V req + 1)
      in if hasPrefix path ''/api/'' \<and> code \<noteq> '''' then V'(biz := V' biz + 1) else V')"

lemma showInt_ascii: "ascii (showInt n)"
proof -
  have "of_char c < (128::nat)" if "isDigit c" for c using that by (auto simp: isDigit_def)
  then show ?thesis using showNat_digits by (auto simp: showInt_def ascii_def)
qed

lemma response_values_fly:
  "response_values unmarshal rq resp (V((mf_name HTTPInFlight, []) := n)) =
     (response_values unmarshal rq resp V)((mf_name HTTPInFlight, []) := n)"
  by (rule ext) (simp add: response_values_def Let_def)

lemma response_values_same_fly:
  "(response_values unmarshal rq resp V)((mf_name HTTPInFlight, []) := V (mf_name HTTPInFlight, [])) =
     response_values unmarshal rq resp V"
  by (rule ext) (simp add: response_values_def Let_def)

lemma observe_response_runs:
  assumes P: "prom_ok P" and labels: "ascii (rq_method rq)" "ascii (rq_fullpath rq)"
    and code: "ascii (extractBizCode unmarshal (captured (hr_writes resp)))"
    and room: "\<And>(f::family) vs. mf_name f \<noteq> mf_name HTTPInFlight \<Longrightarrow> exact (pm_value P m (mf_name f, vs) + 1)"
  shows "\<exists>m'. observe_response P unmarshal seconds rq resp m = (Inr (), m') \<and>
    pm_value P m' = response_values unmarshal rq resp (pm_value P m) \<and>
    pm_count P m' = (let dur = (mf_name HTTPDuration, [rq_method rq, or_default (rq_fullpath rq) ''unmatched''])
      in (pm_count P m)(dur := pm_count P m dur + 1))"
proof -
  let ?path = "or_default (rq_fullpath rq) ''unmatched''"
  let ?code = "extractBizCode unmarshal (captured (hr_writes resp))"
  have path: "ascii ?path" "?path \<noteq> ''''" using labels(2) by (auto simp: or_default_def ascii_def)
  note room = room [of HTTPRequests] room [of BizRequests]
  obtain m1 where m1: "ObserveHTTP P (rq_method rq) ?path (showInt (hr_status resp)) seconds m = (Inr (), m1)"
    "pm_value P m1 = (pm_value P m)((mf_name HTTPRequests, [rq_method rq, ?path, showInt (hr_status resp)]) :=
      pm_value P m (mf_name HTTPRequests, [rq_method rq, ?path, showInt (hr_status resp)]) + 1)"
    "pm_count P m1 = (pm_count P m)((mf_name HTTPDuration, [rq_method rq, ?path]) :=
      pm_count P m (mf_name HTTPDuration, [rq_method rq, ?path]) + 1)"
    using ObserveHTTP_runs [OF P labels(1) path(1) showInt_ascii] room(1) by (metis families_apart(1))
  show ?thesis
  proof (cases "hasPrefix ?path ''/api/'' \<and> ?code \<noteq> ''''")
    case True
    then have body: "captured (hr_writes resp) \<noteq> ''''" by (auto simp: extractBizCode_def TrimSpace_def)
    have "exact (pm_value P m1 (mf_name BizRequests, [?path, ?code]) + 1)" using room(2) families_apart by (simp add: m1(2))
    with prom_Inc [OF P] code path(1) obtain m2 where "pm_Inc P BizRequests [?path, ?code] m1 = (Inr (), m2)"
      "raised P BizRequests [?path, ?code] 1 m1 m2" by force
    with m1 True body path(2) show ?thesis
      by (simp add: observe_response_def response_values_def go_bind_def ObserveBiz_def raised_def Let_def)
  next
    case False
    with m1 show ?thesis by (auto simp add: observe_response_def response_values_def go_bind_def Let_def)
  qed
qed

text \<open>
  C39. A request leaves the gauge of requests in flight as it found it, however it ends. One that is
  answered raises the counter of its method, route and status by one, its latency is observed once, and
  when its route is under \<open>/api/\<close> and the answer is an object with a code it raises the counter of that
  code. One that panics counts nowhere.
\<close>

theorem requests_are_counted:
  assumes P: "prom_ok P" and labels: "ascii (rq_method rq)" "ascii (rq_fullpath rq)"
    and code: "\<And>resp. q = Inr resp \<Longrightarrow> ascii (extractBizCode unmarshal (captured (hr_writes resp)))"
    and room: "\<And>k. \<bar>pm_value P m k\<bar> < 2 ^ 53"
    and path: "rq_urlpath rq \<noteq> ''/metrics''" and run: "handler w = (q, w')"
  shows "\<exists>m'. MetricsMiddleware P unmarshal seconds rq handler (w, m) = (q, w', m') \<and>
    (case q of
       Inl e \<Rightarrow> pm_value P m' = pm_value P m \<and> pm_count P m' = pm_count P m
     | Inr resp \<Rightarrow>
         pm_value P m' = response_values unmarshal rq resp (pm_value P m) \<and>
         pm_count P m' = (let dur = (mf_name HTTPDuration, [rq_method rq, or_default (rq_fullpath rq) ''unmatched''])
           in (pm_count P m)(dur := pm_count P m dur + 1)))"
proof -
  let ?fly = "(mf_name HTTPInFlight, [])"
  have exact_near: "exact (pm_value P m k + 1)" "exact (pm_value P m k)" for k
    using room [of k] by (simp_all add: exact_def)
  obtain m1 where m1: "pm_Inc P HTTPInFlight [] m = (Inr (), m1)" "raised P HTTPInFlight [] 1 m m1"
    using prom_Inc [OF P, of HTTPInFlight "[]" m] exact_near by auto
  have leave: "\<exists>m'. pm_Dec P HTTPInFlight [] m2 = (Inr (), m') \<and> pm_count P m' = pm_count P m2 \<and>
      pm_value P m' = (pm_value P m2)(?fly := pm_value P m ?fly)" if "pm_value P m2 ?fly = pm_value P m ?fly + 1" for m2
    using prom_Dec [OF P, of HTTPInFlight "[]" m2] that exact_near by (auto simp: raised_def)
  show ?thesis
  proof (cases q)
    case (Inl e)
    from leave [of m1] m1(2) obtain m' where "pm_Dec P HTTPInFlight [] m1 = (Inr (), m')"
      "pm_count P m' = pm_count P m" "pm_value P m' = pm_value P m" by (auto simp: raised_def)
    with m1(1) run path Inl show ?thesis by (simp add: MetricsMiddleware_def go_defer_def)
  next
    case (Inr resp)
    have others: "exact (pm_value P m1 (mf_name f, vs) + 1)" if "mf_name f \<noteq> mf_name HTTPInFlight" for f :: family and vs
      using m1(2) exact_near that by (simp add: raised_def)
    obtain m2 where m2: "observe_response P unmarshal seconds rq resp m1 = (Inr (), m2)"
      "pm_value P m2 = response_values unmarshal rq resp (pm_value P m1)"
      "pm_count P m2 = (let dur = (mf_name HTTPDuration, [rq_method rq, or_default (rq_fullpath rq) ''unmatched''])
         in (pm_count P m1)(dur := pm_count P m1 dur + 1))"
      using observe_response_runs [OF P labels code [OF Inr] others] by blast
    have vals: "pm_value P m2 = (response_values unmarshal rq resp (pm_value P m))(?fly := pm_value P m ?fly + 1)"
      using m1(2) by (simp add: m2(2) raised_def response_values_fly)
    with leave [of m2] obtain m' where "pm_Dec P HTTPInFlight [] m2 = (Inr (), m')" "pm_count P m' = pm_count P m2"
      "pm_value P m' = response_values unmarshal rq resp (pm_value P m)"
      by (auto simp: response_values_same_fly)
    with m1 m2(1,3) run path Inr show ?thesis
      by (simp add: MetricsMiddleware_def go_defer_def go_bind_def raised_def)
  qed
qed


text \<open>A settlement answered with success, then the same request with a handler that panics.\<close>

definition ex_request :: request where
  "ex_request = \<lparr>rq_method = ''POST'', rq_urlpath = ''/api/v1/gbm/trade/settlement'',
     rq_fullpath = ''/api/v1/gbm/trade/settlement'', rq_traceHeader = '''', rq_query = Map.empty,
     rq_body = None, rq_ctx = None, rq_cached = None\<rparr>"

definition ex_body :: string where
  "ex_body = ''{'' @ [CHR 0x22] @ ''code'' @ [CHR 0x22] @ '':'' @ [CHR 0x22] @ ''0000'' @ [CHR 0x22] @ ''}''"

definition ex_unmarshal :: "string \<Rightarrow> json option" where
  "ex_unmarshal s = (if s = ex_body then Some (JObj [(''code'', JStr ''0000'')]) else None)"

lemma requests_witness:
  "\<exists>m1 m2. MetricsMiddleware refPrometheus ex_unmarshal 1 ex_request (go_ret \<lparr>hr_status = 200, hr_writes = [ex_body]\<rparr>)
       ((), (\<lambda>_. 0), (\<lambda>_. 0)) = (Inr \<lparr>hr_status = 200, hr_writes = [ex_body]\<rparr>, (), m1) \<and>
     MetricsMiddleware refPrometheus ex_unmarshal 1 ex_request (go_err nil_deref) ((), m1) = (Inl nil_deref, (), m2) \<and>
     fst m2 (mf_name BizRequests, [''/api/v1/gbm/trade/settlement'', ''0000'']) = 1 \<and> fst m2 (mf_name HTTPInFlight, []) = 0"
proof -
  let ?resp = "\<lparr>hr_status = 200, hr_writes = [ex_body]\<rparr>" and ?V0 = "\<lambda>_::child. 0::int"
  have code: "extractBizCode ex_unmarshal (captured [ex_body]) = ''0000''"
    by (simp add: extractBizCode_def captured_def metricsBodyWriter_Write_def ex_unmarshal_def ex_body_def
        TrimSpace_def isSpaceByte_def json_strings_def lower_def Let_def)
  have vals: "pm_value refPrometheus m = fst m" for m by (simp add: refPrometheus_def)
  have rq: "ascii (rq_method ex_request)" "ascii (rq_fullpath ex_request)" "rq_urlpath ex_request \<noteq> ''/metrics''"
    by (simp_all add: ex_request_def ascii_def)
  have ok: "ascii (extractBizCode ex_unmarshal (captured (hr_writes r)))" if "Inr ?resp = Inr r" for r
    using that code by (auto simp: ascii_def)
  have "\<bar>pm_value refPrometheus (?V0, \<lambda>_. 0) k\<bar> < 2 ^ 53" for k by (simp add: vals)
  note run1 = requests_are_counted [where q = "Inr ?resp" and handler = "go_ret ?resp" and w = "()" and w' = "()"
      and seconds = 1, OF prom_ok_ref rq(1,2) ok this rq(3)]
  from run1 obtain m1 where
    m1: "MetricsMiddleware refPrometheus ex_unmarshal 1 ex_request (go_ret ?resp) ((), ?V0, \<lambda>_. 0) = (Inr ?resp, (), m1)"
    "fst m1 = response_values ex_unmarshal ex_request ?resp ?V0"
    by (auto simp: vals)
  have "response_values ex_unmarshal ex_request ?resp ?V0 k \<le> 1" "0 \<le> response_values ex_unmarshal ex_request ?resp ?V0 k" for k
    by (auto simp: response_values_def code Let_def)
  then have "\<bar>pm_value refPrometheus m1 k\<bar> < 2 ^ 53" for k
    unfolding vals m1(2) by (smt (verit) one_less_numeral_iff one_less_power semiring_norm(76) zero_less_numeral)
  note run2 = requests_are_counted [where q = "Inl nil_deref" and handler = "go_err nil_deref" and w = "()" and w' = "()"
      and seconds = 1 and unmarshal = ex_unmarshal, OF prom_ok_ref rq(1,2) _ this rq(3)]
  from run2 obtain m2 where
    "MetricsMiddleware refPrometheus ex_unmarshal 1 ex_request (go_err nil_deref) ((), m1) = (Inl nil_deref, (), m2)"
    "fst m2 = fst m1" by (auto simp: vals)
  moreover have "fst m1 (mf_name BizRequests, [''/api/v1/gbm/trade/settlement'', ''0000'']) = 1" "fst m1 (mf_name HTTPInFlight, []) = 0"
    unfolding m1(2) by (simp_all add: response_values_def code Let_def ex_request_def or_default_def hasPrefix_def)
  ultimately show ?thesis using m1(1) by (intro exI [of _ m1] exI [of _ m2]) simp
qed

section \<open>A key from the body\<close>

text \<open>
  Taking the key of the rate limit from the body leaves nothing for the controller to bind, which then
  refuses the request; what is kept beside the request is only the user id.
\<close>

lemma body_key_starves_controller:
  assumes "ExtractUserIDFromBody rq = (key, rq')"
  shows "trade_handleLock A (map_option (\<lambda>_. x) (rq_body rq')) w = (Inr (fail_code empty_lock_response ILLEGAL_PARAMETER), w)"
proof -
  have "rq_body rq' = None" using assms by (auto simp: ExtractUserIDFromBody_def split: option.splits)
  then show ?thesis by (simp add: trade_handleLock_def)
qed

text \<open>The id of a request without the header is that of the random bytes: sixteen hexadecimal digits.\<close>

lemma trace_id_length:
  assumes "length rnd = 8" and "rq_traceHeader rq = ''''"
  shows "GetTraceID (fst (TraceMiddleware rnd rq)) = trace_Generate rnd \<and> length (trace_Generate rnd) = 16"
proof -
  have "length (hex bs) = 2 * length bs" for bs by (induction bs rule: hex.induct) simp_all
  then show ?thesis
    using assms by (simp add: TraceMiddleware_def GetTraceID_def FromContext_def SetContext_def generateTraceID_def trace_Generate_def Let_def)
qed

end
