(* ===== verification/Log_Shipping.thy ===== *)
theory Log_Shipping
  imports Middleware "HOL-Library.Sublist"
begin

text \<open>
  The log handler that writes locally and to Logstash (\<open>internal/infrastructure/logx/logstash_handler.go\<close>).
  Its state is whether it has a connection and when it last tried to get one; the clock, the dial and
  the write of one line are an argument, as are the handler it wraps and the encoding of the
  attributes. Its mutex makes every write one step. Times are nanoseconds; a handler that has never
  tried holds the zero time, which lies further back than any pause.
\<close>

section \<open>The handler\<close>

record slog_record =
  sr_time :: string
  sr_level :: string
  sr_msg :: string
  sr_attrs :: "(string \<times> json) list"

text \<open>The handler wrapped: whether a level is enabled, the line it writes locally, and its variants.\<close>

record 'h slog_ops =
  so_Enabled :: "'h \<Rightarrow> trace_context option \<Rightarrow> int \<Rightarrow> bool"
  so_Handle :: "'h \<Rightarrow> trace_context option \<Rightarrow> slog_record \<Rightarrow> string"
  so_WithAttrs :: "'h \<Rightarrow> (string \<times> json) list \<Rightarrow> 'h"
  so_WithGroup :: "'h \<Rightarrow> string \<Rightarrow> 'h"

record 'h LogstashHandler =
  lh_inner :: 'h
  lh_addr :: string
  lh_conn :: bool
  lh_lastTry :: "int option"

definition NewLogstashHandler :: "'h \<Rightarrow> string \<Rightarrow> 'h LogstashHandler" where
  "NewLogstashHandler inner addr =
     \<lparr>lh_inner = inner, lh_addr = or_default addr ''127.0.0.1:4560'', lh_conn = False, lh_lastTry = None\<rparr>"

definition lh_Enabled :: "'h slog_ops \<Rightarrow> trace_context option \<Rightarrow> int \<Rightarrow> 'h LogstashHandler \<Rightarrow> bool" where
  "lh_Enabled H ctx lvl h = so_Enabled H (lh_inner h) ctx lvl"

text \<open>The attributes of a line; those of the record come last and win.\<close>

definition line_attrs :: "trace_context option \<Rightarrow> slog_record \<Rightarrow> string \<rightharpoonup> json" where
  "line_attrs ctx r =
     (let base = [''time'' \<mapsto> JStr (sr_time r), ''level'' \<mapsto> JStr (sr_level r), ''msg'' \<mapsto> JStr (sr_msg r),
            ''service'' \<mapsto> JStr ''group-buy-market''];
          tid = FromContext ctx;
          traced = (if tid \<noteq> '''' then base(''trace_id'' \<mapsto> JStr tid) else base)
      in foldl (\<lambda>m (k, v). m(k \<mapsto> v)) traced (sr_attrs r))"

text \<open>One write: the clock when the pause is tested and when the try is noted, and whether dial and write work.\<close>

record net_env =
  ne_since :: int
  ne_now :: int
  ne_dial :: bool
  ne_write :: bool

datatype net_event = Dial int bool | Sent string | Failed string

definition lh_pause :: int where "lh_pause = 5000000000"

definition lh_send :: "net_env \<Rightarrow> string \<Rightarrow> 'h LogstashHandler \<Rightarrow> 'h LogstashHandler \<times> net_event list" where
  "lh_send e b h = (if ne_write e then (h, [Sent b]) else (h\<lparr>lh_conn := False\<rparr>, [Failed b]))"

definition lh_write :: "net_env \<Rightarrow> string \<Rightarrow> 'h LogstashHandler \<Rightarrow> 'h LogstashHandler \<times> net_event list" where
  "lh_write e b h =
     (if lh_conn h then lh_send e b h
      else if (case lh_lastTry h of None \<Rightarrow> False | Some t \<Rightarrow> ne_since e - t < lh_pause) then (h, [])
      else let h = h\<lparr>lh_lastTry := Some (ne_now e)\<rparr> in
        if \<not> ne_dial e then (h, [Dial (ne_now e) False])
        else case lh_send e b (h\<lparr>lh_conn := True\<rparr>) of (h, evs) \<Rightarrow> (h, Dial (ne_now e) True # evs))"

text \<open>\<open>Handle\<close>: the local line, and what goes out; a record that cannot be encoded goes nowhere.\<close>

definition lh_Handle ::
    "'h slog_ops \<Rightarrow> ((string \<rightharpoonup> json) \<Rightarrow> string option) \<Rightarrow> net_env \<Rightarrow> trace_context option \<Rightarrow> slog_record \<Rightarrow>
     'h LogstashHandler \<Rightarrow> string \<times> 'h LogstashHandler \<times> net_event list" where
  "lh_Handle H marshal e ctx r h =
     (let local = so_Handle H (lh_inner h) ctx r in
      case marshal (line_attrs ctx r) of
        None \<Rightarrow> (local, h, [])
      | Some b \<Rightarrow> (local, lh_write e (b @ [CHR 0x0A]) h))"

definition lh_WithAttrs :: "'h slog_ops \<Rightarrow> (string \<times> json) list \<Rightarrow> 'h LogstashHandler \<Rightarrow> 'h LogstashHandler" where
  "lh_WithAttrs H attrs h =
     \<lparr>lh_inner = so_WithAttrs H (lh_inner h) attrs, lh_addr = lh_addr h, lh_conn = False, lh_lastTry = None\<rparr>"

definition lh_WithGroup :: "'h slog_ops \<Rightarrow> string \<Rightarrow> 'h LogstashHandler \<Rightarrow> 'h LogstashHandler" where
  "lh_WithGroup H name h =
     \<lparr>lh_inner = so_WithGroup H (lh_inner h) name, lh_addr = lh_addr h, lh_conn = False, lh_lastTry = None\<rparr>"

text \<open>\<open>SetupDefault\<close>, and \<open>main\<close>'s choice before it: text, JSON, or JSON and Logstash.\<close>

datatype 'h default_logger = TextLogger | LocalLogger 'h | ShippingLogger "'h LogstashHandler"

definition SetupDefault :: "string \<Rightarrow> 'h \<Rightarrow> 'h default_logger" where
  "SetupDefault addr base =
     (if addr = '''' then LocalLogger base else ShippingLogger (NewLogstashHandler base addr))"

definition main_logger :: "string \<Rightarrow> 'h \<Rightarrow> 'h default_logger" where
  "main_logger addr base = (if addr \<noteq> '''' then SetupDefault addr base else TextLogger)"

lemma main_logger_eq:
  "main_logger addr base = (if addr = '''' then TextLogger else ShippingLogger (NewLogstashHandler base addr))"
  by (simp add: main_logger_def SetupDefault_def)

section \<open>Attributes of a derived logger\<close>

lemma line_attrs_None:
  assumes "k \<notin> {''time'', ''level'', ''msg'', ''service'', ''trace_id''}" and "k \<notin> fst ` set (sr_attrs r)"
  shows "line_attrs ctx r k = None"
proof -
  have "foldl (\<lambda>m (k, v). m(k \<mapsto> v)) m as k = m k" if "k \<notin> fst ` set as" for m and as :: "(string \<times> json) list"
    using that by (induction as arbitrary: m) auto
  with assms show ?thesis by (simp add: line_attrs_def Let_def)
qed

text \<open>
  The attributes a logger was given with \<open>With\<close> are not part of the line that goes out: the handler
  hands them to the one it wraps and keeps none itself.
\<close>

lemma with_attrs_not_shipped:
  assumes "k \<notin> {''time'', ''level'', ''msg'', ''service'', ''trace_id''}" and "k \<notin> fst ` set (sr_attrs r)"
    and "lh_Handle H marshal e ctx r (lh_WithAttrs H [(k, v)] h) = (local, h', evs)" and "Sent line \<in> set evs"
  shows "\<exists>attrs b. attrs k = None \<and> marshal attrs = Some b \<and> line = b @ [CHR 0x0A]"
proof -
  from assms(3,4) have "\<exists>b. marshal (line_attrs ctx r) = Some b \<and> line = b @ [CHR 0x0A]"
    by (auto simp: lh_Handle_def lh_write_def lh_send_def lh_WithAttrs_def Let_def split: option.splits if_splits)
  with line_attrs_None [OF assms(1,2)] show ?thesis by blast
qed

section \<open>A run of writes\<close>

fun lh_run :: "(net_env \<times> string) list \<Rightarrow> 'h LogstashHandler \<Rightarrow> net_event list" where
  "lh_run [] h = []"
| "lh_run ((e, b) # ws) h = (case lh_write e b h of (h', evs) \<Rightarrow> evs @ lh_run ws h')"

fun dials :: "net_event list \<Rightarrow> int list" where
  "dials [] = []"
| "dials (Dial t ok # evs) = t # dials evs"
| "dials (Sent b # evs) = dials evs"
| "dials (Failed b # evs) = dials evs"

fun sent_lines :: "net_event list \<Rightarrow> string list" where
  "sent_lines [] = []"
| "sent_lines (Sent b # evs) = b # sent_lines evs"
| "sent_lines (Dial t ok # evs) = sent_lines evs"
| "sent_lines (Failed b # evs) = sent_lines evs"

lemma dials_append [simp]: "dials (xs @ ys) = dials xs @ dials ys"
  by (induction xs rule: dials.induct) simp_all

lemma sent_append [simp]: "sent_lines (xs @ ys) = sent_lines xs @ sent_lines ys"
  by (induction xs rule: sent_lines.induct) simp_all

text \<open>The clock does not go back, within a write and from one to the next.\<close>

fun clock_runs :: "int \<Rightarrow> (net_env \<times> string) list \<Rightarrow> bool" where
  "clock_runs t [] \<longleftrightarrow> True"
| "clock_runs t ((e, b) # ws) \<longleftrightarrow> t \<le> ne_since e \<and> ne_since e \<le> ne_now e \<and> clock_runs (ne_now e) ws"

lemma lh_write_cases:
  assumes "lh_write e b h = (h', evs)"
  obtains (connected) "lh_conn h" "lh_lastTry h' = lh_lastTry h" "dials evs = []" "sent_lines evs = (if ne_write e then [b] else [])"
      "lh_conn h' = ne_write e"
  | (paused) t where "\<not> lh_conn h" "lh_lastTry h = Some t" "ne_since e < t + lh_pause" "h' = h" "evs = []"
  | (tried) "\<not> lh_conn h" "\<And>t. lh_lastTry h = Some t \<Longrightarrow> t + lh_pause \<le> ne_since e" "lh_lastTry h' = Some (ne_now e)"
      "dials evs = [ne_now e]" "sent_lines evs = (if ne_dial e \<and> ne_write e then [b] else [])"
      "lh_conn h' = (ne_dial e \<and> ne_write e)"
  using assms unfolding lh_write_def lh_send_def Let_def
  by (fastforce split: if_splits option.splits)

lemma dials_spaced:
  assumes "clock_runs now ws" and "\<And>t. lh_lastTry h = Some t \<Longrightarrow> t \<le> now"
  shows "sorted_wrt (\<lambda>a b. a + lh_pause \<le> b) (dials (lh_run ws h)) \<and>
    (\<forall>a \<in> set (dials (lh_run ws h)). \<forall>t. lh_lastTry h = Some t \<longrightarrow> t + lh_pause \<le> a)"
  using assms
proof (induction ws arbitrary: h now)
  case (Cons w ws)
  obtain e b where w: "w = (e, b)" by force
  obtain h' evs where run: "lh_write e b h = (h', evs)" by force
  from Cons.prems(1) have clock: "now \<le> ne_since e" "ne_since e \<le> ne_now e" "clock_runs (ne_now e) ws" by (simp_all add: w)
  from run show ?case
  proof (cases rule: lh_write_cases)
    case connected
    have "t \<le> ne_now e" if "lh_lastTry h' = Some t" for t
      using that Cons.prems(2) connected(2) clock(1,2) by fastforce
    with Cons.IH [OF clock(3), of h'] connected show ?thesis by (simp add: w run)
  next
    case (paused t)
    have "s \<le> ne_now e" if "lh_lastTry h = Some s" for s using that Cons.prems(2) clock(1,2) by fastforce
    with Cons.IH [OF clock(3), of h] paused show ?thesis by (simp add: w run)
  next
    case tried
    have later: "sorted_wrt (\<lambda>a b. a + lh_pause \<le> b) (dials (lh_run ws h'))"
      "\<And>a. a \<in> set (dials (lh_run ws h')) \<Longrightarrow> ne_now e + lh_pause \<le> a"
      using Cons.IH [OF clock(3), of h'] tried(3) by simp_all
    moreover have "0 \<le> lh_pause" by (simp add: lh_pause_def)
    ultimately show ?thesis using tried(2,4) clock(2) by (fastforce simp: w run)
  qed
qed simp

lemma sent_in_order: "subseq (sent_lines (lh_run ws h)) (map snd ws)"
proof (induction ws arbitrary: h)
  case (Cons w ws)
  obtain e b where w: "w = (e, b)" by force
  obtain h' evs where run: "lh_write e b h = (h', evs)" by force
  from run show ?case
    by (cases rule: lh_write_cases) (use Cons [of h'] in \<open>auto simp: w run split: if_splits\<close>)
qed simp

lemma all_sent:
  assumes "\<And>e b. (e, b) \<in> set ws \<Longrightarrow> ne_dial e \<and> ne_write e" and "lh_conn h \<or> lh_lastTry h = None"
  shows "sent_lines (lh_run ws h) = map snd ws"
  using assms
proof (induction ws arbitrary: h)
  case (Cons w ws)
  obtain e b where w: "w = (e, b)" by force
  obtain h' evs where run: "lh_write e b h = (h', evs)" by force
  have ok: "ne_dial e" "ne_write e" using Cons.prems(1) [of e b] by (simp_all add: w)
  from run have "lh_conn h'" "sent_lines evs = [b]"
    by (cases rule: lh_write_cases; use ok Cons.prems(2) in auto)+
  with Cons.IH [of h'] Cons.prems(1) show ?case by (auto simp: w run)
qed simp

text \<open>
  C40. Whatever the network does, the handler dials at most once in five seconds; the lines that go out
  are lines it was given, in their order; and while dialling and writing work it loses none.
\<close>

theorem log_lines_are_shipped:
  assumes "clock_runs now ws"
  shows "sorted_wrt (\<lambda>a b. a + lh_pause \<le> b) (dials (lh_run ws (NewLogstashHandler inner addr))) \<and>
    subseq (sent_lines (lh_run ws (NewLogstashHandler inner addr))) (map snd ws) \<and>
    (list_all (\<lambda>(e, b). ne_dial e \<and> ne_write e) ws \<longrightarrow>
       sent_lines (lh_run ws (NewLogstashHandler inner addr)) = map snd ws)"
proof -
  let ?h = "NewLogstashHandler inner addr"
  have fresh: "lh_lastTry ?h = None" by (simp add: NewLogstashHandler_def)
  have "sorted_wrt (\<lambda>a b. a + lh_pause \<le> b) (dials (lh_run ws ?h))"
    using dials_spaced [OF assms, of ?h] fresh by simp
  moreover have "sent_lines (lh_run ws ?h) = map snd ws" if "list_all (\<lambda>(e, b). ne_dial e \<and> ne_write e) ws"
    using all_sent [of ws ?h] that fresh by (auto simp: list_all_iff)
  ultimately show ?thesis using sent_in_order by blast
qed

text \<open>The server is away, then comes back: one line is lost without a try, the one after it goes out.\<close>

definition ex_writes :: "(net_env \<times> string) list" where
  "ex_writes =
     [(\<lparr>ne_since = 0, ne_now = 0, ne_dial = False, ne_write = True\<rparr>, ''a''),
      (\<lparr>ne_since = 1000000000, ne_now = 1000000000, ne_dial = True, ne_write = True\<rparr>, ''b''),
      (\<lparr>ne_since = 6000000000, ne_now = 6000000000, ne_dial = True, ne_write = True\<rparr>, ''c'')]"

lemma log_lines_witness:
  "dials (lh_run ex_writes (NewLogstashHandler () '''')) = [0, 6000000000] \<and>
   sent_lines (lh_run ex_writes (NewLogstashHandler () '''')) = [''c''] \<and>
   sorted_wrt (\<lambda>a b. a + lh_pause \<le> b) (dials (lh_run ex_writes (NewLogstashHandler () '''')))"
proof -
  have "clock_runs 0 ex_writes" by (simp add: ex_writes_def)
  from log_lines_are_shipped [OF this, of "()" "''''"] show ?thesis
    by (simp add: ex_writes_def lh_write_def lh_send_def NewLogstashHandler_def lh_pause_def)
qed

end
