(* ===== verification/Broker.thy ===== *)
theory Broker
  imports Http_Entry
begin

text \<open>
  The topology the RabbitMQ client declares (\<open>internal/infrastructure/mq/rabbitmq.go\<close>) and where the
  messages of the trade repository go in it, with the topics the wiring hands out. A broker is what
  has been declared: exchanges, queues and bindings. The operations of the amqp package and how a topic
  exchange matches a routing key are parameters; \<open>amqp_ok\<close> states what AMQP 0-9-1 says of them. A
  message that no binding matches is dropped by the broker, as it is not published as mandatory.
\<close>

section \<open>The broker\<close>

record broker =
  bk_exchanges :: "(string \<times> string) list"
  bk_queues :: "string list"
  bk_bindings :: "(string \<times> string \<times> string) list"

record amqp =
  aq_Dial :: "string \<Rightarrow> string option"
  aq_Channel :: "string option"
  aq_ExchangeDeclare :: "string \<Rightarrow> string \<Rightarrow> (broker, unit) go"
  aq_QueueDeclare :: "string \<Rightarrow> (broker, string) go"
  aq_QueueBind :: "string \<Rightarrow> string \<Rightarrow> string \<Rightarrow> (broker, unit) go"
  aq_Qos :: "(broker, unit) go"
  aq_matches :: "string \<Rightarrow> string \<Rightarrow> bool"
  aq_publish :: "string \<Rightarrow> string \<Rightarrow> json \<Rightarrow> go_error option"
  aq_consume :: "string \<Rightarrow> go_error option"

text \<open>A binding key without \<open>*\<close> and \<open>#\<close>: it matches itself alone.\<close>

definition plain_key :: "string \<Rightarrow> bool" where
  "plain_key k \<longleftrightarrow> CHR ''*'' \<notin> set k \<and> CHR ''#'' \<notin> set k"

definition amqp_ok :: "amqp \<Rightarrow> bool" where
  "amqp_ok A \<longleftrightarrow>
     (\<forall>x k b b'. aq_ExchangeDeclare A x k b = (Inr (), b') \<longrightarrow>
        b' = b\<lparr>bk_exchanges := List.insert (x, k) (bk_exchanges b)\<rparr>) \<and>
     (\<forall>q b n b'. aq_QueueDeclare A q b = (Inr n, b') \<longrightarrow>
        (q \<noteq> '''' \<longrightarrow> n = q) \<and> b' = b\<lparr>bk_queues := List.insert n (bk_queues b)\<rparr>) \<and>
     (\<forall>q k x b b'. aq_QueueBind A q k x b = (Inr (), b') \<longrightarrow>
        b' = b\<lparr>bk_bindings := List.insert (q, k, x) (bk_bindings b)\<rparr>) \<and>
     (\<forall>n b b'. aq_Qos A b = (Inr n, b') \<longrightarrow> b' = b) \<and>
     (\<forall>k k'. plain_key k \<longrightarrow> aq_matches A k k' = (k = k'))"

text \<open>The queues a message published with a routing key is put into.\<close>

definition routed :: "amqp \<Rightarrow> broker \<Rightarrow> string \<Rightarrow> string \<Rightarrow> string set" where
  "routed A b x key = {q. \<exists>k. (q, k, x) \<in> set (bk_bindings b) \<and> aq_matches A k key}"

section \<open>The client\<close>

text \<open>\<open>declare\<close>: the exchange, then each topic's queue and its binding, then the prefetch limit.\<close>

fun declare_topics :: "amqp \<Rightarrow> string \<Rightarrow> TopicConfig list \<Rightarrow> (broker, unit) go" where
  "declare_topics A x [] = go_ret ()"
| "declare_topics A x (t # ts) =
     go_bind (aq_QueueDeclare A (tp_Queue t))
       (\<lambda>q. go_bind (aq_QueueBind A q (tp_RoutingKey t) x) (\<lambda>_. declare_topics A x ts))"

definition mq_declare :: "amqp \<Rightarrow> mq_Config \<Rightarrow> (broker, unit) go" where
  "mq_declare A cfg =
     go_bind (aq_ExchangeDeclare A (mqc_Exchange cfg) ''topic'')
       (\<lambda>_. go_bind (declare_topics A (mqc_Exchange cfg) [mqc_TeamSuccess cfg, mqc_TeamRefund cfg])
          (\<lambda>_. aq_Qos A))"

text \<open>Closing what a failed start has opened leaves the broker as it is.\<close>

definition mq_NewClient :: "amqp \<Rightarrow> mq_Config \<Rightarrow> (broker, mq_Client) go" where
  "mq_NewClient A cfg0 =
     (let cfg = mq_NewClient_config cfg0 in
      case aq_Dial A (mqc_URL cfg) of
        Some err \<Rightarrow> go_err (OtherError (''rabbitmq dial: '' @ err))
      | None \<Rightarrow>
          (case aq_Channel A of
             Some err \<Rightarrow> go_err (OtherError (''rabbitmq channel: '' @ err))
           | None \<Rightarrow>
               go_bind (mq_declare A cfg)
                 (\<lambda>_. go_ret \<lparr>cl_cfg = cfg, cl_publish = aq_publish A, cl_consume = aq_consume A\<rparr>)))"

text \<open>The wiring goes on without a client when connecting fails.\<close>

definition wire_mq_client :: "amqp \<Rightarrow> Config \<Rightarrow> broker \<Rightarrow> mq_Client option \<times> broker" where
  "wire_mq_client A cfg b =
     (case mq_NewClient A (wire_mq_config cfg) b of
        (Inl err, b') \<Rightarrow> (None, b')
      | (Inr c, b') \<Rightarrow> (Some c, b'))"

section \<open>What has been declared\<close>

lemma amqp_okD:
  assumes "amqp_ok A"
  shows "aq_ExchangeDeclare A x k b = (Inr u, b') \<Longrightarrow> bk_bindings b' = bk_bindings b"
    and "aq_QueueDeclare A q b = (Inr n, b') \<Longrightarrow> q \<noteq> '''' \<Longrightarrow> n = q \<and> bk_bindings b' = bk_bindings b"
    and "aq_QueueBind A q k x b = (Inr u, b') \<Longrightarrow> set (bk_bindings b') = insert (q, k, x) (set (bk_bindings b))"
    and "aq_Qos A b = (Inr u, b') \<Longrightarrow> b' = b"
    and "plain_key k \<Longrightarrow> aq_matches A k k' = (k = k')"
  using assms by (fastforce simp: amqp_ok_def)+

lemma declare_topics_bindings:
  assumes "amqp_ok A" and "declare_topics A x ts b = (Inr u, b')" and "\<And>t. t \<in> set ts \<Longrightarrow> tp_Queue t \<noteq> ''''"
  shows "set (bk_bindings b') = (\<lambda>t. (tp_Queue t, tp_RoutingKey t, x)) ` set ts \<union> set (bk_bindings b)"
  using assms(2,3)
proof (induction ts arbitrary: b)
  case (Cons t ts)
  from Cons.prems(1) obtain q b1 b2 u' where q: "aq_QueueDeclare A (tp_Queue t) b = (Inr q, b1)"
    and bind: "aq_QueueBind A q (tp_RoutingKey t) x b1 = (Inr u', b2)" and ts: "declare_topics A x ts b2 = (Inr u, b')"
    by (auto elim!: go_bind_Inr_cases)
  from Cons.IH [OF ts] Cons.prems(2) amqp_okD(2) [OF assms(1) q] amqp_okD(3) [OF assms(1) bind] show ?case by auto
qed simp

lemma NewClient_bindings:
  assumes A: "amqp_ok A" and run: "mq_NewClient A cfg b = (Inr c, b')"
  shows "cl_cfg c = mq_NewClient_config cfg \<and> set (bk_bindings b') =
    {(TeamSuccessQueue c, TeamSuccessKey c, mq_Exchange c), (TeamRefundQueue c, TeamRefundKey c, mq_Exchange c)}
      \<union> set (bk_bindings b)"
proof -
  let ?cfg = "mq_NewClient_config cfg"
  from run obtain u b1 b2 b3 u1 where c: "c = \<lparr>cl_cfg = ?cfg, cl_publish = aq_publish A, cl_consume = aq_consume A\<rparr>"
    and x: "aq_ExchangeDeclare A (mqc_Exchange ?cfg) ''topic'' b = (Inr u, b1)"
    and ts: "declare_topics A (mqc_Exchange ?cfg) [mqc_TeamSuccess ?cfg, mqc_TeamRefund ?cfg] b1 = (Inr u1, b2)"
    and qos: "\<exists>u. aq_Qos A b2 = (Inr u, b')"
    by (auto simp: mq_NewClient_def mq_declare_def Let_def simp del: declare_topics.simps split: option.splits elim!: go_bind_Inr_cases)
  have "tp_Queue t \<noteq> ''''" if "t \<in> set [mqc_TeamSuccess ?cfg, mqc_TeamRefund ?cfg]" for t
    using that by (auto simp: mq_NewClient_config_def or_default_def split: if_splits)
  moreover from qos amqp_okD(4) [OF A] have "b' = b2" by blast
  ultimately show ?thesis
    using declare_topics_bindings [OF A ts] amqp_okD(1) [OF A x]
    by (auto simp: c TeamSuccessQueue_def TeamRefundQueue_def TeamSuccessKey_def TeamRefundKey_def mq_Exchange_def)
qed

lemma NewClient_routed:
  assumes A: "amqp_ok A" and run: "mq_NewClient A cfg b = (Inr c, b')"
    and own: "\<forall>(q, k, x) \<in> set (bk_bindings b). x \<noteq> mq_Exchange c"
    and plain: "plain_key (TeamSuccessKey c)" "plain_key (TeamRefundKey c)"
  shows "q \<in> routed A b' (mq_Exchange c) key \<longleftrightarrow>
    q = TeamSuccessQueue c \<and> key = TeamSuccessKey c \<or> q = TeamRefundQueue c \<and> key = TeamRefundKey c"
proof -
  have "(q, k, mq_Exchange c) \<in> set (bk_bindings b') \<longleftrightarrow>
      q = TeamSuccessQueue c \<and> k = TeamSuccessKey c \<or> q = TeamRefundQueue c \<and> k = TeamRefundKey c" for k
    using NewClient_bindings [OF A run] own by auto
  with amqp_okD(5) [OF A plain(1)] amqp_okD(5) [OF A plain(2)] show ?thesis by (auto simp: routed_def)
qed

section \<open>From a refund to the place it gives back\<close>

text \<open>
  The topics agree when the topic the repository writes into refund tasks, or the key the adapter puts
  for an empty one, is the key the refund queue is bound with.
\<close>

definition topics_agree :: "Config \<Rightarrow> bool" where
  "topics_agree cfg \<longleftrightarrow>
     (let topic = cnf_TopicTeamRefund (cfg_Notify cfg); key = tp_RoutingKey (crb_TeamRefund (cfg_RabbitMQ cfg))
      in if topic = '''' then key = ''topic.team_success'' else key = '''' \<or> key = topic)"

definition task_routing_key :: "NotifyTaskEntity \<Rightarrow> string" where
  "task_routing_key t = (if nt_NotifyMQ t = '''' then ''topic.team_success'' else nt_NotifyMQ t)"

text \<open>The broker hands a published message to the consumers of the queues it is routed to.\<close>

fun deliver ::
    "amqp \<Rightarrow> broker \<Rightarrow> string \<Rightarrow> (string \<times> (json option \<Rightarrow> ('w, unit) go)) list \<Rightarrow> string \<times> json \<Rightarrow> 'w \<Rightarrow> 'w" where
  "deliver A b x [] m w = w"
| "deliver A b x ((q, h) # cs) m w =
     deliver A b x cs m (if q \<in> routed A b x (fst m) then snd (consume_one h (Some (snd m)) w) else w)"

lemma topics_agree_key:
  assumes "cl_cfg c = mq_NewClient_config (wire_mq_config cfg)"
  shows "TeamRefundKey c = (if cnf_TopicTeamRefund (cfg_Notify cfg) = '''' then ''topic.team_success''
    else cnf_TopicTeamRefund (cfg_Notify cfg)) \<longleftrightarrow> topics_agree cfg"
  using assms by (auto simp: TeamRefundKey_def mq_NewClient_config_def wire_mq_config_def or_default_def
      topics_agree_def Let_def)

lemma refund_handled:
  assumes R: "redis_ok (rp_redis r)" "redis_up (rp_redis r)"
    and K: "stock_ok (ro_ActivityID o1) (ro_TeamID o1) (w_redis w)"
    and room: "recovered (ro_ActivityID o1) (ro_TeamID o1) (w_redis w) + 1 < int64_max"
    and fresh: "w_redis w (refund_lock_key (ro_OrderID o1)) = None" "ro_OrderID o1 \<noteq> ''''"
    and rt: "GetRefundStrategy ts os = Inr rt"
  shows "recovered (ro_ActivityID o1) (ro_TeamID o1) (w_redis (snd (consume_one
      (team_refund_handler (all_strategies (NewTradeRepository r E) spawn))
      (Some (t_ParameterJSON (refund_task r E1 o1 category (rt_Code rt)))) w))) =
    recovered (ro_ActivityID o1) (ro_TeamID o1) (w_redis w) + 1"
  using consume_refund [OF message_of_refund_task, where rt = rt and r = r and E = E and spawn = spawn]
    GetRefundTypeByCode_rt_Code [OF rt] Refund2AddRecovery_up [OF R K room fresh(2)] fresh(1)
  by (simp add: consume_one_def on_redis_def)

lemma refund_task_sent:
  assumes "acl_send http (Some c) (toNotifyEntity (refund_task r E o1 category ty)) w = (Inr s, w')"
  shows "w' = w\<lparr>w_mq := w_mq w @ [(task_routing_key (toNotifyEntity (refund_task r E o1 category ty)),
    t_ParameterJSON (refund_task r E o1 category ty))]\<rparr>"
  using assms
  by (cases rule: acl_send_cases)
    (simp_all add: toNotifyEntity_def refund_task_def task_routing_key_def NotifyHTTP_def NotifyMQ_def)

section \<open>Properties\<close>

text \<open>
  C38. Take a program whose client has two distinct queues, routing keys without wildcards and an
  exchange to which nothing was bound before, whose consumers have started, with Redis up, the
  refund lock of the order free and the counters of its team in order and below their limit. A
  refund whose message the broker has accepted gives its place back exactly when the topics of the
  configuration agree: then the message reaches the refund consumer and raises the recovered places
  of the team by one, else it is acknowledged by another consumer or dropped and no place comes
  back.
\<close>

theorem refund_place_returns_iff_topics_agree:
  assumes A: "amqp_ok A" and client: "wire_mq_client A cfg b = (Some c, b')"
    and own: "\<forall>(q, k, x) \<in> set (bk_bindings b). x \<noteq> mq_Exchange c"
    and plain: "plain_key (TeamSuccessKey c)" "plain_key (TeamRefundKey c)"
    and apart: "TeamSuccessQueue c \<noteq> TeamRefundQueue c"
    and r: "r = wire_trade_repository M R cfg" and up: "redis_ok R" "redis_up R"
    and started: "StartConsumers (Some c) (all_strategies (NewTradeRepository r E) spawn) = (consumers, Inr ())"
    and rt: "GetRefundStrategy ts os = Inr rt"
    and sent: "acl_send http (Some c) (toNotifyEntity (refund_task r E1 o1 category (rt_Code rt))) w = (Inr s, w1)"
    and K: "stock_ok (ro_ActivityID o1) (ro_TeamID o1) (w_redis w)"
    and room: "recovered (ro_ActivityID o1) (ro_TeamID o1) (w_redis w) + 1 < int64_max"
    and fresh: "w_redis w (refund_lock_key (ro_OrderID o1)) = None" "ro_OrderID o1 \<noteq> ''''"
  shows "\<exists>m. w_mq w1 = w_mq w @ [m] \<and>
    recovered (ro_ActivityID o1) (ro_TeamID o1) (w_redis (deliver A b' (mq_Exchange c) consumers m w1)) =
      recovered (ro_ActivityID o1) (ro_TeamID o1) (w_redis w) + (if topics_agree cfg then 1 else 0)"
proof -
  let ?task = "refund_task r E1 o1 category (rt_Code rt)"
  let ?key = "task_routing_key (toNotifyEntity ?task)"
  let ?h = "team_refund_handler (all_strategies (NewTradeRepository r E) spawn)"
  from client have new: "mq_NewClient A (wire_mq_config cfg) b = (Inr c, b')"
    by (auto simp: wire_mq_client_def split: prod.splits sum.splits)
  note decl = NewClient_bindings [OF A new]
  from refund_task_sent [OF sent] have w1: "w1 = w\<lparr>w_mq := w_mq w @ [(?key, t_ParameterJSON ?task)]\<rparr>" .
  have "?key = (if cnf_TopicTeamRefund (cfg_Notify cfg) = '''' then ''topic.team_success''
      else cnf_TopicTeamRefund (cfg_Notify cfg))"
    by (simp add: task_routing_key_def toNotifyEntity_def refund_task_def r wire_trade_repository_def)
  moreover have "TeamRefundQueue c \<in> routed A b' (mq_Exchange c) ?key \<longleftrightarrow> TeamRefundKey c = ?key"
    using apart NewClient_routed [OF A new own plain] by auto
  ultimately have goes: "TeamRefundQueue c \<in> routed A b' (mq_Exchange c) ?key \<longleftrightarrow> topics_agree cfg"
    using topics_agree_key [of c cfg] decl by simp
  have cs: "consumers = [(TeamSuccessQueue c, team_success_handler), (TeamRefundQueue c, ?h)]"
    using started by (simp add: StartConsumers_def split: option.splits)
  have "deliver A b' (mq_Exchange c) consumers (?key, t_ParameterJSON ?task) w1 =
      (if topics_agree cfg then snd (consume_one ?h (Some (t_ParameterJSON ?task)) w1) else w1)"
    using goes by (simp add: cs consume_one_def team_success_handler_def)
  moreover have "recovered (ro_ActivityID o1) (ro_TeamID o1)
      (w_redis (snd (consume_one ?h (Some (t_ParameterJSON ?task)) w1))) =
    recovered (ro_ActivityID o1) (ro_TeamID o1) (w_redis w) + 1"
    using refund_handled [where w = w1, OF _ _ _ _ _ fresh(2) rt] up K room fresh(1)
    by (simp add: r wire_trade_repository_def w1)
  ultimately show ?thesis by (intro exI [of _ "(?key, t_ParameterJSON ?task)"]) (simp add: w1)
qed

text \<open>A broker that accepts everything, and a topic exchange.\<close>

fun topic_matches :: "string list \<Rightarrow> string list \<Rightarrow> bool" where
  "topic_matches [] ws = (ws = [])"
| "topic_matches (p # ps) ws =
     (if p = ''#'' then topic_matches ps ws \<or> (case ws of [] \<Rightarrow> False | v # vs \<Rightarrow> topic_matches (p # ps) vs)
      else case ws of [] \<Rightarrow> False | v # vs \<Rightarrow> (p = ''*'' \<or> p = v) \<and> topic_matches ps vs)"

definition refAmqp :: amqp where
  "refAmqp =
     \<lparr>aq_Dial = (\<lambda>_. None), aq_Channel = None,
      aq_ExchangeDeclare = (\<lambda>x k b. (Inr (), b\<lparr>bk_exchanges := List.insert (x, k) (bk_exchanges b)\<rparr>)),
      aq_QueueDeclare = (\<lambda>q b. (Inr q, b\<lparr>bk_queues := List.insert q (bk_queues b)\<rparr>)),
      aq_QueueBind = (\<lambda>q k x b. (Inr (), b\<lparr>bk_bindings := List.insert (q, k, x) (bk_bindings b)\<rparr>)),
      aq_Qos = (\<lambda>b. (Inr (), b)),
      aq_matches = (\<lambda>k k'. topic_matches (splitOn CHR ''.'' k) (splitOn CHR ''.'' k')),
      aq_publish = (\<lambda>_ _ _. None), aq_consume = (\<lambda>_. None)\<rparr>"

lemma splitOn_chars: "p \<in> set (splitOn c s) \<Longrightarrow> set p \<subseteq> set s"
  by (induction s arbitrary: p) (fastforce split: if_splits list.splits)+

lemma splitOn_inject: "splitOn c s = splitOn c t \<Longrightarrow> s = t"
proof (induction s arbitrary: t)
  case Nil
  moreover have "[] \<noteq> splitOn c u" for u by (metis splitOn_nonempty)
  ultimately show ?case by (cases t) (auto split: if_splits list.splits)
next
  case (Cons x s)
  then show ?case by (cases t) (auto split: if_splits list.splits)
qed

lemma topic_matches_plain: "\<forall>p \<in> set ps. p \<noteq> ''*'' \<and> p \<noteq> ''#'' \<Longrightarrow> topic_matches ps ws \<longleftrightarrow> ps = ws"
  by (induction ps arbitrary: ws) (auto split: list.splits)

lemma amqp_ok_ref: "amqp_ok refAmqp"
proof -
  have "\<forall>p \<in> set (splitOn CHR ''.'' k). p \<noteq> ''*'' \<and> p \<noteq> ''#''" if "plain_key k" for k
    using that splitOn_chars [of _ "CHR ''.''" k] by (fastforce simp: plain_key_def)
  then show ?thesis
    by (auto simp: amqp_ok_def refAmqp_def topic_matches_plain dest: splitOn_inject)
qed

text \<open>The configuration files of the repository, and one without the topic of refunds.\<close>

definition ex_topic_config :: "string \<Rightarrow> Config" where
  "ex_topic_config topic =
     \<lparr>cfg_Server = \<lparr>csv_Port = 8091, csv_Mode = ''release''\<rparr>,
      cfg_MySQL = \<lparr>cmy_DSN = '''', cmy_MaxIdle = 10, cmy_MaxOpen = 25\<rparr>,
      cfg_Redis = \<lparr>crd_Addr = ''redis:6379'', crd_Password = '''', crd_DB = 0\<rparr>,
      cfg_RabbitMQ =
        \<lparr>crb_URL = ''amqp'', crb_Exchange = ''group_buy_market_exchange'',
         crb_TeamSuccess = \<lparr>tp_RoutingKey = ''topic.team_success'', tp_Queue = ''success''\<rparr>,
         crb_TeamRefund = \<lparr>tp_RoutingKey = ''topic.team_refund'', tp_Queue = ''refund''\<rparr>\<rparr>,
      cfg_DCC = \<lparr>cdc_DowngradeSwitch = ''0'', cdc_CutRange = ''100'', cdc_SCBlacklist = ''s02c02'', cdc_CacheSwitch = ''0''\<rparr>,
      cfg_Notify = \<lparr>cnf_TopicTeamSuccess = ''topic.team_success'', cnf_TopicTeamRefund = topic, cnf_HTTPTimeoutSec = 5\<rparr>,
      cfg_Job = \<lparr>cjb_NotifyIntervalSec = 30, cjb_TimeoutRefundIntervalSec = 60\<rparr>,
      cfg_RateLimit = \<lparr>crl_IndexQPS = 10, crl_Burst = 5\<rparr>\<rparr>"

definition ex_client :: mq_Client where
  "ex_client = \<lparr>cl_cfg = mq_NewClient_config (wire_mq_config (ex_topic_config '''')),
     cl_publish = aq_publish refAmqp, cl_consume = aq_consume refAmqp\<rparr>"

definition ex_broker :: broker where
  "ex_broker = \<lparr>bk_exchanges = [(''group_buy_market_exchange'', ''topic'')], bk_queues = [''refund'', ''success''],
     bk_bindings = [(''refund'', ''topic.team_refund'', ''group_buy_market_exchange''),
       (''success'', ''topic.team_success'', ''group_buy_market_exchange'')]\<rparr>"

lemma ex_wire_client:
  "wire_mq_client refAmqp (ex_topic_config topic) \<lparr>bk_exchanges = [], bk_queues = [], bk_bindings = []\<rparr> =
     (Some ex_client, ex_broker)"
  by (simp add: wire_mq_client_def mq_NewClient_def mq_declare_def refAmqp_def wire_mq_config_def ex_topic_config_def
      mq_NewClient_config_def or_default_def Let_def go_bind_def ex_client_def ex_broker_def)

lemma ex_refund_sent:
  "\<exists>w1. acl_send http (Some ex_client) (toNotifyEntity (refund_task r E1 o1 category ty)) w =
     (Inr NotifyTaskHTTPSuccess, w1)"
  by (simp add: acl_send_def toNotifyEntity_def refund_task_def NotifyHTTP_def NotifyMQ_def Let_def
      EventPublisher_Publish_def mq_Client_Publish_def ex_client_def refAmqp_def go_bind_def)

text \<open>The message of one refund under a topic of the configuration, and what its delivery gives back.\<close>

definition ex_topic_repo :: "string \<Rightarrow> TradeRepository" where
  "ex_topic_repo topic = wire_trade_repository refMySQL refRedis (ex_topic_config topic)"

definition ex_sent :: "string \<Rightarrow> world \<Rightarrow> bool" where
  "ex_sent topic w1 \<longleftrightarrow>
     acl_send (\<lambda>_ _. Answered 200) (Some ex_client) (toNotifyEntity (refund_task (ex_topic_repo topic) (ex_env 1)
       (ex_refund ''ann'' ''111111111111'') TaskTradePaid2Refund (rt_Code RefundPaidUnformed))) ex_world =
     (Inr NotifyTaskHTTPSuccess, w1)"

definition ex_back :: "string \<Rightarrow> string \<times> json \<Rightarrow> world \<Rightarrow> int" where
  "ex_back topic m w =
     recovered 100123 ''11111111'' (w_redis (deliver refAmqp ex_broker (mq_Exchange ex_client)
       (fst (StartConsumers (Some ex_client) (all_strategies (NewTradeRepository (ex_topic_repo topic) (ex_env 1)) None)))
       m w))"

lemma refund_place_witness:
  "\<exists>w1 m1 w2 m2. ex_sent ''topic.team_refund'' w1 \<and> w_mq w1 = [m1] \<and> ex_back ''topic.team_refund'' m1 w1 = 1 \<and>
     ex_sent '''' w2 \<and> w_mq w2 = [m2] \<and> ex_back '''' m2 w2 = 0"
proof -
  have K: "w_redis ex_world = Map.empty" "w_mq ex_world = []" by (simp_all add: ex_world_def)
  have plain: "plain_key (TeamSuccessKey ex_client)" "plain_key (TeamRefundKey ex_client)"
      "TeamSuccessQueue ex_client \<noteq> TeamRefundQueue ex_client"
    by (simp_all add: plain_key_def TeamSuccessKey_def TeamRefundKey_def TeamSuccessQueue_def TeamRefundQueue_def
        ex_client_def mq_NewClient_config_def or_default_def wire_mq_config_def ex_topic_config_def)
  have rt: "GetRefundStrategy 0 1 = Inr RefundPaidUnformed" by (simp add: GetRefundStrategy_def)
  have main: "\<exists>w1 m. ex_sent topic w1 \<and> w_mq w1 = [m] \<and>
      ex_back topic m w1 = (if topics_agree (ex_topic_config topic) then 1 else 0)" for topic
  proof -
    obtain w1 where sent: "ex_sent topic w1" using ex_refund_sent unfolding ex_sent_def by blast
    have started: "StartConsumers (Some ex_client) st = (fst (StartConsumers (Some ex_client) st), Inr ())"
      for st :: "world StrategyMap"
      by (simp add: StartConsumers_def ex_client_def refAmqp_def)
    from refund_place_returns_iff_topics_agree [OF amqp_ok_ref ex_wire_client _ plain ex_topic_repo_def
        redis_ok_ref redis_up_ref started rt sent [unfolded ex_sent_def]]
      fresh_stock_ok [OF ex_stock_fresh] K sent
    show ?thesis by (auto simp: ex_refund_def int64_max_def ex_back_def recovered_def)
  qed
  from main [of "''topic.team_refund''"] main [of "''''"] show ?thesis
    by (simp add: topics_agree_def ex_topic_config_def Let_def)
qed

end
