(* ===== verification/Wiring.thy ===== *)
theory Wiring
  imports Workers Log_Shipping Broker
begin

text \<open>
  The assembled program (\<open>internal/app/wire.go\<close>, \<open>cmd/server/main.go\<close> and the \<open>Register\<close> functions of
  \<open>trigger/http\<close>): what is opened and composed at the start, in which order, and what happens when a part
  is not there; what serves a request from the router to the use case; what a run of the whole does to
  the market. Opening MySQL, the client of Redis, the amqp package and whether gin's router accepts the
  routes are parameters.
\<close>

section \<open>Routes\<close>

text \<open>What answers a route: the metrics page, the static documents, the handlers of the controllers.\<close>

datatype endpoint =
    EpMetrics | EpOpenAPI | EpTestRedirect | EpSwaggerIndex | EpIndexQuery | EpLock | EpSettlement | EpRefund
  | EpDccQuery | EpDccUpdateConfig | EpDccUpdate | EpTagBatch | EpTestNotify | EpHealth

datatype route = Route string string endpoint | StaticDir string string

definition route_group :: "string \<Rightarrow> (string \<times> string \<times> endpoint) list \<Rightarrow> route list" where
  "route_group base rs = map (\<lambda>(m, p, h). Route m (base @ p) h) rs"

definition swaggerDir :: "string \<Rightarrow> string" where
  "swaggerDir webRoot = webRoot @ ''/swagger''"

definition RegisterStatic :: "string \<Rightarrow> route list" where
  "RegisterStatic webRoot0 =
     (let webRoot = or_default webRoot0 ''web/static'' in
      [Route ''GET'' ''/openapi.yaml'' EpOpenAPI, Route ''GET'' ''/'' EpTestRedirect, Route ''GET'' ''/test'' EpTestRedirect,
       StaticDir ''/test'' webRoot, StaticDir ''/swagger'' (swaggerDir webRoot), Route ''GET'' ''/swagger/'' EpSwaggerIndex])"

text \<open>The answers of the static routes; \<open>present\<close> tells which files there are.\<close>

datatype static_answer = File string | Redirect string | NotFound string

definition openapi_answer :: "(string \<Rightarrow> bool) \<Rightarrow> static_answer" where
  "openapi_answer present =
     (case find present [''docs/openapi.yaml'', ''../docs/openapi.yaml''] of
        Some p \<Rightarrow> File p
      | None \<Rightarrow> NotFound ''openapi.yaml not found'')"

definition test_redirect :: static_answer where
  "test_redirect = Redirect ''/test/''"

definition swagger_index :: "string \<Rightarrow> static_answer" where
  "swagger_index webRoot = File (swaggerDir webRoot @ ''/index.html'')"

definition index_Register :: "route list" where
  "index_Register = route_group ''/api/v1/gbm/index'' [(''POST'', ''/query_group_buy_market_config'', EpIndexQuery)]"

definition trade_Register :: "route list" where
  "trade_Register = route_group ''/api/v1/gbm/trade''
     [(''POST'', ''/lock_market_pay_order'', EpLock), (''POST'', ''/settlement_market_pay_order'', EpSettlement),
      (''POST'', ''/refund_market_pay_order'', EpRefund)]"

definition dcc_Register :: "route list" where
  "dcc_Register = route_group ''/api/v1/gbm/dcc''
     [(''GET'', ''/query'', EpDccQuery), (''GET'', ''/update_config'', EpDccUpdateConfig), (''POST'', ''/update'', EpDccUpdate)]"

definition tag_Register :: "route list" where
  "tag_Register = route_group ''/api/v1/gbm/tag''
     [(''GET'', ''/exec_tag_batch_job'', EpTagBatch), (''POST'', ''/exec_tag_batch_job'', EpTagBatch)]"

definition test_Register :: "route list" where
  "test_Register = [Route ''POST'' ''/api/v1/test/group_buy_notify'' EpTestNotify, Route ''GET'' ''/health'' EpHealth]"

definition test_GroupBuyNotify :: "string Response" where
  "test_GroupBuyNotify = Success ''success''"

definition health_answer :: json where
  "health_answer = JObj [(''status'', JStr ''up'')]"

section \<open>The middlewares\<close>

text \<open>
  The order they are registered in: a request goes through the recovery, whose answer to a panic
  \<open>recovery\<close> is gin's, then through the trace id and the metrics to its handler.
\<close>

definition engine_serve ::
    "'m prometheus \<Rightarrow> (string \<Rightarrow> json option) \<Rightarrow> (go_error \<Rightarrow> http_response) \<Rightarrow> 8 word list \<Rightarrow> rat \<Rightarrow>
     (request \<Rightarrow> ('w, http_response) go) \<Rightarrow> request \<Rightarrow> 'w \<times> 'm \<Rightarrow> (http_response \<times> string \<times> string) \<times> 'w \<times> 'm" where
  "engine_serve P unmarshal recovery rnd secs handler rq s =
     (case TraceMiddleware rnd rq of
        (rq', header) \<Rightarrow>
          (case MetricsMiddleware P unmarshal secs rq' (handler rq') s of
             (Inl e, s') \<Rightarrow> ((recovery e, header), s')
           | (Inr resp, s') \<Rightarrow> ((resp, header), s')))"

text \<open>The caller is told the id the handlers see, and it is the one it sent, if it sent one.\<close>

lemma engine_trace:
  assumes "engine_serve P unmarshal recovery rnd secs handler rq s = ((resp, name, tid), s')"
  shows "name = TraceIDHeader \<and> tid = GetTraceID (fst (TraceMiddleware rnd rq)) \<and>
    (rq_traceHeader rq \<noteq> '''' \<longrightarrow> tid = rq_traceHeader rq)"
  using assms by (auto simp: engine_serve_def TraceMiddleware_def GetTraceID_def FromContext_def SetContext_def Let_def
      split: prod.splits sum.splits)

section \<open>The start\<close>

record sql_pool =
  sp_MaxIdle :: "int option"
  sp_MaxOpen :: "int option"
  sp_MaxLifetime :: int

text \<open>A limit is set only when it is positive; the life time is an hour, in seconds.\<close>

definition sql_pool_of :: "MySQLConfig \<Rightarrow> sql_pool" where
  "sql_pool_of c =
     \<lparr>sp_MaxIdle = (if cmy_MaxIdle c > 0 then Some (cmy_MaxIdle c) else None),
      sp_MaxOpen = (if cmy_MaxOpen c > 0 then Some (cmy_MaxOpen c) else None), sp_MaxLifetime = 3600\<rparr>"

definition NewGroupBuyNotifyService_timeout :: "int \<Rightarrow> int64" where
  "NewGroupBuyNotifyService_timeout timeoutSec = seconds (if timeoutSec \<le> 0 then 5 else timeoutSec)"

record start_env =
  se_Open :: "string \<Rightarrow> string option"
  se_DB :: "go_error option"
  se_mysql :: mysql
  se_connect :: "redis_options \<Rightarrow> redis"
  se_amqp :: amqp
  se_envInstance :: string
  se_pid :: int
  se_router :: "route list \<Rightarrow> string option"

record 'l application =
  ap_Config :: Config
  ap_pool :: sql_pool
  ap_repository :: TradeRepository
  ap_tags :: TagRepository
  ap_MQ :: "mq_Client option"
  ap_DCC :: dcc
  ap_httpTimeout :: int64
  ap_consumers :: "call_env \<Rightarrow> (string \<times> (json option \<Rightarrow> (world, unit) go)) list"
  ap_debug :: bool
  ap_routes :: "route list"
  ap_rate :: "'l RateLimitStore"
  ap_notifyJob :: worker
  ap_timeoutJob :: worker
  ap_collectors :: Collectors

definition wire_routes :: "route list" where
  "wire_routes = Route ''GET'' ''/metrics'' EpMetrics # RegisterStatic ''web/static'' @ index_Register @ trade_Register @
     dcc_Register @ tag_Register @ test_Register"

text \<open>The strategies the refund service and the consumers share.\<close>

definition wire_strategies :: "TradeRepository \<Rightarrow> call_env \<Rightarrow> world StrategyMap" where
  "wire_strategies r E = all_strategies (NewTradeRepository r E) (Some safego_Go)"

text \<open>
  Only MySQL is required: without Redis, without RabbitMQ and without a consumer the program starts and
  warns. A route the router does not accept is a panic.
\<close>

definition NewApplication :: "start_env \<Rightarrow> Config \<Rightarrow> (keyspace \<times> broker, 'l application) go" where
  "NewApplication se cfg s =
     (case se_Open se (cmy_DSN (cfg_MySQL cfg)) of
        Some err \<Rightarrow> (Inl (OtherError (''mysql connect: '' @ err)), s)
      | None \<Rightarrow>
          (case se_DB se of
             Some err \<Rightarrow> (Inl err, s)
           | None \<Rightarrow>
               let rdb = redis_New (se_connect se) (crd_Addr (cfg_Redis cfg)) (crd_Password (cfg_Redis cfg)) (crd_DB (cfg_Redis cfg));
                   K = snd (redis_Ping rdb (fst s));
                   mq = wire_mq_client (se_amqp se) cfg (snd s);
                   r = wire_trade_repository (se_mysql se) rdb cfg
               in case se_router se wire_routes of
                    Some p \<Rightarrow> (Inl (Panic p), (K, snd mq))
                  | None \<Rightarrow>
                      (Inr \<lparr>ap_Config = cfg, ap_pool = sql_pool_of (cfg_MySQL cfg), ap_repository = r,
                         ap_tags = \<lparr>tr_db = se_mysql se, tr_redis = rdb\<rparr>, ap_MQ = fst mq,
                         ap_DCC = wire_dcc (se_envInstance se) (se_pid se) cfg,
                         ap_httpTimeout = NewGroupBuyNotifyService_timeout (cnf_HTTPTimeoutSec (cfg_Notify cfg)),
                         ap_consumers = (\<lambda>E. fst (StartConsumers (fst mq) (wire_strategies r E))),
                         ap_debug = (csv_Mode (cfg_Server cfg) \<noteq> ''release''), ap_routes = wire_routes,
                         ap_rate = NewRateLimitStore (crl_IndexQPS (cfg_RateLimit cfg)) (crl_Burst (cfg_RateLimit cfg)),
                         ap_notifyJob = NewNotifyJob (cjb_NotifyIntervalSec (cfg_Job cfg)),
                         ap_timeoutJob = NewTimeoutRefundJob (cjb_TimeoutRefundIntervalSec (cfg_Job cfg)),
                         ap_collectors = StartCollectors\<rparr>, (K, snd mq))))"

text \<open>The checks of the collector: MySQL and Redis are asked, RabbitMQ is up when a client was made at the start.\<close>

definition wire_deps :: "go_error option \<Rightarrow> redis \<Rightarrow> mq_Client option \<Rightarrow> keyspace \<Rightarrow> (string \<times> go_error option option) list" where
  "wire_deps pingDB rdb mqClient K =
     [(''mysql'', Some pingDB),
      (''redis'', Some (case fst (redis_Ping rdb K) of Inl e \<Rightarrow> Some e | Inr _ \<Rightarrow> None)),
      (''rabbitmq'', Some (if mqClient = None then Some (OtherError ''rabbitmq not connected'') else None))]"

section \<open>Start and stop\<close>

text \<open>What \<open>Stop\<close> closes, in order; a job that was stopped before panics and the rest is left open.\<close>

datatype resource = CloseMQ | CloseRedis | CloseDB

definition Application_Stop :: "go_error option \<Rightarrow> 'l application \<Rightarrow> unit res \<times> 'l application \<times> resource list" where
  "Application_Stop dbErr a =
     (case worker_Stop (ap_notifyJob a) of
        (Inl e, j) \<Rightarrow> (Inl e, a\<lparr>ap_notifyJob := j\<rparr>, [])
      | (Inr _, j) \<Rightarrow>
          (case worker_Stop (ap_timeoutJob a) of
             (Inl e, k) \<Rightarrow> (Inl e, a\<lparr>ap_notifyJob := j, ap_timeoutJob := k\<rparr>, [])
           | (Inr _, k) \<Rightarrow>
               (case Collectors_Stop (ap_collectors a) of
                  (q, c) \<Rightarrow>
                    (q, a\<lparr>ap_notifyJob := j, ap_timeoutJob := k, ap_collectors := c\<rparr>,
                     (if ap_MQ a \<noteq> None then [CloseMQ] else []) @ [CloseRedis] @ (if dbErr = None then [CloseDB] else [])))))"

text \<open>\<open>Start\<close>: the jobs whose loops it starts, in order, and what \<open>Engine.Run\<close> returns for the address.\<close>

definition listen_addr :: "Config \<Rightarrow> string" where
  "listen_addr cfg = '':'' @ showInt (csv_Port (cfg_Server cfg))"

definition Application_Start :: "(string \<Rightarrow> go_error option) \<Rightarrow> 'l application \<Rightarrow> worker list \<times> go_error option" where
  "Application_Start run a = ([ap_notifyJob a, ap_timeoutJob a], run (listen_addr (ap_Config a)))"

text \<open>
  \<open>main\<close>: the exit code, and whether the deferred \<open>Stop\<close> ran; \<open>os.Exit\<close> runs no deferred call.
\<close>

definition main_run ::
    "Config res \<Rightarrow> (Config \<Rightarrow> 'l application res) \<Rightarrow> (string \<Rightarrow> go_error option) \<Rightarrow> int \<times> bool" where
  "main_run loaded build run =
     (case loaded of
        Inl e \<Rightarrow> (1, False)
      | Inr cfg \<Rightarrow>
          (case build cfg of
             Inl e \<Rightarrow> (1, False)
           | Inr a \<Rightarrow> (if snd (Application_Start run a) \<noteq> None then (1, False) else (0, True))))"

lemma failed_server_is_not_stopped:
  assumes "\<And>addr. run addr \<noteq> None"
  shows "main_run loaded build run = (1, False)"
  using assms by (auto simp: main_run_def Application_Start_def split: sum.splits)


section \<open>A run of the program\<close>

text \<open>
  The steps of the assembled program: a request handed to its controller, what gin bound of it first; a
  message to a consumer; the loop of a job; a callback in the background; and what happens around it. A
  lock request comes with a trade number of its own, and activities ask for members, as in \<open>serves\<close>.
\<close>

inductive app_step :: "decimal_ops \<Rightarrow> 'l application \<Rightarrow> world \<Rightarrow> world \<Rightarrow> bool" for D a where
  index: "index_handleQuery (index_app D (ap_repository a) e) clock (L :: 'l rate_limiter) now (Some rl) bound w = (q, w') \<Longrightarrow>
     app_step D a w w'"
| lock: "trade_handleLock (trade_app D (ap_repository a) e) lock_bound w = (lres, w') \<Longrightarrow> targets_ok (w_db w) \<Longrightarrow>
     (\<forall>x. lock_bound = Some x \<longrightarrow> own_number (rp_db (ap_repository a)) (w_db w) x) \<Longrightarrow> app_step D a w w'"
| settlement: "trade_handleSettlement (trade_app D (ap_repository a) e) sbound w = (sres, w') \<Longrightarrow> app_step D a w w'"
| refund: "trade_handleRefund (trade_app D (ap_repository a) e) rbound w = (rres, w') \<Longrightarrow> app_step D a w w'"
| tag: "tag_handler (ExecTagBatchJob (NewTagRepository (ap_tags a) te)) tagID batchID body w = (tres, w') \<Longrightarrow> app_step D a w w'"
| delivery: "(queue, h) \<in> set (ap_consumers a E) \<Longrightarrow> consume_one h msg w = (ack, w') \<Longrightarrow> app_step D a w w'"
| callback: "ExecNotifyJob (NewTradeRepository (ap_repository a) E)
     (NewTradeNotifyACL (rp_redis (ap_repository a)) http (ap_MQ a) L) (Some t) w = (cres, w') \<Longrightarrow>
     (\<And>t. lock_env_ok (L t)) \<Longrightarrow> app_step D a w w'"
| notify_job: "NotifyJob_Start (rp_redis (ap_repository a)) (ap_repository a) http (ap_MQ a) (ap_notifyJob a) ss w = Some (nres, w') \<Longrightarrow>
     (\<And>L0 E L t. Tick (L0, E, L) \<in> set ss \<Longrightarrow> lock_env_ok (L t)) \<Longrightarrow> app_step D a w w'"
| timeout_job: "TimeoutRefundJob_Start (rp_redis (ap_repository a)) (ap_repository a) (ap_timeoutJob a) ts w = Some (ores, w') \<Longrightarrow>
     app_step D a w w'"
| around: "same_trade (w_db w) (w_db w') \<Longrightarrow> app_step D a w w'"

lemma NewApplication_Inr:
  assumes "NewApplication se cfg s = (Inr a, s')"
  shows "ap_repository a = wire_trade_repository (se_mysql se)
      (redis_New (se_connect se) (crd_Addr (cfg_Redis cfg)) (crd_Password (cfg_Redis cfg)) (crd_DB (cfg_Redis cfg))) cfg"
    and "ap_MQ a = fst (wire_mq_client (se_amqp se) cfg (snd s))"
    and "ap_tags a = \<lparr>tr_db = rp_db (ap_repository a), tr_redis = rp_redis (ap_repository a)\<rparr>"
    and "ap_consumers a = (\<lambda>E. fst (StartConsumers (ap_MQ a) (wire_strategies (ap_repository a) E)))"
  using assms by (auto simp: NewApplication_def Let_def wire_trade_repository_def split: option.splits)

lemma consumer_serves:
  assumes "(queue, h) \<in> set (fst (StartConsumers c (wire_strategies r E)))" and run: "consume_one h msg w = (ack, w')"
  shows "serves D r w w'"
proof -
  from assms(1) consider "h = team_success_handler" | "h = team_refund_handler (all_strategies (NewTradeRepository r E) (Some safego_Go))"
    by (auto simp: StartConsumers_def wire_strategies_def split: option.splits if_splits)
  then show ?thesis
  proof cases
    case 1
    with run have "w' = w" by (auto simp: consume_one_def team_success_handler_def split: prod.splits sum.splits)
    then show ?thesis by (simp add: serves.around)
  next
    case 2
    with run show ?thesis by (simp add: serves.message)
  qed
qed

lemma app_step_serves:
  assumes start: "NewApplication se cfg s = (Inr a, s')" and "app_step D a w w'"
  shows "(serves D (ap_repository a))\<^sup>*\<^sup>* w w'"
  using assms(2)
proof (cases rule: app_step.cases)
  case (index e clock L now rl bound q)
  then have "w' = w \<or> (\<exists>req pres. app_QueryGroupBuyMarketConfig (index_app D (ap_repository a) e) clock (Some req) w = (pres, w'))"
    by (auto simp: index_handleQuery_def split: option.splits prod.splits bool.splits elim!: go_bind_cases)
  then show ?thesis by (auto intro: serves.page)
next
  case (lock e lock_bound lres)
  show ?thesis
  proof (cases lock_bound)
    case None
    with lock show ?thesis by (simp add: trade_handleLock_def)
  next
    case (Some req)
    with lock(1) have "app_LockMarketPayOrder (trade_app D (ap_repository a) e) (Some req) w = (lres, w')"
      by (simp add: trade_handleLock_def)
    from serves.lock [OF this lock(2)] lock(3) Some show ?thesis by blast
  qed
next
  case (settlement e sbound sres)
  then show ?thesis by (cases sbound) (auto simp: trade_handleSettlement_def intro: serves.settlement)
next
  case (refund e rbound rres)
  then show ?thesis by (cases rbound) (auto simp: trade_handleRefund_def intro: serves.refund)
next
  case (tag te tagID batchID body tres)
  then have "w' = w \<or> (\<exists>t b q. ExecTagBatchJob (NewTagRepository (ap_tags a) te) t b w = (q, w'))"
    by (auto simp: tag_handler_def tag_ExecTagBatchJob_def Let_def split: if_splits elim!: or_respond_cases)
  then show ?thesis unfolding NewApplication_Inr(3) [OF start] by (auto intro: serves.tag_job)
next
  case (delivery queue h E msg ack)
  with consumer_serves show ?thesis unfolding NewApplication_Inr(4) [OF start] by blast
next
  case (callback E http L t cres)
  then show ?thesis by (blast intro: serves.callback)
next
  case (notify_job http ss nres)
  then show ?thesis using notify_loop_serves by blast
next
  case (timeout_job ts ores)
  then show ?thesis using timeout_loop_serves by blast
next
  case around
  then show ?thesis by (blast intro: serves.around)
qed

lemma app_run_serves:
  assumes "NewApplication se cfg s = (Inr a, s')" and "(app_step D a)\<^sup>*\<^sup>* w w'"
  shows "(serves D (ap_repository a))\<^sup>*\<^sup>* w w'"
  using assms(2)
proof (induction rule: rtranclp_induct)
  case (step y z)
  with app_step_serves [OF assms(1) step(2)] show ?case by (meson rtranclp_trans)
qed simp

section \<open>Closed instances\<close>

definition ex_start :: "amqp \<Rightarrow> start_env" where
  "ex_start A =
     \<lparr>se_Open = (\<lambda>_. None), se_DB = None, se_mysql = refMySQL, se_connect = (\<lambda>_. refRedis), se_amqp = A,
      se_envInstance = '''', se_pid = 1, se_router = (\<lambda>_. None)\<rparr>"

lemma ex_started:
  "\<exists>a s'. NewApplication (ex_start A) (ex_topic_config ''topic.team_refund'') s = (Inr a, s') \<and>
     ap_repository a = refRepository \<and> ap_MQ a = fst (wire_mq_client A (ex_topic_config ''topic.team_refund'') (snd s))"
  by (simp add: NewApplication_def ex_start_def Let_def wire_trade_repository_def redis_New_def refRepository_def
      ex_topic_config_def TopicTeamSuccess_def TopicTeamRefund_def)

section \<open>Properties\<close>

text \<open>
  C2. Take the assembled program on an empty market and let its requests, the loops of its jobs,
  callbacks and messages follow one another in any order, with clocks that move on and whatever else
  leaves orders and teams alone in between, where a lock request has a trade number under which the
  user has no paid or closed order and every activity wants at least one member. Then its database
  has gone only through trade transactions within their guards, and each team counts its orders: the
  places taken are its orders not closed, the places paid its orders paid for, and \<open>0 \<le>
  paid \<le> taken \<le> wanted\<close>. A number that is used again is outside these runs; C15
  shows what it does.
\<close>

theorem application_keeps_counters:
  assumes start: "NewApplication se cfg s = (Inr a, s')" and run: "(app_step D a)\<^sup>*\<^sup>* w0 w"
    and M: "mysql_ok (se_mysql se)" and R: "\<And>opt. redis_ok (se_connect se opt) \<and> getbit_reads (se_connect se opt)"
    and empty: "db_orders (w_db w0) = []" "db_lists (w_db w0) = []"
  shows "(serves D (ap_repository a))\<^sup>*\<^sup>* w0 w \<and> (moves (ap_repository a))\<^sup>*\<^sup>* (w_db w0) (w_db w) \<and>
    (\<forall>g \<in> set (db_orders (w_db w)).
       o_LockCount g = int (open_count (se_mysql se) (w_db w) (o_TeamID g)) \<and>
       o_CompleteCount g = int (paid_count (se_mysql se) (w_db w) (o_TeamID g)) \<and>
       0 \<le> o_CompleteCount g \<and> o_CompleteCount g \<le> o_LockCount g \<and> o_LockCount g \<le> o_TargetCount g)"
proof -
  have db: "rp_db (ap_repository a) = se_mysql se" "\<exists>opt. rp_redis (ap_repository a) = se_connect se opt"
    using NewApplication_Inr(1) [OF start] by (auto simp: wire_trade_repository_def redis_New_def)
  from app_run_serves [OF start run] have served: "(serves D (ap_repository a))\<^sup>*\<^sup>* w0 w" .
  from db(2) R have "redis_ok (rp_redis (ap_repository a))" "getbit_reads (rp_redis (ap_repository a))" by auto
  from market_counters_hold [OF served _ this empty, unfolded db(1)] M served show ?thesis by blast
qed

text \<open>Ann opens a team, then the notify job runs on no tick at all and a message that is no refund comes.\<close>

lemma application_counters_witness:
  "\<exists>(a :: unit application) w. ap_repository a = refRepository \<and> (app_step refDecimal a)\<^sup>*\<^sup>* ex_market w \<and>
     (moves refRepository)\<^sup>*\<^sup>* (w_db ex_market) (w_db w) \<and>
     list_all (\<lambda>g. o_LockCount g = int (open_count refMySQL (w_db w) (o_TeamID g)) \<and> o_LockCount g \<le> o_TargetCount g)
       (db_orders (w_db w))"
proof -
  let ?s = "(Map.empty :: keyspace, \<lparr>bk_exchanges = [], bk_queues = [], bk_bindings = []\<rparr>)"
  obtain a :: "unit application" and s' where
    start: "NewApplication (ex_start refAmqp) (ex_topic_config ''topic.team_refund'') ?s = (Inr a, s')"
    and a: "ap_repository a = refRepository"
    using ex_started by blast
  obtain order w1 where run: "app_LockMarketPayOrder (trade_app refDecimal refRepository ex_market_env)
      (Some ex_lock_request) ex_market = (Inr (Success order), w1)"
    using ex_request_granted by blast
  have "targets_ok (w_db ex_market)" and "own_number (rp_db refRepository) (w_db ex_market) x" for x
    by (simp_all add: targets_ok_def own_number_def ex_market_def ex_activity_def)
  with run have one: "app_step refDecimal a ex_market w1"
    by (intro app_step.lock [where lock_bound = "Some ex_lock_request" and e = ex_market_env])
      (simp_all add: a trade_handleLock_def)
  have "app_step refDecimal a w1 w1" by (rule app_step.around) simp
  with one have path: "(app_step refDecimal a)\<^sup>*\<^sup>* ex_market w1" by (meson rtranclp.simps)
  have "db_orders (w_db ex_market) = []" "db_lists (w_db ex_market) = []" by (simp_all add: ex_market_def)
  from application_keeps_counters [OF start path _ _ this] mysql_ok_ref redis_ok_ref getbit_reads_ref path a
  show ?thesis by (intro exI [of _ a] exI [of _ w1]) (auto simp: ex_start_def list_all_iff)
qed

text \<open>With the server up and the lock free, the adapter without a client reports success and changes nothing.\<close>

lemma TryLockWait_free:
  assumes "redis_ok R" "redis_up R" and "K key = None" and "0 < lease"
  shows "TryLockWait R start now ctxDone others key wait lease K = Some (Inr True, K(key \<mapsto> VInt 1 (Some lease)))"
  using SetNX_up [OF assms(1,2,4), of key K] assms(3)
  by (simp add: TryLockWait_def TryLockWait_loop.simps TryLock_def)

lemma acl_without_client:
  assumes "redis_ok R" "redis_up R" and "nt_NotifyType t = NotifyMQ" and "w_redis w (LockKey t) = None"
  shows "PortGroupBuyNotify (NewTradeNotifyACL R http None L) t w = (Inr NotifyTaskHTTPSuccess, w)"
proof -
  have "acl_GroupBuyNotify R http None (L t) (Some t) w = Some (Inr NotifyTaskHTTPSuccess, w)"
    using TryLockWait_free [where K = "w_redis w" and key = "LockKey t" and lease = 30, OF assms(1,2,4)] Del_up [OF assms(1,2)] assms(3,4)
    by (simp add: acl_GroupBuyNotify_def with_lock_def acl_send_def NotifyHTTP_def NotifyMQ_def EventPublisher_Publish_def
        go_bind_def on_redis_def Unlock_def fun_upd_idem)
  then show ?thesis by (simp add: NewTradeNotifyACL_def)
qed

lemma find_ok_rows:
  assumes "find_ok P IdAsc k t rs" and "x \<in> set rs"
  shows "x \<in> set t \<and> P x"
  using assms by (cases k) (auto simp: find_ok_def dest: in_set_takeD)

lemma unexecuted_rows:
  assumes M: "mysql_ok (rp_db r)" and run: "QueryUnExecutedNotifyTaskList (NewTradeRepository r E) w = (Inr ts, w')"
    and mem: "t' \<in> set ts"
  shows "\<exists>x \<in> set (db_tasks (w_db w)). (t_NotifyStatus x = 0 \<or> t_NotifyStatus x = 2) \<and> t' = toNotifyEntity x"
proof -
  from run obtain rows d where "dbFind db_tasks (my_tasks (rp_db r)) (\<lambda>t. t_NotifyStatus t = 0 \<or> t_NotifyStatus t = 2)
      IdAsc (Some 50) (w_db w) = (Inr rows, d)" and ts: "ts = map toNotifyEntity rows"
    by (auto simp: NewTradeRepository_def on_db_def repo_QueryUnExecutedNotifyTaskList_def
        split: prod.splits elim!: go_bind_Inr_cases)
  from this(1) mysql_okD(3) [OF M]
  have found: "find_ok (\<lambda>t. t_NotifyStatus t = 0 \<or> t_NotifyStatus t = 2) IdAsc (Some 50) (db_tasks (w_db w)) rows"
    by (cases rule: dbFind_cases) blast+
  obtain x where "x \<in> set rows" "t' = toNotifyEntity x" using ts mem by auto
  with find_ok_rows [OF found] show ?thesis by blast
qed

text \<open>
  C37. A program that was started while RabbitMQ was away loses every message it should send: a delivery
  of a task reports success, its row is marked done without anything sent, and the job that retries
  does not read it again.
\<close>

theorem without_broker_messages_are_lost:
  assumes start: "NewApplication se cfg s = (Inr a, s')" and down: "aq_Dial (se_amqp se) (mqc_URL (mq_NewClient_config (wire_mq_config cfg))) = Some err"
    and M: "mysql_ok (se_mysql se)" "mysql_up (se_mysql se)" and R: "\<And>opt. redis_ok (se_connect se opt) \<and> redis_up (se_connect se opt)"
    and t: "nt_NotifyType t = NotifyMQ" "nt_Status t = NotifyTaskInit \<or> nt_Status t = NotifyTaskRetry"
    and free: "w_redis w (LockKey t) = None"
  shows "\<exists>c' w'. exec_task (NewTradeRepository (ap_repository a) E)
      (NewTradeNotifyACL (rp_redis (ap_repository a)) http (ap_MQ a) L) t c w = (Inr c', w') \<and>
    w_mq w' = w_mq w \<and> (\<forall>x \<in> set (db_tasks (w_db w')). task_hit (se_mysql se) t x \<longrightarrow> t_NotifyStatus x = NotifyTaskSuccess) \<and>
    (\<forall>ts. QueryUnExecutedNotifyTaskList (NewTradeRepository (ap_repository a) E) w' = (Inr ts, w') \<longrightarrow>
       (\<forall>t' \<in> set ts. \<not> (sqlEq (se_mysql se) (nt_TeamID t') (nt_TeamID t) \<and> sqlEq (se_mysql se) (nt_UUID t') (nt_UUID t))))"
proof -
  let ?r = "ap_repository a" and ?done = "\<lambda>x. x\<lparr>t_NotifyStatus := 1, t_NotifyCount := t_NotifyCount x + 1, t_UpdateTime := ce_now E 0\<rparr>"
  have parts: "rp_db ?r = se_mysql se" "redis_ok (rp_redis ?r)" "redis_up (rp_redis ?r)" "ap_MQ a = None"
    using NewApplication_Inr(1,2) [OF start] R down
    by (auto simp: wire_trade_repository_def redis_New_def wire_mq_client_def mq_NewClient_def Let_def)
  obtain n where upd: "set_task_status ?r E 1 t (w_db w) =
      (Inr n, w_db w\<lparr>db_tasks := upd_where (task_hit (se_mysql se) t) ?done (db_tasks (w_db w))\<rparr>)"
    using dbUpdates_up [OF mysql_okD(3) [OF M(1)] mysql_upD(3) [OF M(2)]] by (simp add: set_task_status_def parts(1))
  let ?w' = "w\<lparr>w_db := w_db w\<lparr>db_tasks := upd_where (task_hit (se_mysql se) t) ?done (db_tasks (w_db w))\<rparr>\<rparr>"
  have port: "PortGroupBuyNotify (NewTradeNotifyACL (rp_redis ?r) http (ap_MQ a) L) t w = (Inr NotifyTaskHTTPSuccess, w)"
    unfolding parts(4) by (rule acl_without_client [OF parts(2,3) t(1) free])
  have "\<exists>c'. exec_task (NewTradeRepository ?r E) (NewTradeNotifyACL (rp_redis ?r) http (ap_MQ a) L) t c w = (Inr c', ?w')"
    using t(2) upd by (auto simp: exec_task_def port IsTerminal_def exec_answer_def move_task_def count_if_one_def
        NewTradeRepository_def repo_UpdateNotifyTaskStatusSuccess_def on_db_def)
  then obtain c' where "exec_task (NewTradeRepository ?r E) (NewTradeNotifyACL (rp_redis ?r) http (ap_MQ a) L) t c w = (Inr c', ?w')"
    by blast
  moreover have hit: "t_NotifyStatus x = 1" if "x \<in> set (db_tasks (w_db ?w'))" "task_hit (se_mysql se) t x" for x
    using that by (auto simp: upd_where_def split: if_splits)
  moreover have "\<not> (sqlEq (se_mysql se) (nt_TeamID t') (nt_TeamID t) \<and> sqlEq (se_mysql se) (nt_UUID t') (nt_UUID t))"
    if "QueryUnExecutedNotifyTaskList (NewTradeRepository ?r E) ?w' = (Inr ts, ?w')" "t' \<in> set ts" for ts t'
  proof -
    from unexecuted_rows [OF _ that] M(1) parts(1) obtain x where "x \<in> set (db_tasks (w_db ?w'))"
      "t_NotifyStatus x = 0 \<or> t_NotifyStatus x = 2" "t' = toNotifyEntity x" by auto
    with hit [of x] show ?thesis by (auto simp: toNotifyEntity_def)
  qed
  moreover have "w_mq ?w' = w_mq w" by simp
  ultimately show ?thesis unfolding NotifyTaskSuccess_def by blast
qed


text \<open>One refund message, written while the broker was away at the start.\<close>

definition ex_lost_task :: NotifyTask where
  "ex_lost_task = refund_task refRepository (ex_env 1) (ex_refund ''ann'' ''111111111111'') TaskTradePaid2Refund
     (rt_Code RefundPaidUnformed)"

lemma without_broker_witness:
  "\<exists>(a :: unit application) c' w'. ap_repository a = refRepository \<and> ap_MQ a = None \<and>
     exec_task (NewTradeRepository (ap_repository a) (ex_env 1))
       (NewTradeNotifyACL (rp_redis (ap_repository a)) (\<lambda>_ _. Answered 200) (ap_MQ a) (\<lambda>_. ex_lock_env))
       (toNotifyEntity ex_lost_task) \<lparr>tc_success = 0, tc_error = 0, tc_retry = 0\<rparr>
       (ex_world\<lparr>w_db := (w_db ex_world)\<lparr>db_tasks := [ex_lost_task]\<rparr>\<rparr>) = (Inr c', w') \<and>
     w_mq w' = [] \<and> list_all (\<lambda>x. t_NotifyStatus x = NotifyTaskSuccess)
       (filter (task_hit refMySQL (toNotifyEntity ex_lost_task)) (db_tasks (w_db w')))"
proof -
  let ?A = "refAmqp\<lparr>aq_Dial := (\<lambda>_. Some ''refused'')\<rparr>"
    and ?w = "ex_world\<lparr>w_db := (w_db ex_world)\<lparr>db_tasks := [ex_lost_task]\<rparr>\<rparr>" and ?t = "toNotifyEntity ex_lost_task"
  let ?s = "(Map.empty :: keyspace, \<lparr>bk_exchanges = [], bk_queues = [], bk_bindings = []\<rparr>)"
  obtain a :: "unit application" and s' where
    start: "NewApplication (ex_start ?A) (ex_topic_config ''topic.team_refund'') ?s = (Inr a, s')"
    and a: "ap_repository a = refRepository" "ap_MQ a = fst (wire_mq_client ?A (ex_topic_config ''topic.team_refund'') (snd ?s))"
    using ex_started by blast
  have none: "ap_MQ a = None" by (simp add: a(2) wire_mq_client_def mq_NewClient_def Let_def)
  have t: "nt_NotifyType ?t = NotifyMQ" "nt_Status ?t = NotifyTaskInit \<or> nt_Status ?t = NotifyTaskRetry"
    by (simp_all add: toNotifyEntity_def ex_lost_task_def refund_task_def)
  have free: "w_redis ?w (LockKey ?t) = None" and none_sent: "w_mq ?w = []" by (simp_all add: ex_world_def)
  have up: "redis_ok (se_connect (ex_start ?A) opt) \<and> redis_up (se_connect (ex_start ?A) opt)" for opt
    using redis_ok_ref redis_up_ref by (simp add: ex_start_def)
  have M: "mysql_ok (se_mysql (ex_start ?A))" "mysql_up (se_mysql (ex_start ?A))" "se_mysql (ex_start ?A) = refMySQL"
    using mysql_ok_ref mysql_up_ref by (simp_all add: ex_start_def)
  have down: "aq_Dial (se_amqp (ex_start ?A)) url = Some ''refused''" for url by (simp add: ex_start_def)
  from without_broker_messages_are_lost [OF start down M(1,2) up t free, where E = "ex_env 1" and http = "\<lambda>_ _. Answered 200"
      and L = "\<lambda>_. ex_lock_env" and c = "\<lparr>tc_success = 0, tc_error = 0, tc_retry = 0\<rparr>"] none a(1) none_sent
  show ?thesis unfolding M(3) list_all_iff by (intro exI [of _ a]) auto
qed

end
