(* ===== verification/Stock_Ledger.thy ===== *)
theory Stock_Ledger
  imports Market_System
begin

text \<open>
  The two books of a team side by side: the places counted in Redis (\<open>Team_Stock\<close>) and the orders in
  the database (\<open>Team_Invariant\<close>). The lock service takes a place before it writes the order and gives
  it back when the transaction fails; a refund closes the order and leaves the place to a message, which
  may come late, more than once or mixed up with others. \<open>ledger\<close> are the runs of the server with Redis
  up; \<open>ledger_ok\<close> says how the two books agree after every one of them.

  A run counts its steps, and keeps the bodies of all notify tasks ever written: any of them may be
  delivered to the consumer of refunds, in any order and any number of times.
\<close>

section \<open>Runs\<close>

text \<open>
  A request that names a team by its own spelling and with its own activity. Both matter: the Redis
  keys are made from what the request says, and the database compares with its collation and does not
  look at the activity.
\<close>

definition names_team :: "mysql \<Rightarrow> db \<Rightarrow> int64 \<Rightarrow> string \<Rightarrow> bool" where
  "names_team M d a t \<longleftrightarrow> plain_id t \<and>
     (\<forall>g \<in> set (db_orders d). sqlEq M t (o_TeamID g) \<longrightarrow> o_TeamID g = t \<and> o_ActivityID g = a)"

definition lives_ok :: "db \<Rightarrow> bool" where
  "lives_ok d \<longleftrightarrow> (\<forall>x \<in> set (db_activities d). 0 \<le> a_ValidTime x)"

definition bodies :: "db \<Rightarrow> json set" where
  "bodies d = t_ParameterJSON ` set (db_tasks d)"

text \<open>
  What else goes on leaves the counters and the locks of refunds alone; slots may expire. The locks of
  refunds last thirty days, so a message that comes later than that is outside these runs.
\<close>

definition keeps_stock :: "keyspace \<Rightarrow> keyspace \<Rightarrow> bool" where
  "keeps_stock K K' \<longleftrightarrow>
     (\<forall>oid. K' (refund_lock_key oid) = K (refund_lock_key oid)) \<and>
     (\<forall>a t. K' (GenerateTeamStockKey a t) = K (GenerateTeamStockKey a t) \<and>
        K' (GenerateRecoveryTeamStockKey a t) = K (GenerateRecoveryTeamStockKey a t) \<and>
        (\<forall>n. K' (slot_key a t n) = K (slot_key a t n) \<or> K' (slot_key a t n) = None))"

inductive ledger :: "decimal_ops \<Rightarrow> TradeRepository \<Rightarrow> nat \<Rightarrow> json set \<Rightarrow> world \<Rightarrow> bool" for D r where
  start: "db_orders (w_db w) = [] \<Longrightarrow> db_lists (w_db w) = [] \<Longrightarrow> db_tasks (w_db w) = [] \<Longrightarrow>
     (\<forall>a t. fresh_stock a t (w_redis w)) \<Longrightarrow> (\<forall>oid. w_redis w (refund_lock_key oid) = None) \<Longrightarrow>
     ledger D r 0 {} w"
| lock: "ledger D r n J w \<Longrightarrow> app_LockMarketPayOrder (trade_app D r e) (Some req) w = (lres, w') \<Longrightarrow>
     targets_ok (w_db w) \<Longrightarrow> lives_ok (w_db w) \<Longrightarrow> own_number (rp_db r) (w_db w) req \<Longrightarrow>
     names_team (rp_db r) (w_db w) (lrq_ActivityID req) (lrq_TeamID req) \<Longrightarrow>
     ledger D r (Suc n) (J \<union> bodies (w_db w')) w'"
| settlement: "ledger D r n J w \<Longrightarrow>
     settle_SettlementMarketPayOrder (NewTradeRepository r E) (Some safego_Go) pay w = (sres, w') \<Longrightarrow>
     ledger D r (Suc n) (J \<union> bodies (w_db w')) w'"
| refund: "ledger D r n J w \<Longrightarrow>
     refund_RefundOrder (NewTradeRepository r E) (all_strategies (NewTradeRepository r E) (Some safego_Go)) cmd w
       = (rres, w') \<Longrightarrow>
     ledger D r (Suc n) (J \<union> bodies (w_db w')) w'"
| message: "ledger D r n J w \<Longrightarrow> j \<in> J \<Longrightarrow>
     consume_one (team_refund_handler (all_strategies (NewTradeRepository r E) spawn)) (Some j) w = (ack, w') \<Longrightarrow>
     ledger D r (Suc n) J w'"
| around: "ledger D r n J w \<Longrightarrow> same_trade (w_db w) (w_db w') \<Longrightarrow> bodies (w_db w') \<subseteq> J \<Longrightarrow>
     keeps_stock (w_redis w) (w_redis w') \<Longrightarrow> ledger D r (Suc n) J w'"

section \<open>The books\<close>

definition teams_of :: "db \<Rightarrow> (string \<times> int64) list" where
  "teams_of d = map (\<lambda>g. (o_TeamID g, o_ActivityID g)) (db_orders d)"

definition orders_of :: "db \<Rightarrow> (string \<times> int64 \<times> string) list" where
  "orders_of d = map (\<lambda>l. (l_TeamID l, l_ActivityID l, l_OrderID l)) (db_lists d)"

text \<open>The orders of a team whose place has not come back.\<close>

definition holding :: "int64 \<Rightarrow> string \<Rightarrow> keyspace \<Rightarrow> db \<Rightarrow> nat" where
  "holding a t K d = cnt (\<lambda>x. fst x = t \<and> fst (snd x) = a \<and> K (refund_lock_key (snd (snd x))) = None)
     (orders_of d)"

text \<open>One order of every team took no place: the one that opened it.\<close>

definition balanced :: "int64 \<Rightarrow> string \<Rightarrow> keyspace \<Rightarrow> db \<Rightarrow> bool" where
  "balanced a t K d \<longleftrightarrow>
     places_taken a t K + int (cnt (\<lambda>p. p = (t, a)) (teams_of d)) = int (holding a t K d)"

definition closed_order :: "db \<Rightarrow> string \<Rightarrow> bool" where
  "closed_order d oid \<longleftrightarrow> (\<exists>l \<in> set (db_lists d). l_OrderID l = oid \<and> l_Status l = TradeOrderClose)"

text \<open>A body the consumer acts on names a closed order, with its team and its activity.\<close>

definition body_ok :: "db \<Rightarrow> json \<Rightarrow> bool" where
  "body_ok d j \<longleftrightarrow> (\<forall>msg rt. Unmarshal_TeamRefundSuccess (Some j) = Some msg \<longrightarrow>
     GetRefundTypeByCode (trs_Type msg) = Inr rt \<longrightarrow>
     (trs_TeamID msg, trs_ActivityID msg, trs_OrderID msg) \<in> set (orders_of d) \<and>
     closed_order d (trs_OrderID msg))"

definition named_ok :: "db \<Rightarrow> bool" where
  "named_ok d \<longleftrightarrow>
     (\<forall>(t, a) \<in> set (teams_of d). team_id t) \<and>
     (\<forall>(t, a, oid) \<in> set (orders_of d). (t, a) \<in> set (teams_of d))"

definition stock_bounded :: "nat \<Rightarrow> int64 \<Rightarrow> string \<Rightarrow> keyspace \<Rightarrow> bool" where
  "stock_bounded n a t K \<longleftrightarrow> stock_ok a t K \<and> used a t K \<le> int n \<and> recovered a t K \<le> int n"

definition ledger_ok :: "TradeRepository \<Rightarrow> nat \<Rightarrow> json set \<Rightarrow> world \<Rightarrow> bool" where
  "ledger_ok r n J w \<longleftrightarrow>
     market_ok r (w_db w) \<and> named_ok (w_db w) \<and>
     (\<forall>oid. w_redis w (refund_lock_key oid) \<noteq> None \<longrightarrow> closed_order (w_db w) oid) \<and>
     (\<forall>j \<in> J. body_ok (w_db w) j) \<and> bodies (w_db w) \<subseteq> J \<and>
     (\<forall>a t. plain_id t \<longrightarrow> stock_bounded n a t (w_redis w) \<and> balanced a t (w_redis w) (w_db w))"

section \<open>What the steps do to the database\<close>

lemma closed_order_append: "db_lists d' = db_lists d @ xs \<Longrightarrow> closed_order d oid \<Longrightarrow> closed_order d' oid"
  by (auto simp: closed_order_def)

lemma closed_order_upd:
  assumes "db_lists d' = upd_where P f (db_lists d)" and "closed_order d oid"
    and "\<And>l. l_OrderID (f l) = l_OrderID l" and "\<And>l. P l \<Longrightarrow> l_Status l = TradeOrderClose \<Longrightarrow> l_Status (f l) = TradeOrderClose"
  shows "closed_order d' oid"
proof -
  from assms(2) obtain l where l: "l \<in> set (db_lists d)" "l_OrderID l = oid" "l_Status l = TradeOrderClose"
    unfolding closed_order_def by blast
  let ?l = "if P l then f l else l"
  have "?l \<in> set (db_lists d')" "l_OrderID ?l = oid" "l_Status ?l = TradeOrderClose"
    using l assms(3,4) by (auto simp: assms(1) upd_where_def)
  then show ?thesis unfolding closed_order_def by blast
qed

lemma orders_of_upd:
  "db_lists d' = upd_where P f (db_lists d) \<Longrightarrow>
   (\<And>l. l_TeamID (f l) = l_TeamID l \<and> l_ActivityID (f l) = l_ActivityID l \<and> l_OrderID (f l) = l_OrderID l) \<Longrightarrow>
   orders_of d' = orders_of d"
  by (simp add: orders_of_def)

lemma teams_of_upd:
  "db_orders d' = upd_where P f (db_orders d) \<Longrightarrow>
   (\<And>g. o_TeamID (f g) = o_TeamID g \<and> o_ActivityID (f g) = o_ActivityID g) \<Longrightarrow> teams_of d' = teams_of d"
  by (simp add: teams_of_def)

lemma body_ok_mono:
  "body_ok d j \<Longrightarrow> set (orders_of d) \<subseteq> set (orders_of d') \<Longrightarrow>
   (\<And>oid. closed_order d oid \<Longrightarrow> closed_order d' oid) \<Longrightarrow> body_ok d' j"
  unfolding body_ok_def by blast

text \<open>A settlement changes neither the names in the books nor a closed order; its task is no refund.\<close>

lemma settle_body_ok: "body_ok d (t_ParameterJSON (settle_task r E agg nos))"
  by (simp add: body_ok_def settle_task_def Unmarshal_TeamRefundSuccess_def put_field_def field_is_def
      upper_def zero_message_def GetRefundTypeByCode_def Let_def)

lemma settle_books:
  assumes M: "mysql_ok (rp_db r)" and ran: "repo_SettlementMarketPayOrder r E agg d = (Inr y, d')"
  shows "teams_of d' = teams_of d" "orders_of d' = orders_of d"
    "closed_order d oid \<Longrightarrow> closed_order d' oid" "j \<in> bodies d' \<Longrightarrow> j \<in> bodies d \<or> body_ok d' j"
proof -
  let ?d = "settled_db (rp_db r) E agg d"
  have d: "teams_of ?d = teams_of d" "orders_of ?d = orders_of d" "db_tasks ?d = db_tasks d"
    by (auto simp: settled_db_def intro: teams_of_upd orders_of_upd)
  have closed: "closed_order ?d oid" if "closed_order d oid" for oid
    by (rule closed_order_upd [where P = "pay_hit (rp_db r) agg" and f = "pay_set E agg", OF _ that])
      (auto simp: settled_db_def)
  have "teams_of d' = teams_of ?d \<and> db_lists d' = db_lists ?d \<and> (\<forall>j \<in> bodies d'. j \<in> bodies ?d \<or> body_ok d' j)"
    if "settle_complete r E agg ?d = (Inr y, d')"
    using that M by (rule settle_complete_Inr) (auto simp: bodies_def settle_body_ok intro: teams_of_upd)
  with settle_tx_Inr(3) [OF settlement_Inr [OF M ran] M]
  have "teams_of d' = teams_of ?d \<and> db_lists d' = db_lists ?d \<and> (\<forall>j \<in> bodies d'. j \<in> bodies ?d \<or> body_ok d' j)"
    by (auto split: if_splits)
  with d closed show "teams_of d' = teams_of d" "orders_of d' = orders_of d"
    "closed_order d oid \<Longrightarrow> closed_order d' oid" "j \<in> bodies d' \<Longrightarrow> j \<in> bodies d \<or> body_ok d' j"
    by (auto simp: orders_of_def closed_order_def bodies_def)
qed

lemma refund_by_teams:
  assumes M: "mysql_ok (rp_db r)" and inv: "teams_ok (rp_db r) d"
    and ran: "refund_by r E rt order d = (Inr x, d')"
  shows "teams_of d' = teams_of d"
proof -
  have keys: "distinct (map (\<lambda>g. my_ck (rp_db r) (o_TeamID g)) (db_orders d))"
    using inv unfolding teams_ok_def by blast
  have plain: "teams_of d' = teams_of d"
    if "doRefund r E agg s category ty True dc d = (Inr x, d')" "s \<noteq> 2" "gp_LockCount (agr_GroupBuyProgress agg) \<noteq> 0"
    for agg s category ty dc
  proof -
    from that(1) have "my_txTask (rp_db r) (doRefund_tx r E agg s category ty True dc) d = (Inr x, d')"
      by (simp add: doRefund_def)
    with rp_ok(5) [OF M] have "doRefund_tx r E agg s category ty True dc d = (Inr x, d')"
      by (cases rule: txn_cases) simp_all
    from this M that(3,2) show ?thesis
      by (rule doRefund_tx_Inr) (simp add: teams_of_def refund_updates_def Let_def)
  qed
  have formed: "teams_of d' = teams_of d"
    if "repo_PaidTeam2Refund r E (BuildPaidTeam2RefundAggregate order (-1) (-1)) d = (Inr x, d')"
  proof -
    from that have "my_txTask (rp_db r)
        (paidTeam2Refund_tx r E (BuildPaidTeam2RefundAggregate order (-1) (-1))) d = (Inr x, d')"
      by (simp add: repo_PaidTeam2Refund_def)
    with rp_ok(5) [OF M] have "paidTeam2Refund_tx r E (BuildPaidTeam2RefundAggregate order (-1) (-1)) d = (Inr x, d')"
      by (cases rule: txn_cases) simp_all
    from this M _ keys show ?thesis by (rule paidTeam2Refund_tx_Inr) (simp_all add: teams_of_def)
  qed
  from ran show ?thesis
    unfolding refund_by_def repo_Unpaid2Refund_def repo_Paid2Refund_def
    using formed by (auto split: if_splits intro: plain)
qed

lemma refund_books:
  assumes M: "mysql_ok (rp_db r)" and inv: "teams_ok (rp_db r) d" and named: "named_ok d"
    and row: "find (trade_no_of (rp_db r) u n) (db_lists d) = Some l"
    and g: "g \<in> set (db_orders d)" "sqlEq (rp_db r) (o_TeamID g) (l_TeamID l)"
    and rt: "GetRefundStrategy ts (l_Status l) = Inr rt"
    and ran: "refund_by r E rt order d = (Inr x, d')" "ro_UserID order = u" "ro_OrderID order = l_OrderID l"
      "ro_TeamID order = l_TeamID l" "ro_ActivityID order = o_ActivityID g"
  shows "teams_of d' = teams_of d" "orders_of d' = orders_of d"
    "closed_order d oid \<Longrightarrow> closed_order d' oid" "j \<in> bodies d' \<Longrightarrow> j \<in> bodies d \<or> body_ok d' j"
proof -
  note rows = refunded_rows(2) [OF M inv row rt ran(1-4)]
  show "teams_of d' = teams_of d" by (rule refund_by_teams [OF M inv ran(1)])
  show orders: "orders_of d' = orders_of d" by (rule orders_of_upd [OF rows]) simp
  show "closed_order d oid \<Longrightarrow> closed_order d' oid" by (rule closed_order_upd [OF rows]) simp_all
  have l: "l \<in> set (db_lists d)" using row by (auto simp: find_Some_iff)
  have "l\<lparr>l_Status := 2, l_UpdateTime := ce_now E 0\<rparr> \<in> set (db_lists d')"
    using l unfolding rows upd_where_def by force
  then have closed: "closed_order d' (l_OrderID l)" unfolding closed_order_def by (rule rev_bexI) simp
  have mem: "(l_TeamID l, l_ActivityID l, l_OrderID l) \<in> set (orders_of d)"
    using l by (auto simp: orders_of_def)
  with named obtain g' where g': "g' \<in> set (db_orders d)" "o_TeamID g' = l_TeamID l" "o_ActivityID g' = l_ActivityID l"
    by (fastforce simp: named_ok_def teams_of_def)
  have keys: "distinct (map (\<lambda>g. my_ck (rp_db r) (o_TeamID g)) (db_orders d))"
    using inv unfolding teams_ok_def by blast
  have "g' = g" using filter_key_unique [OF keys g'(1) g(1)] g'(2) g(2) by (simp add: sqlEq_def)
  with g' mem have mem': "(l_TeamID l, o_ActivityID g, l_OrderID l) \<in> set (orders_of d)" by simp
  from refund_by_Inr [OF M inv ran(1) refund_types_of [OF rt]] obtain i where
    "db_tasks d' = db_tasks d @ [(refund_task r E order (refund_category rt) (rt_Code rt))\<lparr>t_ID := i\<rparr>]"
    by blast
  then show "j \<in> bodies d' \<Longrightarrow> j \<in> bodies d \<or> body_ok d' j"
    using mem' closed ran(3-5) by (auto simp: bodies_def body_ok_def message_of_refund_task orders)
qed

text \<open>An order that is locked is new in the books, under the name of its team.\<close>

lemma randomNumeric_team_id: "team_id (randomNumeric E i 8)"
proof -
  have "\<forall>c \<in> set (randomNumeric E i 8). isDigit c" by (auto simp: randomNumeric_def)
  then have "CHR ''_'' \<notin> set (randomNumeric E i 8)" using isDigit_simps(1) by blast
  then show ?thesis by (auto simp: team_id_def plain_id_def randomNumeric_def)
qed

lemma lock_books:
  assumes M: "mysql_ok (rp_db r)" and ran: "repo_LockMarketPayOrder r E agg d = (Inr order, d')"
    and names: "names_team (rp_db r) d (pa_ActivityID (agl_PayActivityEntity agg)) (pa_TeamID (agl_PayActivityEntity agg))"
  obtains t oid where
    "orders_of d' = orders_of d @ [(t, pa_ActivityID (agl_PayActivityEntity agg), oid)]"
    "\<not> closed_order d oid" "db_tasks d' = db_tasks d" "\<And>oid. closed_order d oid \<Longrightarrow> closed_order d' oid"
    "if pa_TeamID (agl_PayActivityEntity agg) = ''''
     then team_id t \<and> teams_of d' = teams_of d @ [(t, pa_ActivityID (agl_PayActivityEntity agg))]
     else t = pa_TeamID (agl_PayActivityEntity agg) \<and> teams_of d' = teams_of d \<and>
       (t, pa_ActivityID (agl_PayActivityEntity agg)) \<in> set (teams_of d)"
proof -
  let ?a = "pa_ActivityID (agl_PayActivityEntity agg)"
  from ran have "my_txOrder (rp_db r) (lock_tx r E agg) d = (Inr order, d')"
    by (simp add: repo_LockMarketPayOrder_def)
  with rp_ok(4) [OF M] have "lock_tx r E agg d = (Inr order, d')" by (cases rule: txn_cases) simp_all
  then obtain t d1 j where team: "lock_team r E agg d = (Inr t, d1)"
    and d': "d' = d1\<lparr>db_lists := db_lists d1 @ [(new_order E agg t (lock_orderID E agg))\<lparr>l_ID := j\<rparr>]\<rparr>"
    and clash: "\<forall>l \<in> set (db_lists d1). \<not> list_clash (rp_db r) (new_order E agg t (lock_orderID E agg)) l"
    using M by (rule lock_tx_Inr) blast
  have lists: "db_lists d1 = db_lists d" "db_tasks d1 = db_tasks d" using team M by (cases rule: lock_team_Inr; simp)+
  have teams: "if pa_TeamID (agl_PayActivityEntity agg) = ''''
     then team_id t \<and> teams_of d1 = teams_of d @ [(t, ?a)]
     else t = pa_TeamID (agl_PayActivityEntity agg) \<and> teams_of d1 = teams_of d \<and> (t, ?a) \<in> set (teams_of d)"
    using team M
  proof (cases rule: lock_team_Inr)
    case (new i)
    then show ?thesis by (simp add: teams_of_def randomNumeric_team_id new_team_def Let_def)
  next
    case join
    then have "0 < cnt (room_hit (rp_db r) t) (db_orders d)" by simp
    then obtain g where g: "g \<in> set (db_orders d)" "sqlEq (rp_db r) (o_TeamID g) t" unfolding cnt_pos_iff by blast
    with names join(1) sqlEq_sym have "o_TeamID g = t" "o_ActivityID g = ?a" unfolding names_team_def by blast+
    with g(1) have "(t, ?a) \<in> set (teams_of d)" by (auto simp: teams_of_def)
    moreover have "teams_of d1 = teams_of d"
      by (rule teams_of_upd [where P = "room_hit (rp_db r) t" and f = "room_set E"]) (simp_all add: join(3))
    ultimately show ?thesis using join(1,2) by simp
  qed
  have same: "teams_of d' = teams_of d1" by (simp add: d' teams_of_def)
  show ?thesis
  proof (rule that [of t "lock_orderID E agg"])
    show "orders_of d' = orders_of d @ [(t, ?a, lock_orderID E agg)]" by (simp add: d' lists orders_of_def)
    show "\<not> closed_order d (lock_orderID E agg)"
      using clash lists by (auto simp: closed_order_def list_clash_def)
    show "closed_order d' oid" if "closed_order d oid" for oid
      by (rule closed_order_append [OF _ that]) (simp add: d' lists)
    show "if pa_TeamID (agl_PayActivityEntity agg) = ''''
       then team_id t \<and> teams_of d' = teams_of d @ [(t, ?a)]
       else t = pa_TeamID (agl_PayActivityEntity agg) \<and> teams_of d' = teams_of d \<and> (t, ?a) \<in> set (teams_of d)"
      using teams unfolding same .
  qed (simp add: d' lists)
qed

section \<open>The books agree\<close>

lemma holding_cong:
  "(\<And>oid. K' (refund_lock_key oid) = K (refund_lock_key oid)) \<Longrightarrow> orders_of d' = orders_of d \<Longrightarrow>
   holding a t K' d' = holding a t K d"
  by (simp add: holding_def)

lemma stock_bounded_Suc: "stock_bounded n a t K \<Longrightarrow> stock_bounded (Suc n) a t K"
  by (simp add: stock_bounded_def)

lemma stock_change_all:
  assumes "stock_change a t m n K K'" and "m \<le> 1" "n \<le> 1" and "plain_id t" "plain_id u"
    and "stock_bounded k b u K"
  shows "stock_bounded (Suc k) b u K' \<and>
    places_taken b u K' = places_taken b u K + (if (b, u) = (a, t) then m - n else 0)"
proof (cases "(b, u) = (a, t)")
  case True
  with assms(1,2,3,6) show ?thesis by (auto simp: stock_change_def stock_bounded_def places_taken_def)
next
  case False
  with stock_change_other [OF assms(1,4,5) False] assms(6) show ?thesis
    by (auto simp: stock_bounded_def places_taken_def)
qed

text \<open>A step that leaves Redis and the names in the books as they are.\<close>

lemma ledger_ok_books:
  assumes ok: "ledger_ok r n J w" and same: "w_redis w' = w_redis w" and market: "market_ok r (w_db w')"
    and books: "teams_of (w_db w') = teams_of (w_db w)" "orders_of (w_db w') = orders_of (w_db w)"
      "\<And>oid. closed_order (w_db w) oid \<Longrightarrow> closed_order (w_db w') oid"
      "\<And>j. j \<in> bodies (w_db w') \<Longrightarrow> j \<in> bodies (w_db w) \<or> body_ok (w_db w') j"
  shows "ledger_ok r (Suc n) (J \<union> bodies (w_db w')) w'"
proof -
  have "body_ok (w_db w') j" if "j \<in> J \<union> bodies (w_db w')" for j
    using that ok books(4) body_ok_mono [OF _ _ books(3)] unfolding ledger_ok_def books(2) by blast
  moreover have "holding a t (w_redis w) (w_db w') = holding a t (w_redis w) (w_db w)" for a t
    by (rule holding_cong) (simp_all add: books)
  ultimately show ?thesis
    using ok market books(3) unfolding ledger_ok_def same named_ok_def balanced_def books
    by (auto intro: stock_bounded_Suc)
qed

lemma ledger_ok_settlement:
  assumes ok: "ledger_ok r n J w" and M: "mysql_ok (rp_db r)"
    and run: "settle_SettlementMarketPayOrder (NewTradeRepository r E) (Some safego_Go) pay w = (q, w')"
  shows "ledger_ok r (Suc n) (J \<union> bodies (w_db w')) w'"
proof -
  have market: "market_ok r (w_db w')" using settlement_steps [OF M _ run] ok by (simp add: ledger_ok_def)
  from M run show ?thesis
  proof (cases rule: settle_service_cases)
    case refused
    with market show ?thesis by (intro ledger_ok_books [OF ok]) simp_all
  next
    case (settled l g y d res)
    then have w': "w_db w' = d" "w_redis w' = w_redis w" by (simp_all split: option.splits)
    show ?thesis
      by (rule ledger_ok_books [OF ok w'(2) market]) (simp_all add: w'(1) settle_books [OF M settled(12)])
  qed
qed

lemma ledger_ok_refund:
  assumes ok: "ledger_ok r n J w" and M: "mysql_ok (rp_db r)"
    and run: "refund_RefundOrder (NewTradeRepository r E)
      (all_strategies (NewTradeRepository r E) (Some safego_Go)) cmd w = (q, w')"
  shows "ledger_ok r (Suc n) (J \<union> bodies (w_db w')) w'"
proof -
  have market: "market_ok r (w_db w')" using refund_steps [OF M _ run] ok by (simp add: ledger_ok_def)
  have idle: ?thesis if "w' = w" using market that by (intro ledger_ok_books [OF ok]) simp_all
  from M run show ?thesis
  proof (cases rule: refund_service_cases)
    case (refunded l g rt x d b)
    have w': "w_db w' = d" "w_redis w' = w_redis w"
      using refunded(10) by (simp_all add: refunded_world_def split: option.splits)
    have inv: "teams_ok (rp_db r) (w_db w)" "named_ok (w_db w)" using ok by (simp_all add: ledger_ok_def market_ok_def)
    note books = refund_books [OF M inv refunded(5,6,7,8,9)]
    show ?thesis
      by (rule ledger_ok_books [OF ok w'(2) market]) (simp_all add: w'(1) books)
  qed (use idle in simp_all)
qed

text \<open>Other work: slots expire, settings and other tables change.\<close>

lemma keeps_stock_ok:
  assumes "keeps_stock K K'"
  shows "stock_bounded n a t K \<Longrightarrow> stock_bounded n a t K'" "places_taken a t K' = places_taken a t K"
    "K' (refund_lock_key oid) = K (refund_lock_key oid)"
proof -
  have eq: "K' (skey a t) = K (skey a t)" "K' (rkey a t) = K (rkey a t)"
    "K' (slot_key a t m) = K (slot_key a t m) \<or> K' (slot_key a t m) = None" for m
    using assms by (simp_all add: keeps_stock_def)
  note counts = used_cong [of K' a t K, OF eq(1)] recovered_cong [of K' a t K, OF eq(2)]
  show "places_taken a t K' = places_taken a t K" by (simp add: places_taken_def counts)
  show "stock_bounded n a t K'" if "stock_bounded n a t K"
    using that eq(3) by (auto simp: stock_bounded_def stock_ok_def counts eq(1,2)) metis
  show "K' (refund_lock_key oid) = K (refund_lock_key oid)" using assms by (simp add: keeps_stock_def)
qed

lemma ledger_ok_around:
  assumes ok: "ledger_ok r n J w" and same: "same_trade (w_db w) (w_db w')" and J: "bodies (w_db w') \<subseteq> J"
    and K: "keeps_stock (w_redis w) (w_redis w')"
  shows "ledger_ok r (Suc n) J w'"
proof -
  from same have books: "teams_of (w_db w') = teams_of (w_db w)" "orders_of (w_db w') = orders_of (w_db w)"
    "closed_order (w_db w') = closed_order (w_db w)" "body_ok (w_db w') = body_ok (w_db w)"
    by (auto simp: same_trade_def teams_of_def orders_of_def closed_order_def body_ok_def fun_eq_iff)
  have "market_ok r (w_db w')" using steps_to_same [OF same] ok by (simp add: steps_to_def ledger_ok_def)
  moreover have "holding a t (w_redis w') (w_db w') = holding a t (w_redis w) (w_db w)" for a t
    by (rule holding_cong) (simp_all add: books keeps_stock_ok(3) [OF K])
  ultimately show ?thesis
    using ok J unfolding ledger_ok_def named_ok_def balanced_def books keeps_stock_ok(2,3) [OF K]
    by (auto intro!: keeps_stock_ok(1) [OF K] stock_bounded_Suc)
qed

text \<open>A place that was taken and given back, as when the transaction of a lock fails.\<close>

lemma ledger_ok_undone:
  assumes ok: "ledger_ok r n J w" and same: "w_db w' = w_db w"
    and change: "stock_change a t k k (w_redis w) (w_redis w')" "k \<le> 1" and t: "plain_id t"
  shows "ledger_ok r (Suc n) (J \<union> bodies (w_db w')) w'"
proof -
  have locks: "w_redis w' (refund_lock_key oid) = w_redis w (refund_lock_key oid)" for oid
    using change(1) by (simp add: stock_change_def)
  have "stock_bounded (Suc n) b u (w_redis w') \<and> balanced b u (w_redis w') (w_db w')" if "plain_id u" for b u
  proof -
    have "stock_bounded n b u (w_redis w) \<and> balanced b u (w_redis w) (w_db w)"
      using ok that by (simp add: ledger_ok_def)
    then show ?thesis
      using stock_change_all [OF change(1,2,2) t that, of n b] locks
        holding_cong [of "w_redis w'" "w_redis w" "w_db w" "w_db w" b u]
      by (auto simp: balanced_def same)
  qed
  with ok show ?thesis unfolding ledger_ok_def same by (auto simp: locks)
qed

text \<open>An order that was written, for a team it opens without a place or joins with one.\<close>

lemma ledger_ok_placed:
  assumes ok: "ledger_ok r n J w" and market: "market_ok r (w_db w')" and t: "plain_id t"
    and books: "orders_of (w_db w') = orders_of (w_db w) @ [(u, a, oid)]" "\<not> closed_order (w_db w) oid"
      "db_tasks (w_db w') = db_tasks (w_db w)" "\<And>x. closed_order (w_db w) x \<Longrightarrow> closed_order (w_db w') x"
      "if t = '''' then team_id u \<and> teams_of (w_db w') = teams_of (w_db w) @ [(u, a)]
       else u = t \<and> teams_of (w_db w') = teams_of (w_db w) \<and> (u, a) \<in> set (teams_of (w_db w))"
    and change: "stock_change a t (if t = '''' then 0 else 1) 0 (w_redis w) (w_redis w')"
  shows "ledger_ok r (Suc n) (J \<union> bodies (w_db w')) w'"
proof -
  have locks: "w_redis w' (refund_lock_key x) = w_redis w (refund_lock_key x)" for x
    using change by (simp add: stock_change_def)
  have free: "w_redis w (refund_lock_key oid) = None" using ok books(2) by (auto simp: ledger_ok_def)
  have held: "holding b v (w_redis w') (w_db w') =
      holding b v (w_redis w) (w_db w) + (if v = u \<and> b = a then 1 else 0)" for b v
    by (auto simp: holding_def books(1) locks free)
  have "stock_bounded (Suc n) b v (w_redis w') \<and> balanced b v (w_redis w') (w_db w')" if "plain_id v" for b v
    using stock_change_all [OF change _ _ t that, of n b] ok that held [of b v] books(5)
    by (auto simp: ledger_ok_def balanced_def split: if_splits)
  moreover have "bodies (w_db w') = bodies (w_db w)" by (simp add: bodies_def books(3))
  moreover have "named_ok (w_db w')"
    using ok books(1,5) by (auto simp: ledger_ok_def named_ok_def split: if_splits)
  moreover have "body_ok (w_db w') j" if "body_ok (w_db w) j" for j
    by (rule body_ok_mono [OF that _ books(4)]) (auto simp: books(1))
  ultimately show ?thesis using ok market books(4) unfolding ledger_ok_def by (auto simp: locks)
qed

text \<open>A lock request: the place and the order together, or neither.\<close>

lemma ledger_ok_lock:
  assumes ok: "ledger_ok r n J w" and M: "mysql_ok (rp_db r)"
    and R: "redis_ok (rp_redis r)" "getbit_reads (rp_redis r)" "redis_up (rp_redis r)"
    and run: "app_LockMarketPayOrder (trade_app D r e) (Some req) w = (q, w')"
    and guards: "targets_ok (w_db w)" "lives_ok (w_db w)" "own_number (rp_db r) (w_db w) req"
    and names: "names_team (rp_db r) (w_db w) (lrq_ActivityID req) (lrq_TeamID req)"
    and n: "int n + 1 < int64_max"
  shows "ledger_ok r (Suc n) (J \<union> bodies (w_db w')) w'"
proof -
  let ?a = "lrq_ActivityID req" and ?t = "lrq_TeamID req"
  have market: "market_ok r (w_db w')"
    using lock_steps [OF M R(1,2) _ guards(1,3) run] ok by (simp add: ledger_ok_def)
  from M R(1,2) guards(3) run show ?thesis
  proof (cases rule: app_lock_calls)
    case idle
    with market show ?thesis by (intro ledger_ok_books [OF ok]) simp_all
  next
    case (called trial g sq)
    let ?act = "lock_activity (NormalizeLockNotify req) g"
    have act: "pa_ActivityID ?act = ?a" "pa_TeamID ?act = ?t" by (simp_all add: lock_activity_def)
    have t: "plain_id ?t" using names by (simp add: names_team_def)
    with ok have "stock_bounded n ?a ?t (w_redis w)" by (simp add: ledger_ok_def)
    then have stock: "stock_ok (pa_ActivityID ?act) (pa_TeamID ?act) (w_redis w)"
      "used (pa_ActivityID ?act) (pa_TeamID ?act) (w_redis w) + 1 < int64_max"
      "recovered (pa_ActivityID ?act) (pa_TeamID ?act) (w_redis w) + 1 < int64_max"
      using n by (simp_all add: stock_bounded_def act)
    have valid: "\<forall>x \<in> set (db_activities (w_db w)). 0 \<le> a_ValidTime x" using guards(2) by (simp add: lives_ok_def)
    from called(4) M R(1,3) stock valid show ?thesis
    proof (cases rule: lock_service_stock)
      case (failed e' k)
      with act show ?thesis by (intro ledger_ok_undone [OF ok failed(2) _ _ t, of ?a k]) auto
    next
      case (locked order agg)
      have change: "stock_change ?a ?t (if ?t = '''' then 0 else 1) 0 (w_redis w) (w_redis w')"
        using locked(6) by (simp only: act)
      show ?thesis
        by (rule lock_books [where agg = agg, unfolded locked(3) act, OF M locked(5) names])
          (rule ledger_ok_placed [OF ok market t _ _ _ _ _ change])
    qed
  qed
qed

lemma refund_lock_key_inject [simp]: "refund_lock_key x = refund_lock_key y \<longleftrightarrow> x = y"
  by (simp add: refund_lock_key_def)

text \<open>The order whose lock is taken no longer holds its place.\<close>

lemma holding_given_back:
  assumes keys: "distinct (map (\<lambda>l. my_ck M (l_OrderID l)) (db_lists d))" and x: "(t, a, oid) \<in> set (orders_of d)"
    and K: "K (refund_lock_key oid) = None"
    and K': "\<And>x. K' (refund_lock_key x) = (if x = oid then Some v else K (refund_lock_key x))"
  shows "holding b u K' d + (if u = t \<and> b = a then 1 else 0) = holding b u K d"
proof -
  have "map (\<lambda>l. my_ck M (l_OrderID l)) (db_lists d) = map (my_ck M) (map (\<lambda>p. snd (snd p)) (orders_of d))"
    by (simp add: orders_of_def)
  with keys have "distinct (map (\<lambda>p. snd (snd p)) (orders_of d))" by (metis distinct_map)
  from cnt_without [OF this x, of "\<lambda>x. fst x = u \<and> fst (snd x) = b \<and> K (refund_lock_key (snd (snd x))) = None"] K
  have "cnt (\<lambda>x. (fst x = u \<and> fst (snd x) = b \<and> K (refund_lock_key (snd (snd x))) = None) \<and> snd (snd x) \<noteq> oid)
      (orders_of d) + (if u = t \<and> b = a then 1 else 0) = holding b u K d"
    by (auto simp: holding_def)
  moreover have "holding b u K' d = cnt (\<lambda>x. (fst x = u \<and> fst (snd x) = b \<and>
      K (refund_lock_key (snd (snd x))) = None) \<and> snd (snd x) \<noteq> oid) (orders_of d)"
    unfolding holding_def K' by (rule cnt_cong) auto
  ultimately show ?thesis by simp
qed

lemma ledger_ok_given_back:
  assumes ok: "ledger_ok r n J w" and named: "(t, a, oid) \<in> set (orders_of (w_db w))" "closed_order (w_db w) oid"
    and free: "w_redis w (refund_lock_key oid) = None"
    and K: "K = (w_redis w)(refund_lock_key oid \<mapsto> v)" and change: "stock_change a t 0 1 K K'"
  shows "ledger_ok r (Suc n) J (w\<lparr>w_redis := K'\<rparr>)"
proof -
  from named(1) ok have "team_id t" by (fastforce simp: ledger_ok_def named_ok_def)
  then have t: "plain_id t" by (simp add: team_id_def)
  have taken: "K' (refund_lock_key x) = (if x = oid then Some v else w_redis w (refund_lock_key x))" for x
    using change by (simp add: stock_change_def K)
  have keys: "distinct (map (\<lambda>l. my_ck (rp_db r) (l_OrderID l)) (db_lists (w_db w)))"
    using ok by (simp add: ledger_ok_def market_ok_def teams_ok_def)
  have "stock_bounded (Suc n) b u K' \<and> balanced b u K' (w_db w)" if u: "plain_id u" for b u
  proof -
    have old: "stock_bounded n b u (w_redis w)" "balanced b u (w_redis w) (w_db w)"
      using ok u by (simp_all add: ledger_ok_def)
    then have "stock_bounded n b u K" "places_taken b u K = places_taken b u (w_redis w)"
      by (simp_all add: K stock_bounded_def stock_ok_def places_taken_def)
    with stock_change_all [OF change _ _ t u, of n b] old(2)
      holding_given_back [OF keys named(1) free taken, of b u]
    show ?thesis by (auto simp: balanced_def split: if_splits)
  qed
  then show ?thesis using ok named(2) by (auto simp: ledger_ok_def taken)
qed

text \<open>A message to the consumer of refunds: the first one of an order gives its place back.\<close>

lemma ledger_ok_message:
  assumes ok: "ledger_ok r n J w" and M: "mysql_ok (rp_db r)"
    and R: "redis_ok (rp_redis r)" "redis_up (rp_redis r)" and j: "j \<in> J"
    and run: "consume_one (team_refund_handler (all_strategies (NewTradeRepository r E) spawn)) (Some j) w = (ack, w')"
    and n: "int n + 1 < int64_max"
  shows "ledger_ok r (Suc n) J w'"
proof -
  let ?h = "team_refund_handler (all_strategies (NewTradeRepository r E) spawn)"
  have idle: ?thesis if "w' = w"
    using ok that by (auto simp: ledger_ok_def intro: stock_bounded_Suc)
  show ?thesis
  proof (cases "\<exists>msg rt. Unmarshal_TeamRefundSuccess (Some j) = Some msg \<and> GetRefundTypeByCode (trs_Type msg) = Inr rt")
    case False
    then have "snd (?h (Some j) w) = w"
      by (auto simp: team_refund_handler_def RestoreTeamLockStock_all split: option.splits sum.splits)
    with run idle show ?thesis by (auto simp: consume_one_def split: prod.splits sum.splits go_error.splits)
  next
    case True
    then obtain msg rt where msg: "Unmarshal_TeamRefundSuccess (Some j) = Some msg"
      "GetRefundTypeByCode (trs_Type msg) = Inr rt" by blast
    let ?a = "trs_ActivityID msg" and ?t = "trs_TeamID msg" and ?oid = "trs_OrderID msg"
    have named: "(?t, ?a, ?oid) \<in> set (orders_of (w_db w))" "closed_order (w_db w) ?oid"
      using ok j msg by (auto simp: ledger_ok_def body_ok_def)
    then have "team_id ?t" using ok by (fastforce simp: ledger_ok_def named_ok_def)
    then have t: "plain_id ?t" by (simp add: team_id_def)
    have stock: "stock_bounded n ?a ?t (w_redis w)" using ok t by (simp add: ledger_ok_def)
    have h: "?h (Some j) w = (case repo_Refund2AddRecovery r (rkey ?a ?t) ?oid (w_redis w) of (x, K) \<Rightarrow> (x, w\<lparr>w_redis := K\<rparr>))"
      using consume_refund [OF msg] by (simp add: on_redis_def)
    show ?thesis
    proof (cases "?oid = '''' \<or> w_redis w (refund_lock_key ?oid) \<noteq> None")
      case True
      then have "snd (?h (Some j) w) = w"
        using Refund2AddRecovery_up [OF R, of ?a ?t "w_redis w" ?oid] stock n
        by (cases "?oid = ''''") (auto simp: h repo_Refund2AddRecovery_def stock_bounded_def)
      with run idle show ?thesis by (auto simp: consume_one_def split: prod.splits sum.splits go_error.splits)
    next
      case fresh: False
      let ?K = "(w_redis w)(refund_lock_key ?oid \<mapsto> VInt 1 (Some 2592000))"
      let ?K' = "?K(rkey ?a ?t \<mapsto> VInt (recovered ?a ?t ?K + 1) (ttl_of (?K (rkey ?a ?t))))"
      have "?h (Some j) w = (Inr (), w\<lparr>w_redis := ?K'\<rparr>)"
        using Refund2AddRecovery_up [OF R, of ?a ?t "w_redis w" ?oid] stock n fresh
        by (simp add: h stock_bounded_def)
      with run have w': "w' = w\<lparr>w_redis := ?K'\<rparr>" by (simp add: consume_one_def)
      have "stock_change ?a ?t 0 1 ?K ?K'"
        by (rule stock_change_recovered) (use stock in \<open>simp add: stock_bounded_def stock_ok_def\<close>)
      from ledger_ok_given_back [OF ok named _ refl this] fresh show ?thesis unfolding w' by blast
    qed
  qed
qed

lemma ledger_start_ok:
  assumes "db_orders (w_db w) = []" "db_lists (w_db w) = []" "db_tasks (w_db w) = []"
    and "\<forall>a t. fresh_stock a t (w_redis w)" and "\<forall>oid. w_redis w (refund_lock_key oid) = None"
  shows "ledger_ok r 0 {} w"
  using assms fresh_stock_ok [of _ _ "w_redis w"]
  by (auto simp: ledger_ok_def market_ok_def teams_ok_def numbers_ok_def named_ok_def teams_of_def orders_of_def
      bodies_def stock_bounded_def balanced_def holding_def places_taken_def)

lemma ledger_holds:
  assumes "ledger D r n J w" and M: "mysql_ok (rp_db r)"
    and R: "redis_ok (rp_redis r)" "getbit_reads (rp_redis r)" "redis_up (rp_redis r)"
  shows "int n < int64_max \<Longrightarrow> ledger_ok r n J w"
  using assms(1)
proof induction
  case (start w)
  then show ?case by (intro ledger_start_ok)
next
  case (lock n J w e req lres w')
  then show ?case by (intro ledger_ok_lock [OF _ M R]) simp_all
next
  case (settlement n J w E pay sres w')
  then show ?case by (intro ledger_ok_settlement [OF _ M]) simp_all
next
  case (refund n J w E cmd rres w')
  then show ?case by (intro ledger_ok_refund [OF _ M]) simp_all
next
  case (message n J w j E spawn ack w')
  then show ?case by (intro ledger_ok_message [OF _ M R(1,3)]) simp_all
next
  case (around n J w w')
  then show ?case by (intro ledger_ok_around) simp_all
qed

section \<open>Properties\<close>

text \<open>The refunded orders of a team whose message has not come.\<close>

definition pending_refunds :: "string \<Rightarrow> world \<Rightarrow> nat" where
  "pending_refunds t w = cnt (\<lambda>l. l_TeamID l = t \<and> l_Status l = TradeOrderClose \<and>
     w_redis w (refund_lock_key (l_OrderID l)) = None) (db_lists (w_db w))"

lemma cnt_map: "cnt P (map f xs) = cnt (\<lambda>x. P (f x)) xs"
  by (induction xs) auto

lemma cnt_split: "cnt P xs = cnt (\<lambda>x. P x \<and> Q x) xs + cnt (\<lambda>x. P x \<and> \<not> Q x) xs"
  by (induction xs) auto

text \<open>The rows of a team are those the books have under its name and activity.\<close>

lemma team_rows:
  assumes inv: "teams_ok M d" and named: "named_ok d" and g: "g \<in> set (db_orders d)"
  shows "cnt (\<lambda>p. p = (o_TeamID g, o_ActivityID g)) (teams_of d) = 1"
    and "l \<in> set (db_lists d) \<Longrightarrow>
      l_TeamID l = o_TeamID g \<and> l_ActivityID l = o_ActivityID g \<longleftrightarrow> sqlEq M (l_TeamID l) (o_TeamID g)"
    and "l \<in> set (db_lists d) \<Longrightarrow> l_TeamID l = o_TeamID g \<Longrightarrow> l_ActivityID l = o_ActivityID g"
proof -
  have keys: "distinct (map (\<lambda>g. my_ck M (o_TeamID g)) (db_orders d))" using inv by (simp add: teams_ok_def)
  have only: "g' = g" if "g' \<in> set (db_orders d)" "sqlEq M (o_TeamID g') (o_TeamID g)" for g'
    using filter_key_unique [OF keys that(1) g] that(2) by (simp add: sqlEq_def)
  have "cnt (\<lambda>p. p = (o_TeamID g, o_ActivityID g)) (teams_of d) =
      cnt (\<lambda>g'. my_ck M (o_TeamID g') = my_ck M (o_TeamID g)) (db_orders d)"
    using only unfolding teams_of_def cnt_map by (intro cnt_cong) (auto simp: sqlEq_def)
  moreover have "0 < cnt (\<lambda>g'. my_ck M (o_TeamID g') = my_ck M (o_TeamID g)) (db_orders d)"
    using g by (auto simp: cnt_pos_iff)
  ultimately show "cnt (\<lambda>p. p = (o_TeamID g, o_ActivityID g)) (teams_of d) = 1"
    using cnt_key_le_1 [OF keys] by (metis le_antisym Suc_leI One_nat_def)
  assume "l \<in> set (db_lists d)"
  then have "(l_TeamID l, l_ActivityID l, l_OrderID l) \<in> set (orders_of d)" by (auto simp: orders_of_def)
  with named obtain g' where "g' \<in> set (db_orders d)" "o_TeamID g' = l_TeamID l" "o_ActivityID g' = l_ActivityID l"
    by (fastforce simp: named_ok_def teams_of_def)
  with only [of g'] show "l_TeamID l = o_TeamID g \<and> l_ActivityID l = o_ActivityID g \<longleftrightarrow> sqlEq M (l_TeamID l) (o_TeamID g)"
    "l_TeamID l = o_TeamID g \<Longrightarrow> l_ActivityID l = o_ActivityID g" by auto
qed

lemma open_order_free:
  assumes ok: "ledger_ok r n J w" and l: "l \<in> set (db_lists (w_db w))" "l_Status l \<noteq> TradeOrderClose"
  shows "w_redis w (refund_lock_key (l_OrderID l)) = None"
proof (rule ccontr)
  assume "w_redis w (refund_lock_key (l_OrderID l)) \<noteq> None"
  with ok obtain l2 where "l2 \<in> set (db_lists (w_db w))" "l_OrderID l2 = l_OrderID l" "l_Status l2 = TradeOrderClose"
    by (auto simp: ledger_ok_def closed_order_def)
  moreover have "distinct (map (\<lambda>l. my_ck (rp_db r) (l_OrderID l)) (db_lists (w_db w)))"
    using ok by (simp add: ledger_ok_def market_ok_def teams_ok_def)
  ultimately show False using filter_key_unique [OF _ _ l(1), of "\<lambda>l. my_ck (rp_db r) (l_OrderID l)" l2] l(2) by simp
qed

lemma ledger_balance:
  assumes ok: "ledger_ok r n J w" and g: "g \<in> set (db_orders (w_db w))"
  shows "places_taken (o_ActivityID g) (o_TeamID g) (w_redis w) + 1 =
    o_LockCount g + int (pending_refunds (o_TeamID g) w)"
proof -
  let ?a = "o_ActivityID g" and ?t = "o_TeamID g" and ?d = "w_db w"
  have inv: "teams_ok (rp_db r) ?d" and named: "named_ok ?d" using ok by (simp_all add: ledger_ok_def market_ok_def)
  note rows = team_rows [OF inv named g]
  have "(?t, ?a) \<in> set (teams_of ?d)" using g by (auto simp: teams_of_def)
  with named have "plain_id ?t" by (auto simp: named_ok_def team_id_def)
  with ok have "balanced ?a ?t (w_redis w) ?d" by (simp add: ledger_ok_def)
  then have balance: "places_taken ?a ?t (w_redis w) + 1 = int (holding ?a ?t (w_redis w) ?d)"
    by (simp add: balanced_def rows(1))
  have "holding ?a ?t (w_redis w) ?d = cnt (\<lambda>l. sqlEq (rp_db r) (l_TeamID l) ?t \<and>
      w_redis w (refund_lock_key (l_OrderID l)) = None) (db_lists ?d)"
    unfolding holding_def orders_of_def cnt_map by (intro cnt_cong) (use rows(2) in auto)
  also have "\<dots> = open_count (rp_db r) ?d ?t + pending_refunds ?t w"
    unfolding open_count_def pending_refunds_def
    by (subst cnt_split [where Q = "\<lambda>l. l_Status l \<noteq> TradeOrderClose"])
      (intro arg_cong2 [where f = "(+)"] cnt_cong; use rows(2,3) open_order_free [OF ok] in auto)
  finally have "int (holding ?a ?t (w_redis w) ?d) = o_LockCount g + int (pending_refunds ?t w)"
    using inv g by (simp add: teams_ok_def team_ok_def)
  with balance show ?thesis by simp
qed

text \<open>
  C7. The two books of a team agree. Start from an empty market with Redis up, and let requests,
  payments, refunds and messages, late or repeated, follow one another in any order. A request names
  no team or one of its own activity, by a plain id, and has a trade number of which the user has no
  paid or closed order; activities want at least one member and have no negative validity; a message
  comes within the thirty days its lock is kept; there are fewer than \<open>2^63 - 2\<close> steps.
  Then the places taken in Redis, with the one of the order that opened the team, are the orders of
  the team that are not closed and the refunds whose message is still under way. So Redis lets the
  next request for a place through exactly as long as these two together do not exceed the target,
  which is one request more than the database has places for.
\<close>

theorem places_match_orders:
  assumes run: "ledger D r n J w" and n: "int n + 1 < int64_max" and M: "mysql_ok (rp_db r)"
    and R: "redis_ok (rp_redis r)" "getbit_reads (rp_redis r)" "redis_up (rp_redis r)"
    and g: "g \<in> set (db_orders (w_db w))" and v: "0 \<le> v"
  shows "places_taken (o_ActivityID g) (o_TeamID g) (w_redis w) + 1 =
      o_LockCount g + int (pending_refunds (o_TeamID g) w) \<and>
    fst (repo_OccupyTeamStock r (GenerateTeamStockKey (o_ActivityID g) (o_TeamID g))
        (GenerateRecoveryTeamStockKey (o_ActivityID g) (o_TeamID g)) (o_TargetCount g) v (w_redis w)) =
      Inr (o_LockCount g + int (pending_refunds (o_TeamID g) w) \<le> o_TargetCount g)"
proof -
  have ok: "ledger_ok r n J w" using ledger_holds [OF run M R] n by simp
  note balance = ledger_balance [OF ok g]
  from ok g have "team_id (o_TeamID g)" by (fastforce simp: ledger_ok_def named_ok_def teams_of_def)
  then have "stock_bounded n (o_ActivityID g) (o_TeamID g) (w_redis w)"
    using ok by (simp add: ledger_ok_def team_id_def)
  then have "stock_ok (o_ActivityID g) (o_TeamID g) (w_redis w)"
    "used (o_ActivityID g) (o_TeamID g) (w_redis w) + 1 < int64_max"
    using n by (simp_all add: stock_bounded_def)
  from Occupy_up [OF R(1,3) this(1) v this(2)] balance show ?thesis by (simp add: places_taken_def) linarith
qed


text \<open>Ann opens a team from an empty market; the books of that team agree.\<close>

lemma places_match_orders_witness:
  "\<exists>J w g. ledger refDecimal refRepository 1 J w \<and> g \<in> set (db_orders (w_db w)) \<and>
     places_taken (o_ActivityID g) (o_TeamID g) (w_redis w) + 1 =
       o_LockCount g + int (pending_refunds (o_TeamID g) w)"
proof -
  obtain order w1 where run: "app_LockMarketPayOrder (trade_app refDecimal refRepository ex_market_env)
      (Some ex_lock_request) ex_market = (Inr (Success order), w1)" "lrs_OrderID order \<noteq> ''''"
    using ex_request_granted by blast
  have empty: "ledger refDecimal refRepository 0 {} ex_market"
    by (rule ledger.start) (simp_all add: ex_market_def fresh_stock_def)
  have one: "ledger refDecimal refRepository 1 ({} \<union> bodies (w_db w1)) w1"
    unfolding One_nat_def
    by (rule ledger.lock [OF empty run(1)])
      (simp_all add: targets_ok_def lives_ok_def own_number_def names_team_def plain_id_def ex_market_def
        ex_activity_def ex_lock_request_def)
  note ref = mysql_ok_ref redis_ok_ref getbit_reads_ref redis_up_ref
  have "\<not> no_success empty_lock_response (Inr (Success order))"
    using run(2) by (auto simp: no_success_def Success_def FailR_def empty_lock_response_def)
  then obtain l where "l \<in> set (db_lists (w_db w1))"
    using lock_request_outcome [OF _ _ _ run(1)] ref by (auto simp: ex_market_def)
  moreover have "named_ok (w_db w1)"
    using ledger_holds [OF one] ref by (simp add: ledger_ok_def int64_max_def)
  ultimately obtain g where g: "g \<in> set (db_orders (w_db w1))"
    by (fastforce simp: named_ok_def orders_of_def teams_of_def)
  have n: "int 1 + 1 < int64_max" by (simp add: int64_max_def)
  have "places_taken (o_ActivityID g) (o_TeamID g) (w_redis w1) + 1 =
      o_LockCount g + int (pending_refunds (o_TeamID g) w1)"
    using places_match_orders [OF one n _ _ _ _ g order_refl] ref by simp
  with one g show ?thesis by blast
qed

end
