(* ===== verification/Task_Progress.thy ===== *)
theory Task_Progress
  imports Trade_Task
begin

text \<open>
  What rounds of the notify job achieve while callbacks are answered: each round delivers the first
  fifty tasks that wait, in the order of their ids, and leaves every other row alone. With what
  \<open>Trade_Task\<close> shows of deliveries that fail, this is all the job does.
\<close>

section \<open>One round\<close>

definition waiting :: "NotifyTask \<Rightarrow> bool" where
  "waiting x \<longleftrightarrow> t_NotifyStatus x = NotifyTaskInit \<or> t_NotifyStatus x = NotifyTaskRetry"

definition told :: "call_env \<Rightarrow> NotifyTask \<Rightarrow> NotifyTask" where
  "told E x = x\<lparr>t_NotifyStatus := NotifyTaskSuccess, t_NotifyCount := t_NotifyCount x + 1, t_UpdateTime := ce_now E 0\<rparr>"

lemma not_waiting_told [simp]: "\<not> waiting (told E x)"
  by (simp add: waiting_def told_def)

lemma told_keys [simp]: "t_TeamID (told E x) = t_TeamID x" "t_UUID (told E x) = t_UUID x"
  by (simp_all add: told_def)

text \<open>The port answers "success" and writes no task; what else it does is open.\<close>

definition port_delivers :: "world ITradePort \<Rightarrow> bool" where
  "port_delivers port \<longleftrightarrow>
     (\<forall>t w. \<exists>w'. db_tasks (w_db w') = db_tasks (w_db w) \<and>
        PortGroupBuyNotify port t w = (Inr NotifyTaskHTTPSuccess, w'))"

lemma exec_task_told:
  assumes M: "mysql_ok (rp_db r)" "mysql_up (rp_db r)" and port: "port_delivers port"
    and t: "nt_Status t = NotifyTaskInit \<or> nt_Status t = NotifyTaskRetry"
  obtains c' w' where "exec_task (NewTradeRepository r E) port t c w = (Inr c', w')"
    "db_tasks (w_db w') = upd_where (task_hit (rp_db r) t) (told E) (db_tasks (w_db w))"
proof -
  from port obtain w1 where w1: "db_tasks (w_db w1) = db_tasks (w_db w)"
    "PortGroupBuyNotify port t w = (Inr NotifyTaskHTTPSuccess, w1)"
    unfolding port_delivers_def by blast
  have upd: "UpdateNotifyTaskStatusSuccess (NewTradeRepository r E) t = on_db (set_task_status r E 1 t)"
    by (simp add: NewTradeRepository_def repo_UpdateNotifyTaskStatusSuccess_def)
  have "\<exists>c' w'. exec_task (NewTradeRepository r E) port t c w = (Inr c', w') \<and>
      db_tasks (w_db w') = upd_where (task_hit (rp_db r) t) (told E) (db_tasks (w_db w))"
    using t w1 dbUpdates_up [OF mysql_okD(3) [OF M(1)] mysql_upD(3) [OF M(2)]]
    by (auto simp: exec_task_def IsTerminal_def exec_answer_def move_task_def count_if_one_def upd on_db_def
        set_task_status_def told_def [abs_def])
  then show ?thesis using that by blast
qed

lemma exec_tasks_told:
  assumes M: "mysql_ok (rp_db r)" "mysql_up (rp_db r)" and port: "port_delivers port"
    and "\<forall>t \<in> set ts. nt_Status t = NotifyTaskInit \<or> nt_Status t = NotifyTaskRetry"
  shows "\<exists>c' w'. exec_tasks (NewTradeRepository r E) port ts c w = (Inr c', w') \<and>
    db_tasks (w_db w') = fold (\<lambda>t. upd_where (task_hit (rp_db r) t) (told E)) ts (db_tasks (w_db w))"
  using assms(4)
proof (induction ts arbitrary: c w)
  case (Cons t ts)
  then have "nt_Status t = NotifyTaskInit \<or> nt_Status t = NotifyTaskRetry" by simp
  from exec_task_told [OF M port this, of E c w] obtain c1 w1 where
    "exec_task (NewTradeRepository r E) port t c w = (Inr c1, w1)"
    "db_tasks (w_db w1) = upd_where (task_hit (rp_db r) t) (told E) (db_tasks (w_db w))"
    by blast
  with Cons.IH [of c1 w1] Cons.prems show ?case by (simp add: go_bind_def)
qed simp

text \<open>The keys of the rows are apart, so a delivery writes the row it was read from.\<close>

lemma fold_told:
  assumes "tasks_keyed M xs" and "distinct rows" and "set rows \<subseteq> set xs"
  shows "fold (\<lambda>t. upd_where (task_hit M t) (told E)) (map toNotifyEntity rows) xs =
    upd_where (\<lambda>x. x \<in> set rows) (told E) xs"
  using assms
proof (induction rows arbitrary: xs)
  case (Cons x rows)
  let ?xs = "upd_where (\<lambda>y. y = x) (told E) xs"
  note unique = filter_key_unique [OF Cons.prems(1) [unfolded tasks_keyed_def]]
  have hit: "task_hit M (toNotifyEntity x) y \<longleftrightarrow> y = x" if "y \<in> set xs" for y
    using unique [OF that, of x] Cons.prems(3) by (auto simp: toNotifyEntity_def sqlEq_def)
  have "told E x \<notin> set rows"
  proof
    assume told: "told E x \<in> set rows"
    with Cons.prems(3) unique [of "told E x" x] have "told E x = x" by auto
    with told Cons.prems(2) show False by simp
  qed
  moreover have "set rows \<subseteq> set ?xs" using Cons.prems(2,3) by (auto simp: upd_where_def image_iff)
  moreover have "tasks_keyed M ?xs" using Cons.prems(1) by (simp add: tasks_keyed_def)
  ultimately show ?case
    using Cons.IH [of ?xs] Cons.prems(2) hit by (auto simp: upd_where_def comp_def cong: map_cong)
qed (simp add: upd_where_def)

lemma job_round_told:
  assumes M: "mysql_ok (rp_db r)" "mysql_up (rp_db r)" and port: "port_delivers port"
    and keyed: "tasks_keyed (rp_db r) (db_tasks (w_db w))"
  shows "db_tasks (w_db (snd (ExecNotifyJob (NewTradeRepository r E) port None w))) =
    upd_where (\<lambda>x. x \<in> set (take 50 (filter waiting (db_tasks (w_db w))))) (told E) (db_tasks (w_db w))"
proof -
  let ?xs = "db_tasks (w_db w)"
  let ?rows = "take 50 (filter waiting ?xs)"
  have "dbFind db_tasks (my_tasks (rp_db r)) (\<lambda>t. t_NotifyStatus t = 0 \<or> t_NotifyStatus t = 2)
      IdAsc (Some 50) (w_db w) = (Inr ?rows, w_db w)"
    using dbFind_up [OF mysql_okD(3) [OF M(1)] mysql_upD(3) [OF M(2)], of db_tasks
      "\<lambda>t. t_NotifyStatus t = 0 \<or> t_NotifyStatus t = 2" IdAsc "Some 50" "w_db w"]
    by (auto simp: find_ok_def waiting_def [abs_def])
  then have "QueryUnExecutedNotifyTaskList (NewTradeRepository r E) w = (Inr (map toNotifyEntity ?rows), w)"
    by (simp add: NewTradeRepository_def on_db_def repo_QueryUnExecutedNotifyTaskList_def go_bind_def)
  moreover have "\<forall>t \<in> set (map toNotifyEntity ?rows). nt_Status t = NotifyTaskInit \<or> nt_Status t = NotifyTaskRetry"
    by (auto simp: toNotifyEntity_def waiting_def dest: in_set_takeD)
  from exec_tasks_told [OF M port this] obtain c w' where
    "exec_tasks (NewTradeRepository r E) port (map toNotifyEntity ?rows) \<lparr>tc_success = 0, tc_error = 0, tc_retry = 0\<rparr> w
      = (Inr c, w')"
    "db_tasks (w_db w') = fold (\<lambda>t. upd_where (task_hit (rp_db r) t) (told E)) (map toNotifyEntity ?rows) ?xs"
    by blast
  moreover have "distinct ?rows"
    using keyed by (simp add: tasks_keyed_def distinct_map)
  moreover have "set ?rows \<subseteq> set ?xs" by (auto dest: in_set_takeD)
  ultimately show ?thesis
    using fold_told [OF keyed] by (simp add: ExecNotifyJob_def execList_def go_bind_def)
qed

section \<open>Properties\<close>

lemma filter_told:
  "distinct xs \<Longrightarrow>
   filter waiting (upd_where (\<lambda>x. x \<in> set (take n (filter waiting xs))) (told E) xs) = drop n (filter waiting xs)"
proof -
  assume "distinct xs"
  then have W: "distinct (filter waiting xs)" by simp
  have gone: "filter waiting (map (\<lambda>x. if x \<in> R then told E x else x) ys) = filter (\<lambda>x. x \<notin> R) (filter waiting ys)"
    for R ys by (induction ys) auto
  have "filter (\<lambda>x. x \<notin> set (take n ws)) ws = drop n ws" if "distinct ws" for ws :: "NotifyTask list"
  proof -
    from that have "set (take n ws) \<inter> set (drop n ws) = {}" by (simp add: set_take_disj_set_drop_if_distinct)
    then have "filter (\<lambda>x. x \<notin> set (take n ws)) (take n ws @ drop n ws) = drop n ws"
      by (auto simp del: append_take_drop_id simp: filter_empty_conv filter_id_conv)
    then show ?thesis by simp
  qed
  from this [OF W] show ?thesis unfolding upd_where_def gone .
qed

text \<open>A row that is final stays as it is.\<close>

lemma round_keeps_final:
  "\<not> waiting y \<Longrightarrow> y \<in> set xs \<Longrightarrow>
   y \<in> set (upd_where (\<lambda>x. x \<in> set (take n (filter waiting xs))) (told E) xs)"
  by (auto simp: upd_where_def image_iff dest: in_set_takeD intro!: bexI [of _ y])

text \<open>
  C32. While callbacks are answered and MySQL is up, the notify job drains its queue in the order of the
  tasks: every round delivers the next fifty, so after as many rounds as it takes none waits. A task it
  came to is marked done after exactly one more attempt, and the tasks behind it are as they were.
\<close>

theorem answered_tasks_are_delivered:
  assumes M: "mysql_ok (rp_db r)" "mysql_up (rp_db r)" and port: "port_delivers port"
    and keyed: "tasks_keyed (rp_db r) (db_tasks (w_db w))"
  shows "filter waiting (db_tasks (w_db (job_rounds r port Es w))) =
      drop (50 * length Es) (filter waiting (db_tasks (w_db w))) \<and>
    (\<forall>x \<in> set (take (50 * length Es) (filter waiting (db_tasks (w_db w)))).
       \<exists>E \<in> set Es. told E x \<in> set (db_tasks (w_db (job_rounds r port Es w))))"
proof -
  have "filter waiting (db_tasks (w_db (job_rounds r port Es w))) =
      drop (50 * length Es) (filter waiting (db_tasks (w_db w))) \<and>
    (\<forall>x \<in> set (take (50 * length Es) (filter waiting (db_tasks (w_db w)))).
       \<exists>E \<in> set Es. told E x \<in> set (db_tasks (w_db (job_rounds r port Es w)))) \<and>
    (\<forall>y \<in> set (db_tasks (w_db w)). \<not> waiting y \<longrightarrow> y \<in> set (db_tasks (w_db (job_rounds r port Es w))))"
    using keyed
  proof (induction Es arbitrary: w)
    case (Cons E Es)
    let ?xs = "db_tasks (w_db w)" and ?w = "snd (ExecNotifyJob (NewTradeRepository r E) port None w)"
    let ?W = "filter waiting ?xs"
    note one = job_round_told [OF M port Cons.prems, of E]
    have "distinct ?xs" using Cons.prems by (simp add: tasks_keyed_def distinct_map)
    from filter_told [OF this] have rest: "filter waiting (db_tasks (w_db ?w)) = drop 50 ?W" unfolding one .
    have "tasks_keyed (rp_db r) (db_tasks (w_db ?w))" unfolding one using Cons.prems by (simp add: tasks_keyed_def)
    note IH = Cons.IH [OF this, unfolded rest]
    have first: "told E x \<in> set (db_tasks (w_db ?w))" if "x \<in> set (take 50 ?W)" for x
      using that in_set_takeD [OF that] unfolding one by (auto simp: upd_where_def image_iff intro!: bexI [of _ x])
    have "\<exists>E' \<in> set (E # Es). told E' x \<in> set (db_tasks (w_db (job_rounds r port Es ?w)))"
      if "x \<in> set (take (50 + 50 * length Es) ?W)" for x
    proof -
      from that consider "x \<in> set (take 50 ?W)" | "x \<in> set (take (50 * length Es) (drop 50 ?W))"
        unfolding take_add by auto
      then show ?thesis using IH first by cases auto
    qed
    moreover have "\<forall>y \<in> set ?xs. \<not> waiting y \<longrightarrow> y \<in> set (db_tasks (w_db (job_rounds r port Es ?w)))"
      using IH round_keeps_final [of _ ?xs 50 E] unfolding one by blast
    ultimately show ?case using IH by (simp add: drop_drop add.commute)
  qed simp
  then show ?thesis by blast
qed

text \<open>One task, one round.\<close>

lemma answered_tasks_witness:
  "\<exists>y \<in> set (db_tasks (w_db (job_rounds refRepository (answer_port NotifyTaskHTTPSuccess)
       [\<lparr>ce_now = (\<lambda>_. 5), ce_rand = (\<lambda>_. 0)\<rparr>] ex_task_world))). t_NotifyStatus y = NotifyTaskSuccess \<and> t_NotifyCount y = 1"
proof -
  let ?E = "\<lparr>ce_now = (\<lambda>_. 5), ce_rand = (\<lambda>_. 0)\<rparr> :: call_env" and ?port = "answer_port NotifyTaskHTTPSuccess"
  have "port_delivers ?port" by (simp add: port_delivers_def answer_port_def)
  from answered_tasks_are_delivered [OF _ _ this, of refRepository ex_task_world "[?E]"] mysql_ok_ref mysql_up_ref
  have "told ?E ex_task \<in> set (db_tasks (w_db (job_rounds refRepository ?port [?E] ex_task_world)))"
    by (simp add: tasks_keyed_def ex_task_world_def waiting_def ex_task_def)
  then show ?thesis by (rule bexI [rotated]) (simp add: told_def ex_task_def)
qed

end
