(* ===== verification/Timeout_Progress.thy ===== *)
theory Timeout_Progress
  imports Jobs
begin

text \<open>
  What a run of the timeout job achieves when nothing is down: it closes the orders it is given, ten at
  most, and leaves every other order alone. That an order can be closed takes that its trade number
  finds it -- \<open>Jobs\<close> shows what happens otherwise -- and that its team is still in progress.
\<close>

section \<open>One refund\<close>

lemma one_row_up:
  assumes "gorm_ok ident setid clash G" and "gorm_up clash' G" and "cnt (\<lambda>x. P x \<and> f x \<noteq> x) (tab d) = 1"
  shows "one_row (dbUpdates tab put G P f) d = (Inr (), put (upd_where P f (tab d)) d)"
  using assms(3) by (simp add: one_row_def go_bind_def dbUpdates_up [OF assms(1,2)])

lemma cnt_one:
  assumes "distinct (map key xs)" and "x \<in> set xs" and "P x" and "\<And>y. y \<in> set xs \<Longrightarrow> P y \<Longrightarrow> key y = key x"
  shows "cnt P xs = 1"
proof -
  have "cnt P xs = cnt (\<lambda>y. key y = key x) xs"
    by (rule cnt_cong) (use assms filter_key_unique [OF assms(1) _ assms(2)] in blast)
  moreover have "0 < cnt P xs" using assms(2,3) by (auto simp: cnt_pos_iff)
  ultimately show ?thesis using cnt_key_le_1 [OF assms(1), of "key x"] by simp
qed

text \<open>An unpaid order is closed when the row of the order and the row of its team are there.\<close>

lemma unpaid_refund_up:
  assumes M: "mysql_ok (rp_db r)" "mysql_up (rp_db r)" and inv: "teams_ok (rp_db r) d"
    and l: "l \<in> set (db_lists d)" "l_Status l = TradeOrderCreate"
    and g: "g \<in> set (db_orders d)" "o_TeamID g = l_TeamID l"
    and order: "ro_UserID order = l_UserID l" "ro_OrderID order = l_OrderID l" "ro_TeamID order = l_TeamID l"
  obtains x d' where "refund_by r E RefundUnpaidUnlock order d = (Inr x, d')"
    "map (\<lambda>g. (o_TeamID g, o_Status g)) (db_orders d') = map (\<lambda>g. (o_TeamID g, o_Status g)) (db_orders d)"
proof -
  let ?M = "rp_db r" and ?agg = "BuildUnpaid2RefundAggregate order (-1)"
  let ?upd = "refund_updates E (agr_GroupBuyProgress ?agg) True False"
  let ?run = "doRefund_tx r E ?agg 0 TaskTradeUnpaid2Refund (rt_Code RefundUnpaidUnlock) True False"
  have keys: "distinct (map (\<lambda>g. my_ck ?M (o_TeamID g)) (db_orders d))"
    "distinct (map (\<lambda>l. my_ck ?M (l_OrderID l)) (db_lists d))"
    using inv by (simp_all add: teams_ok_def)
  have agg: "agr_TradeRefundOrderEntity ?agg = order" "gp_LockCount (agr_GroupBuyProgress ?agg) = -1"
    by (simp_all add: BuildUnpaid2RefundAggregate_def)
  have "cnt (\<lambda>x. close_hit ?M order 0 x \<and> close_set E x \<noteq> x) (db_lists d) = 1"
    by (rule cnt_one [OF keys(2) l(1)]) (use l(2) order in \<open>auto simp: sqlEq_def dest: arg_cong [where f = l_Status]\<close>)
  from one_row_up [OF mysql_okD(2) [OF M(1)] mysql_upD(2) [OF M(2)], where tab = db_lists and put = put_lists, OF this]
  have close: "close_order r E order 0 d = (Inr (), d\<lparr>db_lists := upd_where (close_hit ?M order 0) (close_set E) (db_lists d)\<rparr>)"
    by (simp add: close_order_def Let_def)
  have "?upd x \<noteq> x" for x
    using agg(2) refund_updates_simps(4) [of E "agr_GroupBuyProgress ?agg" True False x] by auto
  then have one: "cnt (\<lambda>x. sqlEq ?M (o_TeamID x) (ro_TeamID order) \<and> ?upd x \<noteq> x) (db_orders d) = 1"
    by (intro cnt_one [OF keys(1) g(1)]) (use g(2) order(3) in \<open>auto simp: sqlEq_def\<close>)
  let ?d1 = "d\<lparr>db_lists := upd_where (close_hit ?M order 0) (close_set E) (db_lists d)\<rparr>"
  let ?d2 = "?d1\<lparr>db_orders := upd_where (\<lambda>x. sqlEq ?M (o_TeamID x) (ro_TeamID order)) ?upd (db_orders d)\<rparr>"
  have two: "one_row (dbUpdates db_orders put_orders (my_orders ?M)
      (\<lambda>x. sqlEq ?M (o_TeamID x) (ro_TeamID order)) ?upd) ?d1 = (Inr (), ?d2)"
    using one_row_up [OF mysql_okD(1) [OF M(1)] mysql_upD(1) [OF M(2)], where tab = db_orders and put = put_orders
      and d = ?d1] one by simp
  let ?task = "refund_task r E order TaskTradeUnpaid2Refund (rt_Code RefundUnpaidUnlock)"
  obtain i where "dbCreate db_tasks put_tasks (my_tasks ?M) ?task ?d2
      = (Inr (), put_tasks (db_tasks ?d2 @ [?task\<lparr>t_ID := i\<rparr>]) ?d2)"
    by (rule dbCreate_up [OF mysql_okD(3) [OF M(1)] mysql_upD(3) [OF M(2)],
        where tab = db_tasks and put = put_tasks and d = ?d2 and r = ?task])
      (simp add: no_clash_def)
  then have "?run d = (Inr (Some (toNotifyEntity ?task)), put_tasks (db_tasks ?d2 @ [?task\<lparr>t_ID := i\<rparr>]) ?d2)"
    using close two by (simp add: doRefund_tx_def agg insertRefundNotify_def go_bind_def Let_def)
  with mysql_upD(7) [OF M(2)] have "refund_by r E RefundUnpaidUnlock order d
      = (Inr (Some (toNotifyEntity ?task)), put_tasks (db_tasks ?d2 @ [?task\<lparr>t_ID := i\<rparr>]) ?d2)"
    by (simp add: refund_by_def repo_Unpaid2Refund_def doRefund_def txn_up_def)
  then show ?thesis by (rule that) (simp add: upd_where_def refund_updates_simps comp_def)
qed


text \<open>
  What an unpaid order needs to be released: its trade number finds it, and its team, under the name the
  order has for it, is in progress. A refund of another order does not change this.
\<close>

definition releasable :: "mysql \<Rightarrow> db \<Rightarrow> GroupBuyOrderList \<Rightarrow> bool" where
  "releasable M d l \<longleftrightarrow>
     l_Status l = TradeOrderCreate \<and>
     find (trade_no_of M (l_UserID l) (l_OutTradeNo l)) (db_lists d) = Some l \<and>
     (\<exists>g \<in> set (db_orders d). o_TeamID g = l_TeamID l \<and> o_Status g = GroupBuyProgress)"

definition released :: "call_env \<Rightarrow> GroupBuyOrderList set \<Rightarrow> db \<Rightarrow> db \<Rightarrow> bool" where
  "released E ls d d' \<longleftrightarrow>
     db_lists d' = upd_where (\<lambda>l. l \<in> ls) (close_set E) (db_lists d) \<and>
     map (\<lambda>g. (o_TeamID g, o_Status g)) (db_orders d') = map (\<lambda>g. (o_TeamID g, o_Status g)) (db_orders d)"

lemma releasable_other:
  assumes "released E {l} d d'" and "releasable M d x" and "x \<noteq> l"
  shows "releasable M d' x"
proof -
  from assms(2) obtain g where g: "g \<in> set (db_orders d)" "o_TeamID g = l_TeamID x" "o_Status g = GroupBuyProgress"
    unfolding releasable_def by blast
  then have "(l_TeamID x, GroupBuyProgress) \<in> set (map (\<lambda>g. (o_TeamID g, o_Status g)) (db_orders d))" by force
  then have "(l_TeamID x, GroupBuyProgress) \<in> set (map (\<lambda>g. (o_TeamID g, o_Status g)) (db_orders d'))"
    using assms(1) by (simp only: released_def)
  then have "\<exists>g \<in> set (db_orders d'). o_TeamID g = l_TeamID x \<and> o_Status g = GroupBuyProgress" by auto
  moreover have "find (trade_no_of M (l_UserID x) (l_OutTradeNo x)) (db_lists d') = Some x"
    using assms by (simp add: released_def releasable_def find_upd_where)
  ultimately show ?thesis using assms(2) by (simp add: releasable_def)
qed

lemma find_named_team:
  assumes "teams_ok M d" and g: "g \<in> set (db_orders d)"
  shows "find (\<lambda>x. sqlEq M (o_TeamID x) (o_TeamID g)) (db_orders d) = Some g"
proof (cases "find (\<lambda>x. sqlEq M (o_TeamID x) (o_TeamID g)) (db_orders d)")
  case None
  with g show ?thesis by (auto simp: find_None_iff sqlEq_def)
next
  case (Some x)
  have "distinct (map (\<lambda>g. my_ck M (o_TeamID g)) (db_orders d))" using assms(1) by (simp add: teams_ok_def)
  moreover from Some have "x \<in> set (db_orders d)" "sqlEq M (o_TeamID x) (o_TeamID g)" by (auto simp: find_Some_iff)
  ultimately show ?thesis using filter_key_unique [OF _ _ g] Some by (simp add: sqlEq_def)
qed

lemma release_call:
  assumes M: "mysql_ok (rp_db r)" "mysql_up (rp_db r)" and inv: "teams_ok (rp_db r) (w_db w)"
    and l: "releasable (rp_db r) (w_db w) l"
  obtains b w' where
    "rs_RefundOrder (refund_svc r E) (timeout_command (timeout_entity l g')) w = (Inr (Some b), w')"
    "teams_ok (rp_db r) (w_db w')" "released E {l} (w_db w) (w_db w')"
proof -
  let ?repo = "NewTradeRepository r E" and ?cmd = "timeout_command (timeout_entity l g')" and ?d = "w_db w"
  have row: "find (trade_no_of (rp_db r) (l_UserID l) (l_OutTradeNo l)) (db_lists ?d) = Some l"
    "l \<in> set (db_lists ?d)" "l_Status l = TradeOrderCreate"
    using l by (auto simp: releasable_def find_Some_iff)
  from l obtain g where g: "g \<in> set (db_orders ?d)" "o_TeamID g = l_TeamID l" "o_Status g = GroupBuyProgress"
    unfolding releasable_def by blast
  have cmd: "rcmd_UserID ?cmd = l_UserID l" "rcmd_OutTradeNo ?cmd = l_OutTradeNo l"
    by (simp_all add: timeout_command_def timeout_entity_def)
  obtain ord where ord: "QueryMarketPayOrderEntityByOutTradeNo ?repo (l_UserID l) (l_OutTradeNo l) w = (Inr (Some ord), w)"
    "mo_TeamID ord = l_TeamID l" "mo_OrderID ord = l_OrderID l" "mo_TradeOrderStatus ord = 0"
    using row(1,3) dbFirst_up [OF mysql_okD(2) [OF M(1)] mysql_upD(2) [OF M(2)]]
    by (simp add: NewTradeRepository_def on_db_def repo_QueryMarketPayOrderEntityByOutTradeNo_def go_bind_def
        trade_no_of_def)
  have team: "QueryGroupBuyTeamByTeamID ?repo (l_TeamID l) w = (Inr (Some (team_entity r g)), w)"
    using find_named_team [OF inv g(1)] g(2) dbFirst_up [OF mysql_okD(1) [OF M(1)] mysql_upD(1) [OF M(2)]]
    by (simp add: NewTradeRepository_def on_db_def repo_QueryGroupBuyTeamByTeamID_def go_bind_def)
  let ?order = "refund_order_of ?cmd ord (team_entity r g)"
  have order: "ro_UserID ?order = l_UserID l" "ro_OrderID ?order = l_OrderID l" "ro_TeamID ?order = l_TeamID l"
    using ord cmd by (simp_all add: refund_order_of_def)
  from unpaid_refund_up [OF M inv row(2,3) g(1,2) order, of E] obtain x d' where
    ran: "refund_by r E RefundUnpaidUnlock ?order ?d = (Inr x, d')"
    and teams: "map (\<lambda>g. (o_TeamID g, o_Status g)) (db_orders d') = map (\<lambda>g. (o_TeamID g, o_Status g)) (db_orders ?d)"
    by blast
  have rt: "GetRefundStrategy 0 0 = Inr RefundUnpaidUnlock"
    "all_strategies ?repo (Some safego_Go) (rt_Strategy RefundUnpaidUnlock) = Some (Unpaid2RefundStrategy ?repo (Some safego_Go))"
    by (simp_all add: GetRefundStrategy_def)
  have "rs_RefundOrder (refund_svc r E) ?cmd w =
      (Inr (Some (refund_behavior ?cmd ord RefundBehaviorSuccess)), refunded_world w d' x)"
    using ord team g(3) ran strategy_run [OF rt] rt cmd
    by (simp add: refund_svc_RefundOrder refund_RefundOrder_def NewTradeRefundRuleFilter_def chain_of_foldr
        DataNodeFilter_Apply_def UniqueRefundNodeFilter_Apply_def RefundOrderNodeFilter_Apply_def
        empty_refund_ctx_def go_bind_def on_db_def team_entity_def refunded_world_def sendRefundNotify_def
        safego_Go_def split: option.splits)
  moreover have "w_db (refunded_world w d' x) = d'" by (simp add: refunded_world_def split: option.splits)
  moreover have "teams_ok (rp_db r) d'" "db_lists d' = upd_where (\<lambda>y. y = l) (close_set E) (db_lists ?d)"
    using refunded_rows [OF M(1) inv row(1) _ ran order] rt(1) row(3) by simp_all
  ultimately show ?thesis using that teams by (simp add: released_def)
qed


section \<open>One run\<close>

text \<open>The orders of a batch are closed one after the other.\<close>

lemma released_trans:
  assumes "released E {l} d d1" and "released E (set ls) d1 d2" and "l \<notin> set ls" and "\<forall>x \<in> set ls. l_Status x \<noteq> 2"
  shows "released E (set (l # ls)) d d2"
proof -
  have "close_set E l \<notin> set ls" using assms(4) by auto
  with assms show ?thesis by (auto simp: released_def upd_where_def)
qed

lemma refund_items_released:
  assumes M: "mysql_ok (rp_db r)" "mysql_up (rp_db r)" and "teams_ok (rp_db r) (w_db w)"
    and "distinct (map fst items)" and "\<forall>(l, g) \<in> set items. releasable (rp_db r) (w_db w) l"
  shows "\<exists>w'. refund_items (refund_svc r E) (map (\<lambda>(l, g). timeout_entity l g) items) s f w =
      (Inr (JobSuccess (s + int (length items)) f), w') \<and>
    released E (set (map fst items)) (w_db w) (w_db w')"
  using assms(3-5)
proof (induction items arbitrary: s w)
  case Nil
  then show ?case by (simp add: released_def upd_where_def)
next
  case (Cons item items)
  obtain l g where item: "item = (l, g)" by force
  with Cons.prems have l: "releasable (rp_db r) (w_db w) l" and fresh: "l \<notin> set (map fst items)" by simp_all
  from release_call [OF M Cons.prems(1) l, of E g] obtain b w1 where
    one: "rs_RefundOrder (refund_svc r E) (timeout_command (timeout_entity l g)) w = (Inr (Some b), w1)"
    "teams_ok (rp_db r) (w_db w1)" "released E {l} (w_db w) (w_db w1)"
    by blast
  have "releasable (rp_db r) (w_db w1) x" if "(x, g) \<in> set items" for x g
  proof (rule releasable_other [OF one(3)])
    show "releasable (rp_db r) (w_db w) x" using Cons.prems(3) that by auto
    show "x \<noteq> l" using fresh that by force
  qed
  with Cons.IH [OF one(2)] Cons.prems(2) item obtain w' where
    rest: "refund_items (refund_svc r E) (map (\<lambda>(l, g). timeout_entity l g) items) (s + 1) f w1 =
      (Inr (JobSuccess (s + 1 + int (length items)) f), w')"
    "released E (set (map fst items)) (w_db w1) (w_db w')"
    by fastforce
  have "\<forall>x \<in> set (map fst items). l_Status x \<noteq> 2" using Cons.prems(3) by (auto simp: releasable_def)
  from released_trans [OF one(3) rest(2) fresh this] one(1) rest(1) item show ?case by (simp add: algebra_simps)
qed

text \<open>The orders that have run out of time, and what the query of the job gives of them.\<close>

definition expired :: "call_env \<Rightarrow> GroupBuyOrderList \<Rightarrow> bool" where
  "expired E l \<longleftrightarrow> l_Status l = TradeOrderCreate \<and> l_OutTradeTime l = None \<and> l_EndTime l < ce_now E 0"

lemma timeout_team_map_some: "g \<in> set gs \<Longrightarrow> \<exists>g'. timeout_team_map gs (o_TeamID g) = Some g'"
proof -
  have "g \<in> set gs \<Longrightarrow> \<exists>g'. foldl (\<lambda>m t. m(o_TeamID t \<mapsto> t)) m gs (o_TeamID g) = Some g'" for m
  proof (induction gs rule: rev_induct)
    case (snoc x gs)
    then show ?case by (cases "g \<in> set gs") auto
  qed simp
  then show "g \<in> set gs \<Longrightarrow> ?thesis" by (simp add: timeout_team_map_def)
qed

lemma distinct_sub_mset: "mset xs \<subseteq># mset ys \<Longrightarrow> distinct ys \<Longrightarrow> distinct xs"
proof -
  assume "mset xs \<subseteq># mset ys" and ys: "distinct ys"
  then obtain zs where "mset ys = mset (xs @ zs)"
    by (metis mset_subset_eq_exists_conv ex_mset mset_append)
  with ys have "distinct (xs @ zs)" by (metis mset_eq_imp_distinct_iff)
  then show "distinct xs" by simp
qed

lemma timeout_query_up:
  assumes M: "mysql_ok (rp_db r)" "mysql_up (rp_db r)" and keys: "distinct (db_lists (w_db w))"
    and all: "\<forall>l \<in> set (db_lists (w_db w)). expired E l \<longrightarrow> releasable (rp_db r) (w_db w) l"
  obtains items where
    "rs_QueryTimeoutUnpaidOrderList (refund_svc r E) w = (Inr (map (\<lambda>(l, g). timeout_entity l g) items), w)"
    "distinct (map fst items)" "\<forall>(l, g) \<in> set items. l \<in> set (db_lists (w_db w)) \<and> expired E l"
    "length items = min 10 (cnt (expired E) (db_lists (w_db w)))"
proof -
  let ?d = "w_db w" and ?M = "rp_db r"
  let ?P = "\<lambda>l. l_Status l = 0 \<and> l_OutTradeTime l = None \<and> ce_now E 0 > l_EndTime l"
  have P: "?P = expired E" by (simp add: expired_def fun_eq_iff)
  from dbFind_up [OF mysql_okD(2) [OF M(1)] mysql_upD(2) [OF M(2)], of db_lists ?P Unordered "Some 10" ?d]
  obtain ls where ls: "dbFind db_lists (my_lists ?M) ?P Unordered (Some 10) ?d = (Inr ls, ?d)"
    "mset ls \<subseteq># mset (filter (expired E) (db_lists ?d))" "length ls = min 10 (cnt (expired E) (db_lists ?d))"
    by (auto simp: find_ok_def P)
  have mem: "l \<in> set (db_lists ?d) \<and> expired E l" if "l \<in> set ls" for l
    using that mset_subset_eqD [OF ls(2)] by (metis set_mset_mset mem_Collect_eq set_filter)
  have "distinct (filter (expired E) (db_lists ?d))" using keys by simp
  with ls(2) have dist: "distinct ls" by (rule distinct_sub_mset)
  let ?Q = "\<lambda>g. list_ex (\<lambda>t. sqlEq ?M (o_TeamID g) t) (map l_TeamID ls)"
  from dbFind_up [OF mysql_okD(1) [OF M(1)] mysql_upD(1) [OF M(2)], of db_orders ?Q Unordered None ?d]
  obtain gs where gs: "dbFind db_orders (my_orders ?M) ?Q Unordered None ?d = (Inr gs, ?d)"
    "mset gs \<subseteq># mset (filter ?Q (db_orders ?d))" "length gs = cnt ?Q (db_orders ?d)"
    by (auto simp: find_ok_def)
  then have "mset gs = mset (filter ?Q (db_orders ?d))"
    by (intro mset_eq_of_size) (simp_all only: cnt_def size_mset)
  then have set_gs: "set gs = set (filter ?Q (db_orders ?d))" by (rule mset_eq_setD)
  have some: "\<exists>g. timeout_team_map gs (l_TeamID l) = Some g" if "l \<in> set ls" for l
  proof -
    from mem [OF that] all obtain g where g: "g \<in> set (db_orders ?d)" "o_TeamID g = l_TeamID l"
      by (auto simp: releasable_def)
    then have "g \<in> set gs" using that unfolding set_gs by (auto simp: list_ex_iff sqlEq_def)
    with timeout_team_map_some [OF this] g(2) show ?thesis by simp
  qed
  let ?items = "map (\<lambda>l. (l, the (timeout_team_map gs (l_TeamID l)))) ls"
  have found: "List.map_filter (\<lambda>l. map_option (timeout_entity l) (timeout_team_map gs (l_TeamID l))) ls =
      map (\<lambda>(l, g). timeout_entity l g) ?items"
    using some by (induction ls) (fastforce simp: List.map_filter_def)+
  show ?thesis
  proof (rule that [of ?items])
    show "rs_QueryTimeoutUnpaidOrderList (refund_svc r E) w = (Inr (map (\<lambda>(l, g). timeout_entity l g) ?items), w)"
      using ls(1) gs(1) found
      by (simp add: NewTradeRefundOrderService_def refund_QueryTimeoutUnpaidOrderList_def NewTradeRepository_def
          on_db_def repo_QueryTimeoutUnpaidOrderList_def go_bind_def Let_def del: map_map)
  qed (use dist mem ls(3) in \<open>auto simp: comp_def\<close>)
qed

lemma with_lock_free:
  assumes "redis_ok R" and "redis_up R" and "0 < lease" and "w_redis w key = None"
    and "body (w\<lparr>w_redis := (w_redis w)(key \<mapsto> VInt 1 (Some lease))\<rparr>) = (q, w1)"
  shows "with_lock R L key wait lease s body w = Some (q, w1\<lparr>w_redis := (w_redis w1)(key := None)\<rparr>)"
  using assms by (simp add: with_lock_def TryLockWait_def TryLockWait_loop.simps TryLock_def SetNX_up on_redis_def
      Unlock_def Del_up)

section \<open>Properties\<close>

lemma expired_left:
  assumes "distinct xs" and "distinct ls" and "\<forall>l \<in> set ls. l \<in> set xs \<and> expired E l"
  shows "cnt (expired E) (upd_where (\<lambda>l. l \<in> set ls) (close_set E) xs) = cnt (expired E) xs - length ls"
proof -
  have "cnt (\<lambda>l. expired E l \<and> l \<in> set ls) xs = card (set (filter (\<lambda>l. expired E l \<and> l \<in> set ls) xs))"
    using distinct_card [of "filter (\<lambda>l. expired E l \<and> l \<in> set ls) xs"] assms(1) by (simp add: cnt_def)
  also have "set (filter (\<lambda>l. expired E l \<and> l \<in> set ls) xs) = set ls" using assms(3) by auto
  finally have "cnt (\<lambda>l. expired E l \<and> l \<in> set ls) xs = length ls" using distinct_card [OF assms(2)] by simp
  moreover have "cnt (expired E) (upd_where (\<lambda>l. l \<in> set ls) (close_set E) xs) = cnt (\<lambda>l. expired E l \<and> l \<notin> set ls) xs"
    unfolding cnt_upd_where by (rule cnt_cong) (simp add: expired_def)
  moreover have "cnt (expired E) xs =
      cnt (\<lambda>l. expired E l \<and> l \<in> set ls) xs + cnt (\<lambda>l. expired E l \<and> l \<notin> set ls) xs"
    by (induction xs) auto
  ultimately show ?thesis by simp
qed

text \<open>
  C21. Let MySQL and Redis be up, the lock of the timeout job free, every team count its orders as
  in C1, and let each unpaid order whose time is over be found by its trade number and have a team
  in progress. Then a run of the job refunds ten of these orders, or all when there are fewer, none
  of its refunds fails, every other order stays as it is, and the lock is free again. An order that
  its number does not find (C23) or whose team is no longer in progress (C17) is outside these runs.
\<close>

theorem expired_orders_are_released:
  assumes M: "mysql_ok (rp_db r)" "mysql_up (rp_db r)" and R: "redis_ok R" "redis_up R"
    and inv: "teams_ok (rp_db r) (w_db w)"
    and all: "\<forall>l \<in> set (db_lists (w_db w)). expired E l \<longrightarrow> releasable (rp_db r) (w_db w) l"
    and free: "w_redis w ''group_buy_market_timeout_refund_job_exec'' = None"
  shows "\<exists>w'. TimeoutRefundJob_exec R L (refund_svc r E) w =
      Some (JobSuccess (int (min 10 (cnt (expired E) (db_lists (w_db w))))) 0, w') \<and>
    cnt (expired E) (db_lists (w_db w')) = cnt (expired E) (db_lists (w_db w)) - 10 \<and>
    (\<forall>l \<in> set (db_lists (w_db w)). \<not> expired E l \<longrightarrow> l \<in> set (db_lists (w_db w'))) \<and>
    w_redis w' ''group_buy_market_timeout_refund_job_exec'' = None"
proof -
  let ?key = "''group_buy_market_timeout_refund_job_exec''" and ?d = "w_db w"
  let ?w = "w\<lparr>w_redis := (w_redis w)(?key \<mapsto> VInt 1 (Some 60))\<rparr>"
  have dist: "distinct (db_lists ?d)" using inv by (simp add: teams_ok_def distinct_map)
  from timeout_query_up [OF M, of ?w E] dist all obtain items where
    q: "rs_QueryTimeoutUnpaidOrderList (refund_svc r E) ?w = (Inr (map (\<lambda>(l, g). timeout_entity l g) items), ?w)"
    and items: "distinct (map fst items)" "\<forall>(l, g) \<in> set items. l \<in> set (db_lists ?d) \<and> expired E l"
      "length items = min 10 (cnt (expired E) (db_lists ?d))"
    by auto
  have "\<forall>(l, g) \<in> set items. releasable (rp_db r) (w_db ?w) l" using items(2) all by auto
  from refund_items_released [OF M _ items(1) this, where s = 0 and f = 0 and E = E] inv obtain w1 where
    run: "refund_items (refund_svc r E) (map (\<lambda>(l, g). timeout_entity l g) items) 0 0 ?w =
      (Inr (JobSuccess (int (length items)) 0), w1)"
    "released E (set (map fst items)) ?d (w_db w1)"
    by auto
  have "timeout_body (refund_svc r E) ?w = (Inr (JobSuccess (int (length items)) 0), w1)"
    using q run(1) by (cases items) (simp_all add: timeout_body_def)
  from with_lock_free [where body = "timeout_body (refund_svc r E)", OF R _ free this, of L 3000 JobSkipLock] have
    exec: "TimeoutRefundJob_exec R L (refund_svc r E) w =
      Some (JobSuccess (int (length items)) 0, w1\<lparr>w_redis := (w_redis w1)(?key := None)\<rparr>)"
    by (simp add: TimeoutRefundJob_exec_def recovered_run_def)
  have rows: "db_lists (w_db w1) = upd_where (\<lambda>l. l \<in> set (map fst items)) (close_set E) (db_lists ?d)"
    using run(2) by (simp add: released_def)
  have "cnt (expired E) (db_lists (w_db w1)) = cnt (expired E) (db_lists ?d) - length items"
    unfolding rows using expired_left [OF dist items(1), of E] items(2) by (simp add: case_prod_unfold)
  then have "cnt (expired E) (db_lists (w_db w1)) = cnt (expired E) (db_lists ?d) - 10"
    unfolding items(3) by simp
  moreover have "l \<in> set (db_lists (w_db w1))" if "l \<in> set (db_lists ?d)" "\<not> expired E l" for l
    unfolding rows using that items(2) by (force simp: upd_where_def)
  ultimately show ?thesis using exec items(3) by (intro exI [of _ "w1\<lparr>w_redis := (w_redis w1)(?key := None)\<rparr>"]) simp
qed

text \<open>Ann has locked an order and never paid; the job closes it.\<close>

lemma expired_orders_witness:
  "\<exists>w'. TimeoutRefundJob_exec refRedis ex_lock_env (refund_svc refRepository \<lparr>ce_now = (\<lambda>_. 200000), ce_rand = (\<lambda>_. 0)\<rparr>) ex_world
     = Some (JobSuccess 1 0, w') \<and>
     (\<forall>l \<in> set (db_lists (w_db w')). \<not> expired \<lparr>ce_now = (\<lambda>_. 200000), ce_rand = (\<lambda>_. 0)\<rparr> l)"
proof -
  let ?E = "\<lparr>ce_now = (\<lambda>_. 200000), ce_rand = (\<lambda>_. 0)\<rparr> :: call_env"
  have inv: "teams_ok (rp_db refRepository) (w_db ex_world)"
    by (simp add: teams_ok_def team_ok_def open_count_def paid_count_def ex_world_def ex_defs)
  have all: "\<forall>l \<in> set (db_lists (w_db ex_world)). expired ?E l \<longrightarrow> releasable (rp_db refRepository) (w_db ex_world) l"
    by (simp add: releasable_def trade_no_of_def ex_world_def ex_defs)
  have one: "cnt (expired ?E) (db_lists (w_db ex_world)) = 1"
    by (simp add: expired_def ex_world_def ex_defs)
  from expired_orders_are_released [OF _ _ redis_ok_ref redis_up_ref inv all, of ex_lock_env] one
    mysql_ok_ref mysql_up_ref obtain w' where
    "TimeoutRefundJob_exec refRedis ex_lock_env (refund_svc refRepository ?E) ex_world = Some (JobSuccess 1 0, w')"
    "cnt (expired ?E) (db_lists (w_db w')) = 0"
    by (auto simp: ex_world_def)
  then show ?thesis by (auto simp: cnt_0_iff)
qed

end
