(* ===== verification/Spec2Isabelle.thy ===== *)
theory Spec2Isabelle
  imports Settings Wiring Stock_Ledger Task_Progress Timeout_Progress
begin

text \<open>
  A verification development for the group-buy market: a Go server by which users lock, pay for and
  give back places in teams that buy together at a discount. It covers the whole of \<open>internal/\<close> and
  \<open>cmd/server\<close>; this theory only collects the others, each of which opens with what it holds.

  \<^bold>\<open>The program.\<close> A lock request (\<open>internal/application\<close>) runs a trial of price and admission (the activity
  context, \<open>internal/domain/activity\<close>), then a chain of rules that counts the user's orders in MySQL and takes
  a place in Redis, then one transaction that writes the order and raises the team's lock count (the
  trade context, \<open>internal/domain/trade\<close>, over \<open>internal/infrastructure/repository\<close>). A settlement marks the
  order paid, raises the complete count and, with the last place, completes the team and writes a
  notify task. A refund closes the order, lowers the counts and writes a task whose message, once it
  comes back through RabbitMQ, gives the place in Redis back. Tasks are delivered in a goroutine at once
  and by a scheduled job until they are done; a second job refunds orders that were never paid.

  \<^bold>\<open>How it is modelled.\<close> A function that touches a store is \<open>'w \<Rightarrow> 'a res \<times> 'w\<close> (theory Prelude): it returns an
  error or a value with the world after it; a panic is one of the errors and unwinds like Go's. A
  pointer is an option, a nil dereference a panic. 64-bit integers are words where they may wrap around
  (keys, the share of users, intervals) and \<open>int\<close> where they count rows. Structs are records with the
  source's field names under a prefix, interfaces are records of functions (Trade\_Ports), and the
  world is the database, the keyspace, the settings and what was sent. Ports are composed as the wiring
  composes them, so a property of a use case is one of the code under all its layers.

  \<^bold>\<open>The theories\<close>, from the bottom:

  \<^item> Prelude, Response\_Codes, Tables, Trade\_Model: results, string helpers of Go, the error codes and the
  responses (\<open>types\<close>, \<open>api/response\<close>), the rows (\<open>dao/po\<close>), the value objects, entities and aggregates.
  \<^item> Mysql, Redis: what gorm and go-redis do for the calls the code makes, as parameters with named
  hypotheses, and the Redis service (\<open>redis\_service.go\<close>) with its waiting lock.
  \<^item> Dcc, Settings: the dynamic configuration and the cluster of instances that share it.
  \<^item> Design, Keys, Trade\_Ports: chains of rules and the strategy tree (\<open>internal/design\<close>), Redis keys, ports.
  \<^item> Trade\_Repository: every method of \<open>trade\_repository.go\<close>; Team\_Invariant, Team\_Steps,
  Order\_Lifecycle: its transactions as a step relation, the invariant of the counters, the life of an order.
  \<^item> Team\_Stock, Take\_Limit: places in Redis under any interleaving of clients, and the limit per user.
  \<^item> Trade\_Task, Lock\_Service, Settlement\_Service, Refund\_Service: the domain services and their rules.
  \<^item> Notify\_ACL, Listener, Broker: the outbound adapter with its HTTP and RabbitMQ clients, the consumers,
  and the topology of the broker that connects them.
  \<^item> Discount, Trial, Activity\_Repository, Tag: the activity and the tag context.
  \<^item> Jobs, Workers: one run of each scheduled job, and the loops around them and the subscription.
  \<^item> Market\_Dto, Market\_App, Market\_Page, Http\_Entry: requests and responses, the use cases, what the page
  shows, the configuration, the rate limit and the controllers.
  \<^item> Metrics, Middleware, Log\_Shipping: the metrics, what every request passes through, the log handler.
  \<^item> Market\_System, Wiring: the server as one step relation, and the assembled program (\<open>wire.go\<close>,
  \<open>main.go\<close>) as a refinement of it.
  \<^item> Stock\_Ledger: the places of a team in Redis beside its orders in the database, over all requests and
  messages; Task\_Progress, Timeout\_Progress: what rounds of the two jobs achieve when nothing is down.

  \<^bold>\<open>What is shown.\<close> The counters of a team are the numbers of its orders after
  any run of the assembled program whose lock requests have numbers of their own (C1, C2); a lock
  transaction does one thing on each branch and leaves nothing behind where it is refused (C3), an
  order is refunded once (C4), and neither an order nor a team returns to an earlier stage (C36);
  when a settlement completes a team and when two concurrent ones fail to (C5, C6). Places in Redis
  are not oversold (C10, C11), and come back once however often a message is delivered (C22), if the
  topics of the configuration agree (C38); whatever requests and late or repeated messages follow
  one another, they are the open orders of the team and the refunds still under way (C7), as long as
  requests name teams by their own ids -- an id made up for the purpose adds a place (C24). Each
  service and use case has its outcome on every branch (C12, C14, C16, C19, C26, C30); a repeated
  lock request finds its order for as long as that is unpaid, whatever was served since (C31). The
  state machine of tasks and its dead ends (C8, C9), what a done task means (C20) and when it means
  nothing (C37). Both jobs get through what waits when nothing is down: fifty tasks (C32) and ten
  expired orders (C21) a run. Prices (C25), the countdown (C29), the share of users (C27), the
  agreement of instances (C28), the crowd (C34), the rate limit (C35), the page (C33); what is
  counted and logged (C39, C40). C6, C8, C15, C17, C23, C24, C37 and C38 state behaviour that the
  code does not intend.

  \<^bold>\<open>Parameters and hypotheses.\<close> What is not in the repository is a parameter:
  gorm and MySQL (\<open>mysql\_ok\<close>: an operation does what its SQL says or reports an error,
  a failed transaction changes nothing, unique keys hold; \<open>mysql\_up\<close>: no error; \<open>duplicates\_told\<close>: the error of a violated key says so), Redis
  (\<open>redis\_ok\<close>, \<open>redis\_up\<close>, and \<open>getbit\_reads\<close>: reading a
  bit changes nothing), the amqp package (\<open>amqp\_ok\<close>), decimal arithmetic
  (\<open>decimal\_ops\<close> with its laws), the client of Prometheus (\<open>prom\_ok\<close>),
  the limiter of \<open>x/time/rate\<close>, HTTP answers, clocks, random numbers, gin's binding and
  router. A row is stored as it is given: the rounding of prices to two digits and of times to
  seconds by the columns is left out. A transaction that reports an error has changed nothing, so a
  commit whose acknowledgement is lost is left out too. A request to an address is not built, not
  answered or answered, and only one that was sent leaves a trace. Each hypothesis is met by a
  concrete instance (\<open>refMySQL\<close>, \<open>refRedis\<close>, \<open>refAmqp\<close>,
  \<open>refPrometheus\<close>, \<open>refDecimal\<close>), on which every property that has
  hypotheses is applied once.

  \<^bold>\<open>Loops and bounds.\<close> Loops over data are structural. The chain of rules takes fuel, and the number of
  its handlers is enough (\<open>linked\_list\_is\_composition\<close>). The waiting lock may run forever and is a partial
  function; with a clock that advances by its pause it returns (C18). Select loops are functions of what
  the select takes. The countdown is exact up to a thousand hours, numbers of metrics up to \<open>2 ^ 53\<close>.
  A run of the ledger has fewer than \<open>2 ^ 63 - 2\<close> steps, so that the counters of Redis cannot overflow in it,
  and no message in it comes thirty days late, when the lock of its refund has expired.

  \<^bold>\<open>Not modelled.\<close> The text of log lines; the calls of the metrics inside the
  other components (the observations themselves are in Metrics); deadlines of contexts, but for the
  waiting lock; the bytes of JSON, which is represented by its document; serving static files.
  Operations of one transaction are atomic, as the database makes them; transactions and Redis
  commands of different requests interleave in Team\_Steps, Team\_Stock and Take\_Limit, while a
  step of Market\_System is a whole request; so a settlement service runs in one go there and in
  C14, and C6 is about settlements that interleave. The background goroutines run one at a time.
  What a handler under the metrics middleware does to other metrics is not seen by the middleware.
\<close>

end
